(* ===== verification/Prelude.thy ===== *)
theory Prelude
  imports Main "HOL-Library.Word" "HOL-Library.Char_ord" "HOL-Library.List_Lexorder"
    "HOL-Library.Product_Lexorder"
begin

text \<open>
  Shared vocabulary of the development: machine integers, the error values of
  \<^verbatim>\<open>internal/shared/errors\<close>, the model of a fallible database connection
  (\<^verbatim>\<open>internal/controller/repository/db.go\<close>) and the generic facts the component theories
  use.

  A repository operation is a function from the database state to a result (an error or a
  value) and the state it leaves. PostgreSQL is not part of the program: what the code relies
  on is that a statement either takes effect or fails, that a transaction is all-or-nothing,
  and that the reply of an autocommitted statement or of a COMMIT may be lost although it took
  effect. Which statement meets which fate is an argument of the model: the list
  \<open>faults\<close> of the state says, statement by statement, what the connection does.
\<close>

section \<open>Machine integers and errors\<close>

type_synonym int64 = "64 word"

text \<open>The sentinel errors of \<^verbatim>\<open>errors.go\<close> and of the packages \<^verbatim>\<open>payments\<close> and \<^verbatim>\<open>payments/crypto\<close>; \<open>fmt.Errorf("...: %w", err)\<close> keeps the wrapped
  sentinel, so an error is modelled by the sentinel it wraps. The last constructors are errors
  the sources get from pgx (\<open>ErrNoRows\<close>, a unique-constraint violation, any other failure of
  the connection) and errors made on the spot from a message.\<close>

datatype error =
    ErrNotFound
  | ErrAlreadyExists
  | ErrUnauthorized
  | ErrForbidden
  | ErrValidation string string
  | ErrConflict
  | ErrRateLimited
  | ErrServiceDown
  | ErrTimeout
  | ErrNoIPMIConfigured
  | ErrInvalidVMState
  | ErrVMNotRunning
  | ErrPlanHasExistingVMs
  | ErrAccountLocked
  | ErrNoRowsAffected
  | ErrLimitExceeded
  | ErrNotSupported
  | ErrWebhookVerification
  | ErrWebhookValidation
  | ErrNoRows
  | ErrUniqueViolation string
  | ErrDB
  | ErrMsg string

section \<open>The database connection\<close>

datatype fault =
    NoFault        \<comment> \<open>the statement takes effect and its reply arrives\<close>
  | StmtFails      \<comment> \<open>the statement has no effect and an error arrives\<close>
  | ReplyLost      \<comment> \<open>the statement takes effect but the caller sees an error\<close>

record db_env =
  faults :: "fault list"
  next_id :: nat
  gen_uuid :: "nat \<Rightarrow> string"
  clock :: int

type_synonym ('s, 'a) db_op = "'s \<Rightarrow> (error + 'a) \<times> 's"

definition return_db :: "'a \<Rightarrow> ('s, 'a) db_op" where
  "return_db x s = (Inr x, s)"

definition throw_db :: "error \<Rightarrow> ('s, 'a) db_op" where
  "throw_db e s = (Inl e, s)"

definition bind_db :: "('s, 'a) db_op \<Rightarrow> ('a \<Rightarrow> ('s, 'b) db_op) \<Rightarrow> ('s, 'b) db_op" where
  "bind_db m f s = (case m s of (Inl e, s') \<Rightarrow> (Inl e, s') | (Inr x, s') \<Rightarrow> f x s')"

text \<open>A step that touches no table, and a step whose error is only logged.\<close>

definition lift_db :: "error + 'a \<Rightarrow> ('s, 'a) db_op" where
  "lift_db r s = (r, s)"

definition log_error :: "('s, 'a) db_op \<Rightarrow> ('s, unit) db_op" where
  "log_error m s = (Inr (), snd (m s))"

text \<open>The connection's fate for the next statement; past the end of the list nothing fails.\<close>

definition next_fault :: "('r db_env_scheme) \<Rightarrow> fault" where
  "next_fault s = (case faults s of [] \<Rightarrow> NoFault | f # _ \<Rightarrow> f)"

definition pop_fault :: "('r db_env_scheme) \<Rightarrow> 'r db_env_scheme" where
  "pop_fault s = s\<lparr>faults := tl (faults s)\<rparr>"

text \<open>A statement outside a transaction commits by itself, so a lost reply leaves its effect.\<close>

definition auto_stmt :: "('r db_env_scheme, 'a) db_op \<Rightarrow> ('r db_env_scheme, 'a) db_op" where
  "auto_stmt f s =
     (let s1 = pop_fault s in
      case next_fault s of
        NoFault \<Rightarrow> f s1
      | StmtFails \<Rightarrow> (Inl ErrDB, s1)
      | ReplyLost \<Rightarrow> (Inl ErrDB, snd (f s1)))"

text \<open>Inside a transaction any failure aborts the whole transaction.\<close>

definition tx_stmt :: "('r db_env_scheme, 'a) db_op \<Rightarrow> ('r db_env_scheme, 'a) db_op" where
  "tx_stmt f s =
     (let s1 = pop_fault s in
      case next_fault s of
        NoFault \<Rightarrow> f s1
      | _ \<Rightarrow> (Inl ErrDB, s1))"

text \<open>
  The body of \<open>tx, err := db.Begin(ctx); defer tx.Rollback(ctx); ...\<close>: it ends by committing
  or by returning with the deferred rollback. A rollback restores every table; the connection's
  own history (\<open>faults\<close>) and the identifiers already drawn are not undone.
\<close>

datatype 'a tx_end = Commit 'a | Abandon 'a

definition rollback :: "('r db_env_scheme) \<Rightarrow> 'r db_env_scheme \<Rightarrow> 'r db_env_scheme" where
  "rollback s0 s1 = s0\<lparr>faults := faults s1, next_id := next_id s1\<rparr>"

definition transaction :: "('r db_env_scheme, 'a tx_end) db_op \<Rightarrow> ('r db_env_scheme, 'a) db_op" where
  "transaction body s =
     (let s0 = pop_fault s in
      case next_fault s of
        NoFault \<Rightarrow>
          (case body s0 of
             (Inl e, s1) \<Rightarrow> (Inl e, rollback s0 s1)
           | (Inr (Abandon x), s1) \<Rightarrow> (Inr x, rollback s0 s1)
           | (Inr (Commit x), s1) \<Rightarrow>
               (let s2 = pop_fault s1 in
                case next_fault s1 of
                  NoFault \<Rightarrow> (Inr x, s2)
                | StmtFails \<Rightarrow> (Inl ErrDB, rollback s0 s2)
                | ReplyLost \<Rightarrow> (Inl ErrDB, s2)))
      | _ \<Rightarrow> (Inl ErrDB, s0))"


section \<open>Reasoning about database operations\<close>

named_theorems db_simps \<open>unfolding of the database combinators\<close>

declare return_db_def [db_simps] throw_db_def [db_simps] bind_db_def [db_simps]
  lift_db_def [db_simps] log_error_def [db_simps]
  auto_stmt_def [db_simps] tx_stmt_def [db_simps] Let_def [db_simps]

lemma bind_db_Inr [elim!]:
  assumes "bind_db m f s = (Inr y, t)"
  obtains x s1 where "m s = (Inr x, s1)" "f x s1 = (Inr y, t)"
  using assms by (auto simp: bind_db_def split: prod.splits sum.splits)

lemma bind_db_cases:
  assumes "bind_db m f s = (r, t)"
  obtains e where "m s = (Inl e, t)" "r = Inl e"
  | x s1 where "m s = (Inr x, s1)" "f x s1 = (r, t)"
  using assms by (auto simp: bind_db_def split: prod.splits sum.splits)

text \<open>A connection with nothing scripted works.\<close>

lemma no_faults [simp]:
  assumes "faults s = []"
  shows "next_fault s = NoFault" "pop_fault s = s"
  using assms by (simp_all add: next_fault_def pop_fault_def)

text \<open>What a state holds apart from the connection's own history.\<close>

definition tables :: "('r db_env_scheme) \<Rightarrow> 'r db_env_scheme" where
  "tables s = s\<lparr>faults := [], next_id := 0\<rparr>"

lemma tables_pop_fault [simp]: "tables (pop_fault s) = tables s"
  by (simp add: tables_def pop_fault_def)

lemma tables_rollback [simp]: "tables (rollback s0 s1) = tables s0"
  by (simp add: tables_def rollback_def)

lemma tables_faults [simp]: "tables (s\<lparr>faults := f\<rparr>) = tables s"
  by (simp add: tables_def)

lemma tables_next_id [simp]: "tables (s\<lparr>next_id := n\<rparr>) = tables s"
  by (simp add: tables_def)

lemma clock_tables [simp]: "clock (tables s) = clock s"
  by (simp add: tables_def)

lemma tables_idem [simp]: "tables (tables s) = tables s"
  by (simp add: tables_def)

text \<open>A predicate that reads only the tables.\<close>

definition env_free :: "(('r db_env_scheme) \<Rightarrow> bool) \<Rightarrow> bool" where
  "env_free P \<longleftrightarrow> (\<forall>s. P (tables s) = P s)"

lemma env_freeD: "env_free P \<Longrightarrow> tables s = tables t \<Longrightarrow> P s = P t"
  unfolding env_free_def by metis

lemma tx_stmt_cases:
  assumes "tx_stmt f s = (r, t)"
  obtains "r = Inl ErrDB" "tables t = tables s"
  | s1 where "tables s1 = tables s" "f s1 = (r, t)"
proof (cases "next_fault s")
  case NoFault
  with assms have "f (pop_fault s) = (r, t)" by (simp add: tx_stmt_def Let_def)
  then show ?thesis by (rule that(2) [OF tables_pop_fault])
qed (use assms that(1) in \<open>auto simp: tx_stmt_def Let_def\<close>)

lemma auto_stmt_cases:
  assumes "auto_stmt f s = (r, t)"
  obtains "r = Inl ErrDB" "tables t = tables s"
  | s1 where "tables s1 = tables s" "f s1 = (r, t)"
  | s1 r1 where "tables s1 = tables s" "f s1 = (r1, t)" "r = Inl ErrDB"
proof (cases "next_fault s")
  case NoFault
  with assms have "f (pop_fault s) = (r, t)" by (simp add: auto_stmt_def Let_def)
  then show ?thesis by (rule that(2) [OF tables_pop_fault])
next
  case ReplyLost
  with assms have "r = Inl ErrDB" "f (pop_fault s) = (fst (f (pop_fault s)), t)"
    by (auto simp: auto_stmt_def Let_def)
  then show ?thesis using that(3) by (metis tables_pop_fault)
qed (use assms that(1) in \<open>auto simp: auto_stmt_def Let_def\<close>)

text \<open>The three ways a transaction ends: nothing changed and an error, nothing changed and an
  early return, or the body's effect in full (whose reply may be lost).\<close>

lemma transaction_cases:
  assumes "transaction body s = (r, t)"
  obtains (failed) e where "r = Inl e" "tables t = tables s"
  | (abandoned) x s0 s1 where "tables s0 = tables s" "body s0 = (Inr (Abandon x), s1)" "r = Inr x"
      "tables t = tables s"
  | (committed) x s0 s1 where "tables s0 = tables s" "body s0 = (Inr (Commit x), s1)"
      "tables t = tables s1" "r = Inr x \<or> r = Inl ErrDB"
proof (cases "next_fault s")
  case NoFault
  obtain rb s1 where b: "body (pop_fault s) = (rb, s1)" by (cases "body (pop_fault s)")
  show ?thesis
  proof (cases rb)
    case (Inl e)
    with assms NoFault b show ?thesis
      by (intro failed [of e]) (auto simp: transaction_def Let_def)
  next
    case (Inr en)
    show ?thesis
    proof (cases en)
      case (Commit x)
      show ?thesis
      proof (cases "next_fault s1 = StmtFails")
        case True
        with assms NoFault b Inr Commit show ?thesis
          by (intro failed [of ErrDB]) (auto simp: transaction_def Let_def)
      next
        case False
        with assms NoFault b Inr Commit show ?thesis
          by (intro committed [of "pop_fault s" x s1])
             (auto simp: transaction_def Let_def split: fault.splits)
      qed
    next
      case (Abandon x)
      with assms NoFault b Inr show ?thesis
        by (intro abandoned [of "pop_fault s" x s1]) (auto simp: transaction_def Let_def)
    qed
  qed
qed (use assms in \<open>auto simp: transaction_def Let_def intro: failed\<close>)

text \<open>A table invariant survives a transaction if a committing run of its body keeps it.\<close>

lemma transaction_keeps:
  assumes free: "env_free P"
    and body: "\<And>s0 x s1. P s0 \<Longrightarrow> body s0 = (Inr (Commit x), s1) \<Longrightarrow> P s1"
    and P: "P s"
  shows "P (snd (transaction body s))"
proof -
  obtain r t where rt: "transaction body s = (r, t)" by (cases "transaction body s")
  from rt have "P t"
  proof (cases rule: transaction_cases)
    case (committed x s0 s1)
    with free P have "P s0" by (metis env_freeD)
    with committed body have "P s1" by blast
    with committed free show ?thesis by (metis env_freeD)
  qed (use free P in \<open>metis env_freeD\<close>)+
  with rt show ?thesis by simp
qed

lemma auto_stmt_keeps:
  assumes "env_free P" and "\<And>s0. P s0 \<Longrightarrow> P (snd (f s0))" and "P s"
  shows "P (snd (auto_stmt f s))"
proof -
  obtain r t where rt: "auto_stmt f s = (r, t)" by (cases "auto_stmt f s")
  from rt have "P t"
  proof (cases rule: auto_stmt_cases)
    case 1
    with assms show ?thesis by (metis env_freeD)
  next
    case (2 s1)
    with assms show ?thesis by (metis env_freeD snd_conv)
  next
    case (3 s1 r1)
    with assms show ?thesis by (metis env_freeD snd_conv)
  qed
  with rt show ?thesis by simp
qed


section \<open>Statements that must touch a row\<close>

text \<open>\<open>if tag.RowsAffected() == 0 { return ... }\<close>\<close>

definition require_affected :: "error \<Rightarrow> ('s, nat) db_op \<Rightarrow> ('s, unit) db_op" where
  "require_affected e m = bind_db m (\<lambda>n. if n = 0 then throw_db e else return_db ())"

lemma require_affected_keeps:
  assumes "P (snd (m s))"
  shows "P (snd (require_affected e m s))"
  using assms by (auto simp: require_affected_def db_simps split: prod.splits sum.splits)

lemma bind_keeps:
  assumes "P (snd (m s))" "\<And>x s. P s \<Longrightarrow> P (snd (f x s))"
  shows "P (snd (bind_db m f s))"
  using assms by (cases "m s"; cases "fst (m s)") (force simp: bind_db_def)+

section \<open>Sorting\<close>

lemma insort_key_map: "insort_key f (g x) (map g xs) = map g (insort_key (f \<circ> g) x xs)"
  by (induction xs) auto

lemma sort_key_map: "sort_key f (map g xs) = map g (sort_key (f \<circ> g) xs)"
  by (induction xs) (simp_all add: insort_key_map o_def)

section \<open>Repeated attempts\<close>

text \<open>A caller that issues the same operation \<open>n\<close> times, whatever the replies are.\<close>

fun attempts :: "nat \<Rightarrow> ('s, 'a) db_op \<Rightarrow> 's \<Rightarrow> (error + 'a) list \<times> 's" where
  "attempts 0 op s = ([], s)"
| "attempts (Suc n) op s =
     (case op s of (r, s1) \<Rightarrow> case attempts n op s1 of (rs, s2) \<Rightarrow> (r # rs, s2))"

lemma attempts_Suc:
  assumes "attempts (Suc n) op s = (rs, t)"
  obtains r s1 rs' where "op s = (r, s1)" "attempts n op s1 = (rs', t)" "rs = r # rs'"
  using assms by (auto split: prod.splits)

end
