(* ===== verification/Pagination.thy ===== *)
theory Pagination
  imports Prelude
begin

text \<open>
  Cursor pagination: \<^verbatim>\<open>models/base.go\<close> and \<^verbatim>\<open>repository/cursor/pagination.go\<close>. Every list
  method of the repositories fetches one row more than a page, uses the extra row to decide
  whether there is another page, and hands out the last row's id as the next cursor. A client
  that follows the cursors sees every row exactly once if the rows are ordered by the id the
  cursor compares, which is what the first part shows.
\<close>

section \<open>Parameters\<close>

definition DefaultPerPage :: int where "DefaultPerPage = 20"

definition MaxPerPage :: int where "MaxPerPage = 100"

text \<open>\<open>strconv.Atoi\<close> is the argument \<open>atoi\<close> (\<open>None\<close> for its error).\<close>

definition parsePositiveInt :: "(string \<Rightarrow> int option) \<Rightarrow> string \<Rightarrow> int \<times> bool" where
  "parsePositiveInt atoi s =
     (case atoi s of
        None \<Rightarrow> (0, False)
      | Some result \<Rightarrow> if result \<le> 0 \<or> result > 10000 then (0, False) else (result, True))"

definition ParsePagination :: "(string \<Rightarrow> int option) \<Rightarrow> string \<Rightarrow> int" where
  "ParsePagination atoi perPageStr =
     (if perPageStr \<noteq> '''' then
        (case parsePositiveInt atoi perPageStr of (pp, ok) \<Rightarrow>
           if ok \<and> pp > 0 then (if pp > MaxPerPage then MaxPerPage else pp)
           else DefaultPerPage)
      else DefaultPerPage)"

section \<open>Pages\<close>

definition TrimResults :: "('a \<Rightarrow> string) \<Rightarrow> nat \<Rightarrow> 'a list \<Rightarrow> 'a list \<times> bool \<times> string" where
  "TrimResults idFunc perPage items =
     (let hasMore = length items > perPage;
          items = (if hasMore then take perPage items else items);
          lastID = (if items \<noteq> [] then idFunc (last items) else '''')
      in (items, hasMore, lastID))"

text \<open>\<open>WHERE id < $lastID ORDER BY id DESC LIMIT perPage+1\<close>; an empty cursor is no condition.\<close>

definition id_desc :: "('a \<Rightarrow> string) \<Rightarrow> 'a list \<Rightarrow> 'a list" where
  "id_desc idFunc rows = rev (sort_key idFunc rows)"

definition keyset_page :: "('a \<Rightarrow> string) \<Rightarrow> 'a list \<Rightarrow> nat \<Rightarrow> string \<Rightarrow> 'a list \<times> bool \<times> string" where
  "keyset_page idFunc rows perPage lastID =
     TrimResults idFunc perPage
       (take (Suc perPage)
          (id_desc idFunc (filter (\<lambda>r. lastID \<noteq> '''' \<longrightarrow> idFunc r < lastID) rows)))"

text \<open>A client that follows the cursors, \<open>fuel\<close> pages at most: \<open>NextCursor\<close> is set only when
  there is more and the last id is not empty (\<open>NewCursorPaginationMeta\<close>).\<close>

fun follow_cursors ::
  "(string \<Rightarrow> 'a list \<times> bool \<times> string) \<Rightarrow> nat \<Rightarrow> string \<Rightarrow> 'a list option" where
  "follow_cursors page 0 cur = None"
| "follow_cursors page (Suc fuel) cur =
     (case page cur of (items, hasMore, lastID) \<Rightarrow>
        if hasMore \<and> lastID \<noteq> ''''
        then map_option ((@) items) (follow_cursors page fuel lastID)
        else Some items)"

section \<open>Bounds of the page size\<close>

lemma ParsePagination_range:
  "1 \<le> ParsePagination atoi str \<and> ParsePagination atoi str \<le> MaxPerPage"
  by (simp add: ParsePagination_def DefaultPerPage_def MaxPerPage_def split: prod.split)

section \<open>Following the cursors visits every row once\<close>

lemma set_id_desc [simp]: "set (id_desc f rows) = set rows"
  by (simp add: id_desc_def)

lemma length_id_desc [simp]: "length (id_desc f rows) = length rows"
  by (simp add: id_desc_def)

lemma id_desc_filter:
  "id_desc f (filter P rows) = filter P (id_desc f rows)"
  by (simp add: id_desc_def filter_sort rev_filter [symmetric])

lemma sorted_id_desc: "sorted_wrt (\<lambda>a b. f b \<le> f a) (id_desc f rows)"
proof -
  have "sorted_wrt (\<lambda>a b. f a \<le> f b) (sort_key f rows)"
    using sorted_sort_key [of f rows] by (simp add: sorted_map)
  then show ?thesis by (simp add: id_desc_def sorted_wrt_rev)
qed

text \<open>In a strictly descending list, the rows below the last one of a prefix are exactly the
  rest.\<close>

lemma filter_below_prefix:
  fixes f :: "'a \<Rightarrow> string"
  assumes "sorted_wrt (\<lambda>a b. f b < f a) (xs @ y # ys)"
  shows "filter (\<lambda>r. f r < f y) (xs @ y # ys) = ys"
proof -
  from assms have "\<forall>x\<in>set xs. f y < f x" "\<forall>z\<in>set ys. f z < f y"
    by (auto simp: sorted_wrt_append)
  then have "filter (\<lambda>r. f r < f y) xs = []" "filter (\<lambda>r. f r < f y) ys = ys"
    by (auto simp: filter_empty_conv filter_id_conv dest: order.asym)
  then show ?thesis by simp
qed

lemma sorted_strict_id_desc:
  assumes "distinct (map f rows)"
  shows "sorted_wrt (\<lambda>a b. (f b :: string) < f a) (id_desc f rows)"
proof -
  have "distinct (map f (id_desc f rows))"
    using assms by (simp add: id_desc_def rev_map [symmetric] distinct_map)
  then have "sorted_wrt (\<lambda>a b. f a \<noteq> f b) (id_desc f rows)"
    by (simp add: distinct_conv_nth sorted_wrt_iff_nth_less)
  then have "sorted_wrt (\<lambda>a b. f a \<noteq> f b \<and> f b \<le> f a) (id_desc f rows)"
    using sorted_id_desc [of f rows] by (simp add: sorted_wrt_iff_nth_less)
  then show ?thesis
    by (rule sorted_wrt_mono_rel [rotated]) auto
qed


lemma keyset_page_small:
  assumes "filter (\<lambda>r. cur \<noteq> '''' \<longrightarrow> f r < cur) (id_desc f rows) = R" and "length R \<le> n"
  shows "\<exists>l. keyset_page f rows n cur = (R, False, l)"
  using assms by (simp add: keyset_page_def id_desc_filter TrimResults_def Let_def)

lemma keyset_page_full:
  assumes "filter (\<lambda>r. cur \<noteq> '''' \<longrightarrow> f r < cur) (id_desc f rows) = R" and "n < length R" "0 < n"
  shows "keyset_page f rows n cur = (take n R, True, f (R ! (n - 1)))"
proof -
  have "take n (take (Suc n) R) = take n R" by simp
  moreover have "last (take n R) = R ! (n - 1)" using assms(2,3)
    by (subst last_conv_nth) auto
  ultimately show ?thesis using assms
    by (auto simp: keyset_page_def id_desc_filter TrimResults_def Let_def)
qed

lemma follow_cursors_suffix:
  assumes dist: "distinct (map f rows)" and ne: "\<forall>r\<in>set rows. f r \<noteq> ''''" and n: "0 < n"
  shows "id_desc f rows = pre @ R \<Longrightarrow>
    filter (\<lambda>r. cur \<noteq> '''' \<longrightarrow> f r < cur) (id_desc f rows) = R \<Longrightarrow>
    length R \<le> n * fuel \<Longrightarrow> 0 < fuel \<Longrightarrow>
    follow_cursors (keyset_page f rows n) fuel cur = Some R"
proof (induction fuel arbitrary: pre R cur)
  case 0
  then show ?case by simp
next
  case (Suc fuel)
  show ?case
  proof (cases "length R \<le> n")
    case True
    then show ?thesis using keyset_page_small [OF Suc.prems(2) True] by auto
  next
    case False
    define y where "y = R ! (n - 1)"
    have R: "R = take (n - 1) R @ y # drop n R"
      using False n id_take_nth_drop [of "n - 1" R] by (simp add: y_def)
    then have split: "id_desc f rows = (pre @ take (n - 1) R) @ y # drop n R"
      using Suc.prems(1) by simp
    have "filter (\<lambda>r. f r < f y) (id_desc f rows) = drop n R"
      using sorted_strict_id_desc [OF dist] filter_below_prefix [of f "pre @ take (n - 1) R" y "drop n R"]
      unfolding split by blast
    moreover have yne: "f y \<noteq> ''''"
      using ne split set_id_desc [of f rows] by (metis in_set_conv_decomp)
    ultimately have below: "filter (\<lambda>r. f y \<noteq> '''' \<longrightarrow> f r < f y) (id_desc f rows) = drop n R"
      by simp
    have pre': "id_desc f rows = (pre @ take n R) @ drop n R"
      using Suc.prems(1) by simp
    have fuel: "0 < fuel" "length (drop n R) \<le> n * fuel"
      using Suc.prems(3) False by (cases fuel; simp)+
    then have "follow_cursors (keyset_page f rows n) fuel (f y) = Some (drop n R)"
      using Suc.IH [OF pre' below] by simp
    then show ?thesis
      using keyset_page_full [OF Suc.prems(2) _ n] False yne by (simp add: y_def)
  qed
qed

lemma follow_cursors_all:
  assumes "distinct (map f rows)" "\<forall>r\<in>set rows. f r \<noteq> ''''" "0 < n" "length rows < fuel"
  shows "follow_cursors (keyset_page f rows n) fuel '''' = Some (id_desc f rows)"
proof -
  have "length rows \<le> n * fuel" using assms(3,4) by (cases n) auto
  then show ?thesis
    using follow_cursors_suffix [OF assms(1,2,3), of "[]" "id_desc f rows" "''''" fuel] assms(4)
    by simp
qed

end
