(* ===== verification/Ledger.thy ===== *)
theory Ledger
  imports Pagination
begin

text \<open>
  The credit ledger: \<^verbatim>\<open>repository/billing_transaction_repo.go\<close>,
  \<^verbatim>\<open>services/billing_ledger_service.go\<close>, \<^verbatim>\<open>models/billing_transaction.go\<close> and the
  prepaid adapter \<^verbatim>\<open>billing/native/adapter.go\<close>. The state is the column
  \<^verbatim>\<open>customers.balance\<close> and the table \<^verbatim>\<open>billing_transactions\<close> in insertion order; money is
  an \<open>int64\<close> number of cents whose additions wrap as Go's do. The unique index
  \<^verbatim>\<open>idx_billing_tx_idempotency\<close> and the primary key of the table are part of the insert.
\<close>

section \<open>Data\<close>

definition BillingTxTypeCredit :: string where
  "BillingTxTypeCredit = ''credit''"

definition BillingTxTypeDebit :: string where
  "BillingTxTypeDebit = ''debit''"

definition BillingRefTypeVMUsage :: string where
  "BillingRefTypeVMUsage = ''vm_usage''"

definition BillingRefTypeRefund :: string where
  "BillingRefTypeRefund = ''refund''"

record BillingTransaction =
  bt_ID :: string
  bt_CustomerID :: string
  bt_Type :: string
  bt_Amount :: int64
  bt_BalanceAfter :: int64
  bt_Description :: string
  bt_ReferenceType :: "string option"
  bt_ReferenceID :: "string option"
  bt_IdempotencyKey :: "string option"
  bt_CreatedAt :: int

record ledger_db = db_env +
  balances :: "string \<rightharpoonup> int64"
  ledger :: "BillingTransaction list"

section \<open>Statements of the repository\<close>

definition lockAndUpdateBalance ::
  "string \<Rightarrow> int64 \<Rightarrow> ('r ledger_db_scheme, int64) db_op" where
  "lockAndUpdateBalance customerID delta =
     bind_db
       (tx_stmt (\<lambda>s. case balances s customerID of
            None \<Rightarrow> (Inl ErrNoRows, s)
          | Some b \<Rightarrow> (Inr b, s)))
       (\<lambda>currentBalance.
          let newBalance = currentBalance + delta in
          bind_db
            (tx_stmt (\<lambda>s. (Inr (), s\<lparr>balances := (balances s)(customerID \<mapsto> newBalance)\<rparr>)))
            (\<lambda>_. return_db newBalance))"

definition has_key :: "string \<Rightarrow> string \<Rightarrow> BillingTransaction \<Rightarrow> bool" where
  "has_key customerID key t \<longleftrightarrow> bt_CustomerID t = customerID \<and> bt_IdempotencyKey t = Some key"

definition insertTransaction ::
  "string \<Rightarrow> string \<Rightarrow> int64 \<Rightarrow> int64 \<Rightarrow> string \<Rightarrow> string option \<Rightarrow> string option \<Rightarrow> string option
   \<Rightarrow> ('r ledger_db_scheme, BillingTransaction) db_op" where
  "insertTransaction customerID txType amount balanceAfter description referenceType referenceID
      idempotencyKey =
     tx_stmt (\<lambda>s.
       let bt = \<lparr>bt_ID = gen_uuid s (next_id s), bt_CustomerID = customerID, bt_Type = txType,
                 bt_Amount = amount, bt_BalanceAfter = balanceAfter, bt_Description = description,
                 bt_ReferenceType = referenceType, bt_ReferenceID = referenceID,
                 bt_IdempotencyKey = idempotencyKey, bt_CreatedAt = clock s\<rparr>;
           s1 = s\<lparr>next_id := Suc (next_id s)\<rparr>
       in if bt_ID bt \<in> bt_ID ` set (ledger s) then (Inl (ErrUniqueViolation ''billing_transactions_pkey''), s1)
          else if (case idempotencyKey of None \<Rightarrow> False
                   | Some k \<Rightarrow> list_ex (has_key customerID k) (ledger s))
          then (Inl (ErrUniqueViolation ''idx_billing_tx_idempotency''), s1)
          else (Inr bt, s1\<lparr>ledger := ledger s1 @ [bt]\<rparr>))"

definition findByIdempotencyKey ::
  "string \<Rightarrow> string \<Rightarrow> ('r ledger_db_scheme, BillingTransaction) db_op" where
  "findByIdempotencyKey customerID key =
     tx_stmt (\<lambda>s. case find (has_key customerID key) (ledger s) of
         None \<Rightarrow> (Inl ErrNoRows, s)
       | Some bt \<Rightarrow> (Inr bt, s))"

fun stringPtrEqual :: "string option \<Rightarrow> string option \<Rightarrow> bool" where
  "stringPtrEqual None None = True"
| "stringPtrEqual (Some a) (Some b) = (a = b)"
| "stringPtrEqual _ _ = False"

definition billingTxMatches ::
  "BillingTransaction \<Rightarrow> string \<Rightarrow> int64 \<Rightarrow> string option \<Rightarrow> string option \<Rightarrow> bool" where
  "billingTxMatches tx txType amount referenceType referenceID \<longleftrightarrow>
     bt_Type tx = txType \<and> bt_Amount tx = amount \<and>
     stringPtrEqual (bt_ReferenceType tx) referenceType \<and>
     stringPtrEqual (bt_ReferenceID tx) referenceID"

definition findMatchingIdempotencyKey ::
  "string \<Rightarrow> string \<Rightarrow> string \<Rightarrow> int64 \<Rightarrow> string option \<Rightarrow> string option
   \<Rightarrow> ('r ledger_db_scheme, BillingTransaction option) db_op" where
  "findMatchingIdempotencyKey customerID key txType amount referenceType referenceID s =
     (case findByIdempotencyKey customerID key s of
        (Inl e, s1) \<Rightarrow> if e = ErrNoRows then (Inr None, s1) else (Inl e, s1)
      | (Inr existing, s1) \<Rightarrow>
          if \<not> billingTxMatches existing txType amount referenceType referenceID
          then (Inl ErrConflict, s1)
          else (Inr (Some existing), s1))"

section \<open>The repository's operations\<close>

definition CreditAccount ::
  "string \<Rightarrow> int64 \<Rightarrow> string \<Rightarrow> string option \<Rightarrow> ('r ledger_db_scheme, BillingTransaction) db_op" where
  "CreditAccount customerID amount description idempotencyKey =
     transaction
       (bind_db
          (case idempotencyKey of
             None \<Rightarrow> return_db None
           | Some key \<Rightarrow>
               findMatchingIdempotencyKey customerID key BillingTxTypeCredit amount None None)
          (\<lambda>existing. case existing of
             Some bt \<Rightarrow> return_db (Abandon bt)
           | None \<Rightarrow>
               bind_db (lockAndUpdateBalance customerID amount) (\<lambda>newBalance.
               bind_db (insertTransaction customerID BillingTxTypeCredit amount newBalance
                          description None None idempotencyKey) (\<lambda>bt.
               return_db (Commit bt)))))"

definition DebitAccount ::
  "string \<Rightarrow> int64 \<Rightarrow> string \<Rightarrow> string option \<Rightarrow> string option \<Rightarrow> string option
   \<Rightarrow> ('r ledger_db_scheme, BillingTransaction) db_op" where
  "DebitAccount customerID amount description referenceType referenceID idempotencyKey =
     transaction
       (bind_db
          (case idempotencyKey of
             None \<Rightarrow> return_db None
           | Some key \<Rightarrow>
               findMatchingIdempotencyKey customerID key BillingTxTypeDebit amount
                 referenceType referenceID)
          (\<lambda>existing. case existing of
             Some bt \<Rightarrow> return_db (Abandon bt)
           | None \<Rightarrow>
               bind_db (lockAndUpdateBalance customerID (- amount)) (\<lambda>newBalance.
               bind_db (insertTransaction customerID BillingTxTypeDebit amount newBalance
                          description referenceType referenceID idempotencyKey) (\<lambda>bt.
               return_db (Commit bt)))))"

definition repo_GetBalance :: "string \<Rightarrow> ('r ledger_db_scheme, int64) db_op" where
  "repo_GetBalance customerID =
     auto_stmt (\<lambda>s. case balances s customerID of
         None \<Rightarrow> (Inl ErrNoRows, s)
       | Some b \<Rightarrow> (Inr b, s))"

text \<open>\<open>ORDER BY created_at DESC, id DESC\<close>; a UUID compares as its text does.\<close>

definition newest_first :: "BillingTransaction list \<Rightarrow> BillingTransaction list" where
  "newest_first ts = rev (sort_key (\<lambda>t. (bt_CreatedAt t, bt_ID t)) ts)"



definition repo_ListByCustomer ::
  "string \<Rightarrow> nat \<Rightarrow> string \<Rightarrow> ('r ledger_db_scheme, BillingTransaction list \<times> bool \<times> string) db_op" where
  "repo_ListByCustomer customerID perPage lastID =
     auto_stmt (\<lambda>s.
       let rows = filter (\<lambda>t. bt_CustomerID t = customerID \<and> (lastID \<noteq> '''' \<longrightarrow> bt_ID t < lastID)) (ledger s)
       in (Inr (TrimResults bt_ID perPage (take (Suc perPage) (newest_first rows))), s))"

definition ListByCustomerForPeriod ::
  "string \<Rightarrow> int \<Rightarrow> int \<Rightarrow> string \<Rightarrow> ('r ledger_db_scheme, BillingTransaction list) db_op" where
  "ListByCustomerForPeriod customerID periodStart periodEnd txType =
     auto_stmt (\<lambda>s.
       (Inr (sort_key bt_CreatedAt
          (filter (\<lambda>t. bt_CustomerID t = customerID \<and> periodStart \<le> bt_CreatedAt t \<and>
                       bt_CreatedAt t < periodEnd \<and> (txType \<noteq> '''' \<longrightarrow> bt_Type t = txType))
             (ledger s))), s))"


section \<open>Reading a state through its tables\<close>

lemma balances_tables [simp]: "balances (tables s) = balances s"
  by (simp add: tables_def)

lemma ledger_tables [simp]: "ledger (tables s) = ledger s"
  by (simp add: tables_def)

lemma tables_balances_update [simp]:
  "tables (s\<lparr>balances := b\<rparr>) = (tables s)\<lparr>balances := b\<rparr>"
  by (simp add: tables_def)

lemma tables_ledger_update [simp]:
  "tables (s\<lparr>ledger := l\<rparr>) = (tables s)\<lparr>ledger := l\<rparr>"
  by (simp add: tables_def)

lemma tables_eqD:
  fixes s t :: "'r ledger_db_scheme"
  assumes "tables s = tables t"
  shows "balances s = balances t" "ledger s = ledger t"
  using arg_cong [OF assms, of balances] arg_cong [OF assms, of ledger] by simp_all

lemma stringPtrEqual_eq [simp]: "stringPtrEqual a b \<longleftrightarrow> a = b"
  by (cases a; cases b) auto

lemma billing_type_distinct [simp]:
  "BillingTxTypeCredit \<noteq> BillingTxTypeDebit" "BillingTxTypeDebit \<noteq> BillingTxTypeCredit"
  by (simp_all add: BillingTxTypeCredit_def BillingTxTypeDebit_def)

section \<open>What one posting does\<close>

text \<open>The effect of a committed posting: the balance moves by \<open>delta\<close> and one entry, carrying the
  new balance and an unused key, is appended; no other table changes.\<close>

definition posted ::
  "string \<Rightarrow> string \<Rightarrow> int64 \<Rightarrow> int64 \<Rightarrow> string option \<Rightarrow> string option \<Rightarrow> string option
   \<Rightarrow> 'r ledger_db_scheme \<Rightarrow> BillingTransaction \<Rightarrow> 'r ledger_db_scheme \<Rightarrow> bool" where
  "posted customerID txType amount delta referenceType referenceID key s bt t \<longleftrightarrow>
     (\<exists>b. balances s customerID = Some b \<and>
          bt_CustomerID bt = customerID \<and> bt_Type bt = txType \<and> bt_Amount bt = amount \<and>
          bt_BalanceAfter bt = b + delta \<and> bt_ReferenceType bt = referenceType \<and>
          bt_ReferenceID bt = referenceID \<and> bt_IdempotencyKey bt = key \<and>
          bt_ID bt \<notin> bt_ID ` set (ledger s) \<and>
          (\<forall>k. key = Some k \<longrightarrow> (\<forall>e\<in>set (ledger s). \<not> has_key customerID k e)) \<and>
          tables t = tables (s\<lparr>balances := (balances s)(customerID \<mapsto> b + delta),
                               ledger := ledger s @ [bt]\<rparr>))"

lemma posted_cong:
  assumes "tables s = tables s'" "tables t = tables t'"
  shows "posted c ty a d rt ri k s bt t = posted c ty a d rt ri k s' bt t'"
  using assms tables_eqD [OF assms(1)] by (simp add: posted_def)

lemma lockAndUpdateBalance_Inr:
  assumes "lockAndUpdateBalance c d s = (Inr nb, t)"
  obtains b where "balances s c = Some b" "nb = b + d"
    "tables t = tables (s\<lparr>balances := (balances s)(c \<mapsto> b + d)\<rparr>)"
proof -
  from assms obtain b s1 where
    1: "tx_stmt (\<lambda>s. case balances s c of None \<Rightarrow> (Inl ErrNoRows, s) | Some b \<Rightarrow> (Inr b, s)) s = (Inr b, s1)"
    and 2: "tx_stmt (\<lambda>s. (Inr (), s\<lparr>balances := (balances s)(c \<mapsto> b + d)\<rparr>)) s1 = (Inr (), t)"
    and nb: "nb = b + d"
    unfolding lockAndUpdateBalance_def by (auto simp: return_db_def Let_def)
  from 1 have b: "balances s c = Some b" and s1: "tables s1 = tables s"
    by (cases rule: tx_stmt_cases; auto dest: tables_eqD split: option.splits)+
  from 2 obtain s2 where "tables s2 = tables s1" "t = s2\<lparr>balances := (balances s2)(c \<mapsto> b + d)\<rparr>"
    by (cases rule: tx_stmt_cases) auto
  then have "tables t = (tables s)\<lparr>balances := (balances s)(c \<mapsto> b + d)\<rparr>"
    using s1 tables_eqD(1) [of s2 s] by simp
  then show thesis using that b nb by simp
qed

lemma insertTransaction_Inr:
  assumes "insertTransaction c ty a nb ds rt ri k s = (Inr bt, t)"
  shows "bt_CustomerID bt = c \<and> bt_Type bt = ty \<and> bt_Amount bt = a \<and> bt_BalanceAfter bt = nb \<and>
    bt_ReferenceType bt = rt \<and> bt_ReferenceID bt = ri \<and> bt_IdempotencyKey bt = k \<and>
    bt_ID bt \<notin> bt_ID ` set (ledger s) \<and>
    (\<forall>key. k = Some key \<longrightarrow> (\<forall>e\<in>set (ledger s). \<not> has_key c key e)) \<and>
    tables t = tables (s\<lparr>ledger := ledger s @ [bt]\<rparr>)"
  using assms unfolding insertTransaction_def
proof (cases rule: tx_stmt_cases)
  case (2 s1)
  have l: "ledger s1 = ledger s" using 2(1) tables_eqD(2) by blast
  from 2 l show ?thesis
    by (auto simp: Let_def list_ex_iff split: if_splits option.splits)
qed auto


lemma post_Inr:
  assumes "bind_db (lockAndUpdateBalance c d)
             (\<lambda>nb. insertTransaction c ty a nb ds rt ri k) s = (Inr bt, t)"
  shows "posted c ty a d rt ri k s bt t"
proof -
  from assms obtain nb s1 where 1: "lockAndUpdateBalance c d s = (Inr nb, s1)"
    and 2: "insertTransaction c ty a nb ds rt ri k s1 = (Inr bt, t)" by auto
  from 1 obtain b where b: "balances s c = Some b" "nb = b + d"
    and s1: "tables s1 = tables (s\<lparr>balances := (balances s)(c \<mapsto> b + d)\<rparr>)"
    by (rule lockAndUpdateBalance_Inr)
  have "ledger s1 = ledger s" using tables_eqD(2) [OF s1] by simp
  with b s1 insertTransaction_Inr [OF 2] show ?thesis by (simp add: posted_def)
qed

lemma findByIdempotencyKey_Inr:
  assumes "findByIdempotencyKey c k s = (Inr bt, t)"
  shows "bt \<in> set (ledger s) \<and> has_key c k bt \<and> tables t = tables s"
  using assms unfolding findByIdempotencyKey_def
proof (cases rule: tx_stmt_cases)
  case (2 s1)
  have "ledger s1 = ledger s" using 2(1) tables_eqD(2) by blast
  with 2 show ?thesis by (auto split: option.splits simp: find_Some_iff)
qed auto

lemma findByIdempotencyKey_NoRows:
  assumes "findByIdempotencyKey c k s = (Inl ErrNoRows, t)"
  shows "(\<forall>e\<in>set (ledger s). \<not> has_key c k e) \<and> tables t = tables s"
  using assms unfolding findByIdempotencyKey_def
proof (cases rule: tx_stmt_cases)
  case (2 s1)
  have "ledger s1 = ledger s" using 2(1) tables_eqD(2) by blast
  with 2 show ?thesis by (auto split: option.splits simp: find_None_iff)
qed auto

lemma findMatching_None:
  assumes "findMatchingIdempotencyKey c k ty a rt ri s = (Inr None, t)"
  shows "(\<forall>e\<in>set (ledger s). \<not> has_key c k e) \<and> tables t = tables s"
  using assms findByIdempotencyKey_NoRows [of c k s]
  by (auto simp: findMatchingIdempotencyKey_def split: prod.splits sum.splits if_splits)

lemma findMatching_Some:
  assumes "findMatchingIdempotencyKey c k ty a rt ri s = (Inr (Some bt), t)"
  shows "bt \<in> set (ledger s) \<and> has_key c k bt \<and> billingTxMatches bt ty a rt ri \<and> tables t = tables s"
  using assms findByIdempotencyKey_Inr [of c k s]
  by (auto simp: findMatchingIdempotencyKey_def split: prod.splits sum.splits if_splits)

text \<open>Credit and debit are the same posting transaction up to type and sign.\<close>

definition post_body ::
  "string \<Rightarrow> string \<Rightarrow> int64 \<Rightarrow> int64 \<Rightarrow> string \<Rightarrow> string option \<Rightarrow> string option \<Rightarrow> string option
   \<Rightarrow> ('r ledger_db_scheme, BillingTransaction tx_end) db_op" where
  "post_body c ty a d ds rt ri key =
     bind_db
       (case key of None \<Rightarrow> return_db None
        | Some k \<Rightarrow> findMatchingIdempotencyKey c k ty a rt ri)
       (\<lambda>existing. case existing of
          Some bt \<Rightarrow> return_db (Abandon bt)
        | None \<Rightarrow>
            bind_db (lockAndUpdateBalance c d) (\<lambda>nb.
            bind_db (insertTransaction c ty a nb ds rt ri key) (\<lambda>bt. return_db (Commit bt))))"

lemma CreditAccount_post:
  "CreditAccount c a ds key = transaction (post_body c BillingTxTypeCredit a a ds None None key)"
  by (simp add: CreditAccount_def post_body_def)

lemma DebitAccount_post:
  "DebitAccount c a ds rt ri key = transaction (post_body c BillingTxTypeDebit a (- a) ds rt ri key)"
  by (simp add: DebitAccount_def post_body_def)

lemma post_body_Commit:
  assumes "post_body c ty a d ds rt ri key s = (Inr (Commit bt), t)"
  shows "posted c ty a d rt ri key s bt t"
proof -
  from assms obtain s1 where s1: "tables s1 = tables s"
    and p: "bind_db (lockAndUpdateBalance c d) (\<lambda>nb. insertTransaction c ty a nb ds rt ri key) s1
            = (Inr bt, t)"
    unfolding post_body_def
    by (auto simp: return_db_def bind_db_def split: option.splits prod.splits sum.splits
             dest!: findMatching_None)
  show ?thesis using post_Inr [OF p] s1 posted_cong [OF s1 refl] by blast
qed

lemma post_body_Abandon:
  assumes "post_body c ty a d ds rt ri key s = (Inr (Abandon bt), t)"
  shows "\<exists>k. key = Some k \<and> bt \<in> set (ledger s) \<and> has_key c k bt \<and> billingTxMatches bt ty a rt ri"
  using assms unfolding post_body_def
  by (auto simp: return_db_def bind_db_def split: option.splits prod.splits sum.splits
           dest!: findMatching_Some)


lemma post_outcome:
  assumes "transaction (post_body c ty a d ds rt ri key) s = (r, t)"
  obtains (failed) e where "r = Inl e" "tables t = tables s"
  | (replayed) k bt where "key = Some k" "r = Inr bt" "tables t = tables s" "bt \<in> set (ledger s)"
      "has_key c k bt" "billingTxMatches bt ty a rt ri"
  | (booked) bt where "posted c ty a d rt ri key s bt t" "r = Inr bt \<or> r = Inl ErrDB"
  using assms
proof (cases rule: transaction_cases)
  case (failed e)
  then show ?thesis using that(1) by blast
next
  case (abandoned bt s0 s1)
  then show ?thesis using that(2) post_body_Abandon [OF abandoned(2)] tables_eqD(2) by metis
next
  case (committed bt s0 s1)
  have "posted c ty a d rt ri key s bt t"
    using post_body_Commit [OF committed(2)] 
      posted_cong [OF committed(1) committed(3) [symmetric]] by simp
  then show ?thesis using that(3) committed(4) by blast
qed

lemma post_frame:
  assumes "transaction (post_body c ty a d ds rt ri key) s = (r, t)"
  shows "\<exists>b l. tables t = tables (s\<lparr>balances := b, ledger := l\<rparr>)"
  using assms
proof (cases rule: post_outcome)
  case (failed e)
  then have "tables t = tables (s\<lparr>balances := balances s, ledger := ledger s\<rparr>)" by simp
  then show ?thesis by blast
next
  case (replayed k bt)
  then have "tables t = tables (s\<lparr>balances := balances s, ledger := ledger s\<rparr>)" by simp
  then show ?thesis by blast
next
  case (booked bt)
  then show ?thesis by (auto simp: posted_def simp del: tables_balances_update tables_ledger_update)
qed

section \<open>The ledger invariant\<close>

definition signed_amount :: "BillingTransaction \<Rightarrow> int64" where
  "signed_amount t = (if bt_Type t = BillingTxTypeCredit then bt_Amount t else - bt_Amount t)"

definition account_total :: "BillingTransaction list \<Rightarrow> string \<Rightarrow> int64" where
  "account_total l c = sum_list (map signed_amount (filter (\<lambda>t. bt_CustomerID t = c) l))"

text \<open>Replaying the entries from empty accounts reproduces every recorded balance.\<close>

fun snapshots_ok :: "(string \<Rightarrow> int64) \<Rightarrow> BillingTransaction list \<Rightarrow> bool" where
  "snapshots_ok acc [] = True"
| "snapshots_ok acc (t # ts) =
     (let b = acc (bt_CustomerID t) + signed_amount t in
      bt_BalanceAfter t = b \<and> snapshots_ok (acc(bt_CustomerID t := b)) ts)"

definition ledger_keys :: "BillingTransaction list \<Rightarrow> (string \<times> string) list" where
  "ledger_keys l = List.map_filter (\<lambda>t. map_option (Pair (bt_CustomerID t)) (bt_IdempotencyKey t)) l"

definition balances_ok :: "(string \<rightharpoonup> int64) \<Rightarrow> BillingTransaction list \<Rightarrow> bool" where
  "balances_ok m l \<longleftrightarrow> (\<forall>c b. m c = Some b \<longrightarrow> account_total l c = b)"

definition entries_ok :: "(string \<rightharpoonup> int64) \<Rightarrow> BillingTransaction list \<Rightarrow> bool" where
  "entries_ok m l \<longleftrightarrow> (\<forall>t\<in>set l. bt_CustomerID t \<in> dom m \<and>
     (bt_Type t = BillingTxTypeCredit \<or> bt_Type t = BillingTxTypeDebit))"

definition ledger_inv :: "'r ledger_db_scheme \<Rightarrow> bool" where
  "ledger_inv s \<longleftrightarrow>
     balances_ok (balances s) (ledger s) \<and>
     entries_ok (balances s) (ledger s) \<and>
     snapshots_ok (\<lambda>_. 0) (ledger s) \<and>
     distinct (ledger_keys (ledger s)) \<and>
     distinct (map bt_ID (ledger s))"

lemma env_free_ledger_inv: "env_free ledger_inv"
  by (simp add: env_free_def ledger_inv_def)

lemma account_total_Nil [simp]: "account_total [] c = 0"
  by (simp add: account_total_def)

lemma account_total_Cons [simp]:
  "account_total (t # l) c = (if bt_CustomerID t = c then signed_amount t else 0) + account_total l c"
  by (simp add: account_total_def)

lemma account_total_append [simp]:
  "account_total (l @ [t]) c = account_total l c + (if bt_CustomerID t = c then signed_amount t else 0)"
  by (simp add: account_total_def)

lemma ledger_keys_append [simp]:
  "ledger_keys (l @ [t]) =
     ledger_keys l @ (case bt_IdempotencyKey t of None \<Rightarrow> [] | Some k \<Rightarrow> [(bt_CustomerID t, k)])"
  by (simp add: ledger_keys_def List.map_filter_def split: option.split)

lemma set_ledger_keys: "(c, k) \<in> set (ledger_keys l) \<longleftrightarrow> (\<exists>t\<in>set l. has_key c k t)"
  by (force simp: ledger_keys_def List.map_filter_def has_key_def)

lemma ledger_keys_inj:
  assumes "distinct (ledger_keys l)" "x \<in> set l" "has_key c k x" "y \<in> set l" "has_key c k y"
  shows "x = y"
  using assms
proof (induction l rule: rev_induct)
  case (snoc t l)
  then show ?case
    using set_ledger_keys [of c k l] by (auto simp: has_key_def split: option.splits)
qed simp

lemma snapshots_ok_append:
  "snapshots_ok acc (l @ [t]) \<longleftrightarrow>
     snapshots_ok acc l \<and> bt_BalanceAfter t = acc (bt_CustomerID t) + account_total l (bt_CustomerID t) + signed_amount t"
proof (induction l arbitrary: acc)
  case (Cons u l)
  then show ?case
    by (cases "bt_CustomerID u = bt_CustomerID t") (simp_all add: Let_def add.assoc fun_upd_def)
qed simp

lemma posted_ledger:
  assumes "posted c ty a d rt ri key s bt t"
  shows "ledger t = ledger s @ [bt]" "bt_CustomerID bt = c"
    "\<exists>b. balances s c = Some b \<and> balances t = (balances s)(c \<mapsto> b + d)"
proof -
  from assms obtain b where b: "balances s c = Some b" and c: "bt_CustomerID bt = c" and
    t: "tables t = tables (s\<lparr>balances := (balances s)(c \<mapsto> b + d), ledger := ledger s @ [bt]\<rparr>)"
    by (auto simp: posted_def)
  show "ledger t = ledger s @ [bt]" "bt_CustomerID bt = c" using tables_eqD(2) [OF t] c by simp_all
  show "\<exists>b. balances s c = Some b \<and> balances t = (balances s)(c \<mapsto> b + d)"
    using tables_eqD(1) [OF t] b by auto
qed

lemma posted_entry:
  assumes "posted c ty a d rt ri key s bt t"
  shows "bt_Type bt = ty \<and> bt_Amount bt = a \<and> bt_ReferenceType bt = rt \<and> bt_ReferenceID bt = ri \<and>
    bt_IdempotencyKey bt = key \<and> bt_ID bt \<notin> bt_ID ` set (ledger s) \<and>
    (\<forall>k. key = Some k \<longrightarrow> (\<forall>e\<in>set (ledger s). \<not> has_key c k e))"
  using assms by (auto simp: posted_def)

text \<open>The sign a posting moves the balance with agrees with its type.\<close>

definition sign_ok :: "string \<Rightarrow> int64 \<Rightarrow> int64 \<Rightarrow> bool" where
  "sign_ok ty a d \<longleftrightarrow>
     ty = BillingTxTypeCredit \<and> d = a \<or> ty = BillingTxTypeDebit \<and> d = - a"

lemma sign_ok_simps [simp]: "sign_ok BillingTxTypeCredit a a" "sign_ok BillingTxTypeDebit a (- a)"
  by (simp_all add: sign_ok_def)

lemma posted_inv:
  assumes inv: "ledger_inv s" and p: "posted c ty a d rt ri key s bt t" and sign: "sign_ok ty a d"
  shows "ledger_inv t"
proof -
  obtain b where b: "balances s c = Some b" "balances t = (balances s)(c \<mapsto> b + d)"
    using posted_ledger(3) [OF p] by blast
  have l: "ledger t = ledger s @ [bt]" and c: "bt_CustomerID bt = c" using posted_ledger [OF p] by blast+
  have ty: "bt_Type bt = BillingTxTypeCredit \<or> bt_Type bt = BillingTxTypeDebit"
    and d: "signed_amount bt = d" and ba: "bt_BalanceAfter bt = b + d"
    using p sign b by (auto simp: posted_def sign_ok_def signed_amount_def)
  have tot: "account_total (ledger s) c = b" using inv b by (auto simp: ledger_inv_def balances_ok_def)
  have "snapshots_ok (\<lambda>_. 0) (ledger t)"
    using inv l c d ba tot by (simp add: ledger_inv_def snapshots_ok_append)
  moreover have "distinct (ledger_keys (ledger t))"
  proof (cases key)
    case None
    then have "bt_IdempotencyKey bt = None" using posted_entry [OF p] by simp
    then show ?thesis using inv l by (simp add: ledger_inv_def)
  next
    case (Some k)
    then have "bt_IdempotencyKey bt = Some k" and "\<forall>e\<in>set (ledger s). \<not> has_key c k e"
      using posted_entry [OF p] by simp_all
    then show ?thesis using inv l c by (simp add: ledger_inv_def set_ledger_keys)
  qed
  moreover have "distinct (map bt_ID (ledger t))"
    using inv l posted_entry [OF p] by (simp add: ledger_inv_def)
  moreover have "balances_ok (balances t) (ledger t)"
    using inv b l c d tot by (auto simp: ledger_inv_def balances_ok_def)
  moreover have "entries_ok (balances t) (ledger t)"
    using inv b l c ty by (auto simp: ledger_inv_def entries_ok_def)
  ultimately show ?thesis by (simp add: ledger_inv_def)
qed

lemma post_inv:
  assumes "ledger_inv s" "sign_ok ty a d"
  shows "ledger_inv (snd (transaction (post_body c ty a d ds rt ri key) s))"
  by (rule transaction_keeps [OF env_free_ledger_inv _ assms(1)])
     (use assms(2) in \<open>blast dest: post_body_Commit intro: posted_inv\<close>)


section \<open>The ledger service\<close>

text \<open>
  \<open>BillingLedgerService\<close> sees the repository through the interface \<open>BillingTransactionRepo\<close>; the
  operations of the interface are arguments of its methods.
\<close>

definition ledger_CreditAccount ::
  "(string \<Rightarrow> int64 \<Rightarrow> string \<Rightarrow> string option \<Rightarrow> ('s, BillingTransaction) db_op)
   \<Rightarrow> string \<Rightarrow> int64 \<Rightarrow> string \<Rightarrow> string option \<Rightarrow> ('s, BillingTransaction) db_op" where
  "ledger_CreditAccount credit customerID amount description idempotencyKey =
     (if sint amount \<le> 0 then throw_db (ErrValidation ''amount'' ''must be positive'')
      else credit customerID amount description idempotencyKey)"

definition ledger_DebitAccount ::
  "(string \<Rightarrow> int64 \<Rightarrow> string \<Rightarrow> string option \<Rightarrow> string option \<Rightarrow> string option
      \<Rightarrow> ('s, BillingTransaction) db_op)
   \<Rightarrow> string \<Rightarrow> int64 \<Rightarrow> string \<Rightarrow> string option \<Rightarrow> string option \<Rightarrow> string option
   \<Rightarrow> ('s, BillingTransaction) db_op" where
  "ledger_DebitAccount debit customerID amount description referenceType referenceID idempotencyKey =
     (if sint amount \<le> 0 then throw_db (ErrValidation ''amount'' ''must be positive'')
      else debit customerID amount description referenceType referenceID idempotencyKey)"

definition ledger_GetBalance ::
  "(string \<Rightarrow> ('s, int64) db_op) \<Rightarrow> string \<Rightarrow> ('s, int64) db_op" where
  "ledger_GetBalance get_balance customerID = get_balance customerID"

definition GetTransactionHistory ::
  "(string \<Rightarrow> nat \<Rightarrow> string \<Rightarrow> ('s, BillingTransaction list \<times> bool \<times> string) db_op)
   \<Rightarrow> string \<Rightarrow> nat \<Rightarrow> string \<Rightarrow> ('s, BillingTransaction list \<times> bool \<times> string) db_op" where
  "GetTransactionHistory list_by_customer customerID perPage lastID =
     list_by_customer customerID perPage lastID"

text \<open>The prepaid adapter on top of the service.\<close>

record BillingStatus =
  bs_CustomerID :: string
  bs_Provider :: string
  bs_IsActive :: bool
  bs_IsSuspended :: bool
  bs_Status :: string

definition native_GetUserBillingStatus ::
  "(string \<Rightarrow> ('s, int64) db_op) \<Rightarrow> string \<Rightarrow> ('s, BillingStatus) db_op" where
  "native_GetUserBillingStatus get_balance customerID =
     bind_db (ledger_GetBalance get_balance customerID) (\<lambda>balance.
       return_db \<lparr>bs_CustomerID = customerID, bs_Provider = ''native'', bs_IsActive = True,
                  bs_IsSuspended = (sint balance \<le> 0), bs_Status = ''active''\<rparr>)"

record TopUpResult =
  tr_TransactionID :: string
  tr_BalanceCents :: int64
  tr_Currency :: string

definition native_ProcessTopUp ::
  "(string \<Rightarrow> int64 \<Rightarrow> string \<Rightarrow> string option \<Rightarrow> ('s, BillingTransaction) db_op)
   \<Rightarrow> string \<Rightarrow> int64 \<Rightarrow> string \<Rightarrow> ('s, TopUpResult) db_op" where
  "native_ProcessTopUp credit customerID amountCents reference =
     (let idempotencyKey = ''topup:'' @ customerID @ '':'' @ reference in
      bind_db (ledger_CreditAccount credit customerID amountCents (''Top-up: '' @ reference)
                 (Some idempotencyKey)) (\<lambda>bt.
        return_db \<lparr>tr_TransactionID = bt_ID bt, tr_BalanceCents = bt_BalanceAfter bt,
                   tr_Currency = ''USD''\<rparr>))"

section \<open>The contract of the repository\<close>

text \<open>
  What a posting promises its callers: it appends at most one entry, the entry is the one asked
  for, the account moves by its signed amount, an occupied key is never written again, and a
  success without a new entry returns the matching entry that already holds the key.
\<close>

definition posting_contract ::
  "('s \<Rightarrow> BillingTransaction list) \<Rightarrow> ('s \<Rightarrow> string \<rightharpoonup> int64) \<Rightarrow> string \<Rightarrow> string \<Rightarrow> int64
   \<Rightarrow> string option \<Rightarrow> string option \<Rightarrow> string option \<Rightarrow> 's \<Rightarrow> error + BillingTransaction \<Rightarrow> 's \<Rightarrow> bool" where
  "posting_contract entries balance c ty a rt ri key s r t \<longleftrightarrow>
     (entries t = entries s \<and> balance t = balance s \<and>
      (\<forall>bt. r = Inr bt \<longrightarrow>
         (\<exists>k. key = Some k \<and> bt \<in> set (entries s) \<and> has_key c k bt \<and> billingTxMatches bt ty a rt ri)))
   \<or> (\<exists>bt b. entries t = entries s @ [bt] \<and> balance s c = Some b \<and>
        balance t = (balance s)(c \<mapsto> b + signed_amount bt) \<and>
        bt_CustomerID bt = c \<and> bt_IdempotencyKey bt = key \<and> billingTxMatches bt ty a rt ri \<and>
        (\<forall>k. key = Some k \<longrightarrow> (\<forall>e\<in>set (entries s). \<not> has_key c k e)) \<and>
        (r = Inr bt \<or> (\<exists>e. r = Inl e)))"

lemma posting_contractE:
  assumes "posting_contract entries balance c ty a rt ri key s r t"
  obtains (kept) "entries t = entries s" "balance t = balance s"
      "\<And>bt. r = Inr bt \<Longrightarrow>
         \<exists>k. key = Some k \<and> bt \<in> set (entries s) \<and> has_key c k bt \<and> billingTxMatches bt ty a rt ri"
  | (appended) bt b where "entries t = entries s @ [bt]" "balance s c = Some b"
      "balance t = (balance s)(c \<mapsto> b + signed_amount bt)"
      "bt_CustomerID bt = c" "bt_IdempotencyKey bt = key" "billingTxMatches bt ty a rt ri"
      "\<And>k e. key = Some k \<Longrightarrow> e \<in> set (entries s) \<Longrightarrow> \<not> has_key c k e"
      "r = Inr bt \<or> (\<exists>e. r = Inl e)"
  using assms unfolding posting_contract_def by blast

lemma posting_contract_kept:
  assumes "entries t = entries s" "balance t = balance s"
    "\<And>bt. r = Inr bt \<Longrightarrow>
         \<exists>k. key = Some k \<and> bt \<in> set (entries s) \<and> has_key c k bt \<and> billingTxMatches bt ty a rt ri"
  shows "posting_contract entries balance c ty a rt ri key s r t"
  using assms unfolding posting_contract_def by blast

lemma posting_contract_appended:
  assumes "entries t = entries s @ [bt]" "balance s c = Some b"
      "balance t = (balance s)(c \<mapsto> b + signed_amount bt)"
      "bt_CustomerID bt = c" "bt_IdempotencyKey bt = key" "billingTxMatches bt ty a rt ri"
      "\<forall>k. key = Some k \<longrightarrow> (\<forall>e\<in>set (entries s). \<not> has_key c k e)"
      "r = Inr bt \<or> (\<exists>e. r = Inl e)"
  shows "posting_contract entries balance c ty a rt ri key s r t"
  using assms unfolding posting_contract_def by blast

locale ledger_repo =
  fixes credit :: "string \<Rightarrow> int64 \<Rightarrow> string \<Rightarrow> string option \<Rightarrow> ('s, BillingTransaction) db_op"
    and debit :: "string \<Rightarrow> int64 \<Rightarrow> string \<Rightarrow> string option \<Rightarrow> string option \<Rightarrow> string option
          \<Rightarrow> ('s, BillingTransaction) db_op"
    and entries :: "'s \<Rightarrow> BillingTransaction list"
    and balance :: "'s \<Rightarrow> string \<rightharpoonup> int64"
    and inv :: "'s \<Rightarrow> bool"
  assumes credit_law: "inv s \<Longrightarrow> credit c a ds key s = (r, t) \<Longrightarrow>
      inv t \<and> posting_contract entries balance c BillingTxTypeCredit a None None key s r t"
    and debit_law: "inv s \<Longrightarrow> debit c a ds rt ri key s = (r, t) \<Longrightarrow>
      inv t \<and> posting_contract entries balance c BillingTxTypeDebit a rt ri key s r t"
    and keys_unique: "inv s \<Longrightarrow> distinct (ledger_keys (entries s))"
begin

lemma contract_occupied:
  assumes "posting_contract entries balance c ty a rt ri (Some k) s r t"
    and "inv s" "bt \<in> set (entries s)" "has_key c k bt"
  shows "entries t = entries s \<and> balance t = balance s \<and> (\<forall>x. r = Inr x \<longrightarrow> x = bt)"
  using assms(1)
proof (cases rule: posting_contractE)
  case kept
  then show ?thesis
    using ledger_keys_inj [OF keys_unique [OF assms(2)] _ _ assms(3,4)] by blast
next
  case (appended x b)
  then show ?thesis using assms(3,4) by blast
qed

lemma attempts_occupied:
  assumes law: "\<And>s r t. inv s \<Longrightarrow> op s = (r, t) \<Longrightarrow>
      inv t \<and> posting_contract entries balance c ty a rt ri (Some k) s r t"
    and "inv s" "bt \<in> set (entries s)" "has_key c k bt" "attempts n op s = (rs, t)"
  shows "inv t \<and> entries t = entries s \<and> balance t = balance s \<and> (\<forall>x. Inr x \<in> set rs \<longrightarrow> x = bt)"
  using assms(2-)
proof (induction n arbitrary: s rs)
  case 0
  then show ?case by simp
next
  case (Suc n)
  obtain r s1 rs' where 1: "op s = (r, s1)" and 2: "attempts n op s1 = (rs', t)" and rs: "rs = r # rs'"
    using Suc.prems(4) by (rule attempts_Suc)
  from law [OF Suc.prems(1) 1] have s1: "inv s1"
    and c: "posting_contract entries balance c ty a rt ri (Some k) s r s1" by blast+
  have e: "entries s1 = entries s" "balance s1 = balance s" "\<forall>x. r = Inr x \<longrightarrow> x = bt"
    using contract_occupied [OF c Suc.prems(1-3)] by blast+
  have "inv t \<and> entries t = entries s1 \<and> balance t = balance s1 \<and> (\<forall>x. Inr x \<in> set rs' \<longrightarrow> x = bt)"
    using Suc.IH [OF s1 _ Suc.prems(3) 2] e(1) Suc.prems(2) by simp
  then show ?case using e rs by auto
qed

text \<open>Any number of attempts with one key posts at most once, and every success reports the one
  entry.\<close>

lemma attempts_once:
  assumes law: "\<And>s r t. inv s \<Longrightarrow> op s = (r, t) \<Longrightarrow>
      inv t \<and> posting_contract entries balance c ty a rt ri (Some k) s r t"
    and "inv s" "\<forall>e\<in>set (entries s). \<not> has_key c k e" "attempts n op s = (rs, t)"
  shows "inv t \<and>
    ((entries t = entries s \<and> balance t = balance s \<and> (\<forall>r\<in>set rs. \<exists>e. r = Inl e)) \<or>
     (\<exists>bt b. entries t = entries s @ [bt] \<and> balance s c = Some b \<and>
        balance t = (balance s)(c \<mapsto> b + signed_amount bt) \<and> has_key c k bt \<and>
        billingTxMatches bt ty a rt ri \<and> (\<forall>x. Inr x \<in> set rs \<longrightarrow> x = bt)))"
  using assms(2-)
proof (induction n arbitrary: s rs)
  case 0
  then show ?case by simp
next
  case (Suc n)
  obtain r s1 rs' where 1: "op s = (r, s1)" and 2: "attempts n op s1 = (rs', t)" and rs: "rs = r # rs'"
    using Suc.prems(3) by (rule attempts_Suc)
  from law [OF Suc.prems(1) 1] have s1: "inv s1"
    and c: "posting_contract entries balance c ty a rt ri (Some k) s r s1" by blast+
  from c show ?case
  proof (cases rule: posting_contractE)
    case kept
    have "\<exists>e. r = Inl e" using kept(3) Suc.prems(2) by (cases r) auto
    then show ?thesis using Suc.IH [OF s1 _ 2] kept(1,2) Suc.prems(2) rs by auto
  next
    case (appended bt b)
    have k: "has_key c k bt" using appended(4,5) by (simp add: has_key_def)
    have "inv t \<and> entries t = entries s1 \<and> balance t = balance s1 \<and> (\<forall>x. Inr x \<in> set rs' \<longrightarrow> x = bt)"
      using attempts_occupied [OF law s1 _ k 2] appended(1) by simp
    then show ?thesis using appended k rs by auto
  qed
qed

lemma ledger_CreditAccount_law:
  assumes "inv s" "ledger_CreditAccount credit c a ds key s = (r, t)"
  shows "inv t \<and> posting_contract entries balance c BillingTxTypeCredit a None None key s r t"
  using assms credit_law
  by (auto simp: ledger_CreditAccount_def throw_db_def posting_contract_def split: if_splits)

lemma ledger_DebitAccount_law:
  assumes "inv s" "ledger_DebitAccount debit c a ds rt ri key s = (r, t)"
  shows "inv t \<and> posting_contract entries balance c BillingTxTypeDebit a rt ri key s r t"
  using assms debit_law
  by (auto simp: ledger_DebitAccount_def throw_db_def posting_contract_def split: if_splits)

end

section \<open>The repository keeps the contract\<close>

lemma post_contract:
  assumes "ledger_inv s" "sign_ok ty a d" "transaction (post_body c ty a d ds rt ri key) s = (r, t)"
  shows "ledger_inv t \<and> posting_contract ledger balances c ty a rt ri key s r t"
proof
  show "ledger_inv t" using post_inv [OF assms(1,2), of c ds rt ri key] assms(3) by simp
  show "posting_contract ledger balances c ty a rt ri key s r t"
    using assms(3)
  proof (cases rule: post_outcome)
    case (failed e)
    then show ?thesis by (intro posting_contract_kept tables_eqD) auto
  next
    case (replayed k bt)
    then show ?thesis by (intro posting_contract_kept tables_eqD) auto
  next
    case (booked bt)
    obtain b where b: "balances s c = Some b" "balances t = (balances s)(c \<mapsto> b + d)"
      using posted_ledger(3) [OF booked(1)] by blast
    have d: "signed_amount bt = d" and m: "billingTxMatches bt ty a rt ri"
      using posted_entry [OF booked(1)] assms(2)
      by (auto simp: sign_ok_def signed_amount_def billingTxMatches_def)
    show ?thesis
      using posted_ledger(1,2) [OF booked(1)] posted_entry [OF booked(1)] booked(2) b d m
      by (intro posting_contract_appended [of ledger t s bt balances c b]) auto
  qed
qed

interpretation lr: ledger_repo CreditAccount DebitAccount ledger balances ledger_inv
proof (unfold_locales, goal_cases)
  case (1 s c a ds key r t)
  then show ?case unfolding CreditAccount_post by (intro post_contract) auto
next
  case (2 s c a ds rt ri key r t)
  then show ?case unfolding DebitAccount_post by (intro post_contract) auto
next
  case (3 s)
  then show ?case by (simp add: ledger_inv_def)
qed


section \<open>Histories of ledger operations\<close>

datatype ledger_cmd =
    CmdCredit string int64 string "string option"
  | CmdDebit string int64 string "string option" "string option" "string option"

fun exec_cmd :: "ledger_cmd \<Rightarrow> ('r ledger_db_scheme, BillingTransaction) db_op" where
  "exec_cmd (CmdCredit c a ds k) = ledger_CreditAccount CreditAccount c a ds k"
| "exec_cmd (CmdDebit c a ds rt ri k) = ledger_DebitAccount DebitAccount c a ds rt ri k"

fun run_ledger :: "ledger_cmd list \<Rightarrow> 'r ledger_db_scheme \<Rightarrow> 'r ledger_db_scheme" where
  "run_ledger [] s = s"
| "run_ledger (x # xs) s = run_ledger xs (snd (exec_cmd x s))"

lemma exec_cmd_step:
  fixes s :: "'r ledger_db_scheme"
  assumes "ledger_inv s"
  shows "ledger_inv (snd (exec_cmd x s)) \<and>
    (\<exists>new. ledger (snd (exec_cmd x s)) = ledger s @ new \<and> (\<forall>bt\<in>set new. 0 < sint (bt_Amount bt)))"
proof (cases x)
  case (CmdCredit c a ds k)
  obtain r t where rt: "ledger_CreditAccount CreditAccount c a ds k s = (r, t)"
    by (cases "ledger_CreditAccount CreditAccount c a ds k s")
  then have inv: "ledger_inv t"
    and con: "posting_contract ledger balances c BillingTxTypeCredit a None None k s r t"
    using lr.ledger_CreditAccount_law [OF assms rt] by blast+
  have "t = s" if "sint a \<le> 0" using rt that by (simp add: ledger_CreditAccount_def throw_db_def)
  with con have "\<exists>new. ledger t = ledger s @ new \<and> (\<forall>bt\<in>set new. 0 < sint (bt_Amount bt))"
    by (cases rule: posting_contractE) (force simp: billingTxMatches_def not_le)+
  with inv rt CmdCredit show ?thesis by simp
next
  case (CmdDebit c a ds rt' ri k)
  obtain r t where rt: "ledger_DebitAccount DebitAccount c a ds rt' ri k s = (r, t)"
    by (cases "ledger_DebitAccount DebitAccount c a ds rt' ri k s")
  then have inv: "ledger_inv t"
    and con: "posting_contract ledger balances c BillingTxTypeDebit a rt' ri k s r t"
    using lr.ledger_DebitAccount_law [OF assms rt] by blast+
  have "t = s" if "sint a \<le> 0" using rt that by (simp add: ledger_DebitAccount_def throw_db_def)
  with con have "\<exists>new. ledger t = ledger s @ new \<and> (\<forall>bt\<in>set new. 0 < sint (bt_Amount bt))"
    by (cases rule: posting_contractE) (force simp: billingTxMatches_def not_le)+
  with inv rt CmdDebit show ?thesis by simp
qed

section \<open>Properties\<close>

text \<open>C1. Whatever the connection does to any sequence of ledger operations, the ledger invariant
  holds at the end (each balance is the signed sum of the customer's entries modulo 64-bit
  wrap-around, every recorded balance_after is the running balance, no idempotency key occurs
  twice for a customer) and the ledger only grew, by entries of positive amount.\<close>

theorem ledger_history_sound:
  assumes "ledger_inv s"
  shows "ledger_inv (run_ledger cmds s) \<and>
    (\<exists>new. ledger (run_ledger cmds s) = ledger s @ new \<and> (\<forall>bt\<in>set new. 0 < sint (bt_Amount bt)))"
  using assms
proof (induction cmds arbitrary: s)
  case Nil
  then show ?case by simp
next
  case (Cons x xs)
  from exec_cmd_step [OF Cons.prems, of x] obtain new1 where
    1: "ledger_inv (snd (exec_cmd x s))" "ledger (snd (exec_cmd x s)) = ledger s @ new1"
      "\<forall>bt\<in>set new1. 0 < sint (bt_Amount bt)" by blast
  from Cons.IH [OF 1(1)] 1(2,3) show ?case by auto
qed


definition ex_ledger_db :: "fault list \<Rightarrow> ledger_db" where
  "ex_ledger_db fs =
     \<lparr>faults = fs, next_id = 0, gen_uuid = (\<lambda>n. replicate n (CHR ''a'')), clock = 7,
      balances = [''c1'' \<mapsto> 0], ledger = []\<rparr>"

lemma ex_ledger_db_inv: "ledger_inv (ex_ledger_db fs)"
  by (simp add: ex_ledger_db_def ledger_inv_def balances_ok_def entries_ok_def ledger_keys_def
      List.map_filter_def)

text \<open>At a commit whose reply is lost, followed by the caller's retry and a charge.\<close>

theorem ledger_history_sound_witness:
  "ledger_inv (ex_ledger_db (replicate 5 NoFault @ [ReplyLost])) \<and>
   ledger_inv (run_ledger [CmdCredit ''c1'' 500 ''top-up'' (Some ''k''),
                           CmdCredit ''c1'' 500 ''top-up'' (Some ''k''),
                           CmdDebit ''c1'' 20 ''hour'' (Some ''vm_usage'') (Some ''v'') None]
                (ex_ledger_db (replicate 5 NoFault @ [ReplyLost]))) \<and>
   balances (run_ledger [CmdCredit ''c1'' 500 ''top-up'' (Some ''k''),
                         CmdCredit ''c1'' 500 ''top-up'' (Some ''k''),
                         CmdDebit ''c1'' 20 ''hour'' (Some ''vm_usage'') (Some ''v'') None]
              (ex_ledger_db (replicate 5 NoFault @ [ReplyLost]))) ''c1'' = Some 480"
proof (intro conjI)
  show inv: "ledger_inv (ex_ledger_db (replicate 5 NoFault @ [ReplyLost]))"
    by (rule ex_ledger_db_inv)
  show "ledger_inv (run_ledger [CmdCredit ''c1'' 500 ''top-up'' (Some ''k''),
                           CmdCredit ''c1'' 500 ''top-up'' (Some ''k''),
                           CmdDebit ''c1'' 20 ''hour'' (Some ''vm_usage'') (Some ''v'') None]
                (ex_ledger_db (replicate 5 NoFault @ [ReplyLost])))"
    using ledger_history_sound [OF inv] by blast
qed code_simp

text \<open>C2. A credit attempted any number of times under one idempotency key takes effect at most
  once, whatever the connection does to each attempt: either no attempt succeeded and the account
  is as before, or exactly one entry was appended, the balance grew by the amount once, and every
  successful attempt returned that entry.\<close>

theorem credit_exactly_once:
  assumes "ledger_inv s" and "\<forall>e\<in>set (ledger s). \<not> has_key c k e"
    and "attempts n (ledger_CreditAccount CreditAccount c a ds (Some k)) s = (rs, t)"
  shows "(ledger t = ledger s \<and> balances t = balances s \<and> (\<forall>r\<in>set rs. \<exists>e. r = Inl e)) \<or>
    (\<exists>bt b. ledger t = ledger s @ [bt] \<and> balances s c = Some b \<and>
       balances t = (balances s)(c \<mapsto> b + a) \<and> has_key c k bt \<and> bt_Amount bt = a \<and>
       (\<forall>x. Inr x \<in> set rs \<longrightarrow> x = bt))"
proof -
  have "billingTxMatches bt BillingTxTypeCredit a None None \<Longrightarrow> signed_amount bt = a \<and> bt_Amount bt = a" for bt
    by (simp add: billingTxMatches_def signed_amount_def)
  with lr.attempts_once [OF lr.ledger_CreditAccount_law assms] show ?thesis by fastforce
qed

text \<open>The first attempt commits but its reply is lost; the second returns the entry.\<close>

theorem credit_exactly_once_witness:
  "map isl (fst (attempts 2 (ledger_CreditAccount CreditAccount ''c1'' 500 ''t'' (Some ''k''))
      (ex_ledger_db (replicate 5 NoFault @ [ReplyLost])))) = [True, False] \<and>
   length (ledger (snd (attempts 2 (ledger_CreditAccount CreditAccount ''c1'' 500 ''t'' (Some ''k''))
                    (ex_ledger_db (replicate 5 NoFault @ [ReplyLost]))))) \<le> 1"
proof
  show "map isl (fst (attempts 2 (ledger_CreditAccount CreditAccount ''c1'' 500 ''t'' (Some ''k''))
      (ex_ledger_db (replicate 5 NoFault @ [ReplyLost])))) = [True, False]"
    by code_simp
  let ?s = "ex_ledger_db (replicate 5 NoFault @ [ReplyLost])"
  have l: "ledger ?s = []" by (simp add: ex_ledger_db_def)
  then have fresh: "\<forall>e\<in>set (ledger ?s). \<not> has_key ''c1'' ''k'' e" by simp
  show "length (ledger (snd (attempts 2 (ledger_CreditAccount CreditAccount ''c1'' 500 ''t'' (Some ''k'')) ?s))) \<le> 1"
    using credit_exactly_once [OF ex_ledger_db_inv fresh surjective_pairing, of 2 500 "''t''"] l
    by (elim disjE exE conjE) (simp_all del: attempts.simps)
qed

text \<open>A posting under an unused key for an existing customer goes through.\<close>

lemma post_succeeds:
  assumes "faults s = []" and "balances s c = Some b" and "\<forall>e\<in>set (ledger s). \<not> has_key c k e"
    and "gen_uuid s (next_id s) \<notin> bt_ID ` set (ledger s)"
  shows "transaction (post_body c ty a d ds rt ri (Some k)) s =
    (let bt = \<lparr>bt_ID = gen_uuid s (next_id s), bt_CustomerID = c, bt_Type = ty,
               bt_Amount = a, bt_BalanceAfter = b + d, bt_Description = ds, bt_ReferenceType = rt,
               bt_ReferenceID = ri, bt_IdempotencyKey = Some k, bt_CreatedAt = clock s\<rparr>
     in (Inr bt, s\<lparr>next_id := Suc (next_id s), balances := (balances s)(c \<mapsto> b + d),
                    ledger := ledger s @ [bt]\<rparr>))"
proof -
  note n = assms(1)
  have f: "find (has_key c k) (ledger s) = None" and x: "\<not> list_ex (has_key c k) (ledger s)"
    using assms(3) by (simp_all add: find_None_iff list_ex_iff)
  have m: "findMatchingIdempotencyKey c k ty a rt ri s = (Inr None, s)"
    using n f by (simp add: findMatchingIdempotencyKey_def findByIdempotencyKey_def tx_stmt_def)
  have l: "lockAndUpdateBalance c d s = (Inr (b + d), s\<lparr>balances := (balances s)(c \<mapsto> b + d)\<rparr>)"
    using n assms(2) by (simp add: lockAndUpdateBalance_def db_simps)
  show ?thesis
    using n m l x assms(4)
    by (simp add: post_body_def transaction_def bind_db_def return_db_def insertTransaction_def
        tx_stmt_def Let_def)
qed

text \<open>C3. With no fault on the connection, a credit for an existing customer under an unused key
  succeeds: it returns the entry it appended, which records the new balance, and it changes
  nothing else.\<close>

theorem CreditAccount_succeeds:
  assumes "faults s = []" and "balances s c = Some b" and "\<forall>e\<in>set (ledger s). \<not> has_key c k e"
    and "gen_uuid s (next_id s) \<notin> bt_ID ` set (ledger s)"
  shows "CreditAccount c a ds (Some k) s =
    (let bt = \<lparr>bt_ID = gen_uuid s (next_id s), bt_CustomerID = c, bt_Type = BillingTxTypeCredit,
               bt_Amount = a, bt_BalanceAfter = b + a, bt_Description = ds, bt_ReferenceType = None,
               bt_ReferenceID = None, bt_IdempotencyKey = Some k, bt_CreatedAt = clock s\<rparr>
     in (Inr bt, s\<lparr>next_id := Suc (next_id s), balances := (balances s)(c \<mapsto> b + a),
                    ledger := ledger s @ [bt]\<rparr>))"
proof -
  show ?thesis using post_succeeds [OF assms] by (simp add: CreditAccount_post)
qed

theorem CreditAccount_succeeds_witness:
  "faults (ex_ledger_db []) = [] \<and>
   balances (snd (CreditAccount ''c1'' 500 ''t'' (Some ''k'') (ex_ledger_db []))) ''c1'' = Some 500"
proof -
  have "CreditAccount ''c1'' 500 ''t'' (Some ''k'') (ex_ledger_db []) =
    (let bt = \<lparr>bt_ID = [], bt_CustomerID = ''c1'', bt_Type = BillingTxTypeCredit,
               bt_Amount = 500, bt_BalanceAfter = 0 + 500, bt_Description = ''t'', bt_ReferenceType = None,
               bt_ReferenceID = None, bt_IdempotencyKey = Some ''k'', bt_CreatedAt = 7\<rparr>
     in (Inr bt, (ex_ledger_db [])\<lparr>next_id := Suc 0,
           balances := (balances (ex_ledger_db []))(''c1'' \<mapsto> 0 + 500), ledger := [bt]\<rparr>))"
    using CreditAccount_succeeds [of "ex_ledger_db []" "''c1''" 0 "''k''" 500 "''t''"]
    by (simp add: ex_ledger_db_def)
  then show ?thesis by (simp add: ex_ledger_db_def Let_def)
qed



end
