(* ===== verification/Ledger_Concurrency.thy ===== *)
theory Ledger_Concurrency
  imports Ledger
begin

text \<open>
  Concurrent postings, statement by statement. Several controllers and request handlers run
  \<open>CreditAccount\<close> and \<open>DebitAccount\<close> at once on one PostgreSQL database, so the statements of
  different transactions interleave. What the code relies on is documented behaviour of the
  database at its default isolation level: a SELECT sees the committed rows, \<open>FOR UPDATE\<close> waits
  until no other transaction holds the row, an uncommitted change is visible to its own
  transaction only, and COMMIT makes it visible and releases the row.

  The step relation below has one rule per statement of the two methods. It shows that the atomic
  transactions of theory \<open>Ledger\<close> are a faithful abstraction: every step either leaves the
  committed tables alone or is one whole posting.
\<close>

section \<open>Sessions\<close>

record request =
  rq_customer :: string
  rq_type :: string
  rq_amount :: int64
  rq_delta :: int64
  rq_reftype :: "string option"
  rq_refid :: "string option"
  rq_key :: "string option"

text \<open>The credit and debit calls as requests; the delta is what \<open>lockAndUpdateBalance\<close> is given.\<close>

definition credit_request :: "string \<Rightarrow> int64 \<Rightarrow> string option \<Rightarrow> request" where
  "credit_request c a key =
     \<lparr>rq_customer = c, rq_type = BillingTxTypeCredit, rq_amount = a, rq_delta = a,
      rq_reftype = None, rq_refid = None, rq_key = key\<rparr>"

definition debit_request ::
  "string \<Rightarrow> int64 \<Rightarrow> string option \<Rightarrow> string option \<Rightarrow> string option \<Rightarrow> request" where
  "debit_request c a rt ri key =
     \<lparr>rq_customer = c, rq_type = BillingTxTypeDebit, rq_amount = a, rq_delta = - a,
      rq_reftype = rt, rq_refid = ri, rq_key = key\<rparr>"

datatype pc =
    Ready                             \<comment> \<open>before BEGIN\<close>
  | Checked                           \<comment> \<open>the idempotency SELECT found nothing, or there is no key\<close>
  | Locked int64                      \<comment> \<open>SELECT balance FOR UPDATE returned this balance\<close>
  | Updated int64                     \<comment> \<open>UPDATE customers SET balance ran, uncommitted\<close>
  | Inserted BillingTransaction       \<comment> \<open>INSERT INTO billing_transactions ran, uncommitted\<close>
  | Finished "error + BillingTransaction"

record conc =
  committed :: ledger_db
  row_lock :: "string \<rightharpoonup> nat"
  reqs :: "nat \<Rightarrow> request"
  pcs :: "nat \<Rightarrow> pc"

definition release :: "conc \<Rightarrow> nat \<Rightarrow> string \<rightharpoonup> nat" where
  "release s i = (\<lambda>c. if row_lock s c = Some i then None else row_lock s c)"

definition commit_tables :: "ledger_db \<Rightarrow> string \<Rightarrow> BillingTransaction \<Rightarrow> ledger_db" where
  "commit_tables d c bt =
     d\<lparr>balances := (balances d)(c \<mapsto> bt_BalanceAfter bt), ledger := ledger d @ [bt]\<rparr>"

inductive session_step :: "nat \<Rightarrow> conc \<Rightarrow> conc \<Rightarrow> bool" for i where
  check_hit:
    "pcs s i = Ready \<Longrightarrow> rq_key (reqs s i) = Some k \<Longrightarrow>
     find (has_key (rq_customer (reqs s i)) k) (ledger (committed s)) = Some bt \<Longrightarrow>
     session_step i s (s\<lparr>pcs := (pcs s)(i := Finished
       (if billingTxMatches bt (rq_type (reqs s i)) (rq_amount (reqs s i)) (rq_reftype (reqs s i))
             (rq_refid (reqs s i))
        then Inr bt else Inl ErrConflict))\<rparr>)"
| check_miss:
    "pcs s i = Ready \<Longrightarrow>
     (\<forall>k. rq_key (reqs s i) = Some k \<longrightarrow>
        find (has_key (rq_customer (reqs s i)) k) (ledger (committed s)) = None) \<Longrightarrow>
     session_step i s (s\<lparr>pcs := (pcs s)(i := Checked)\<rparr>)"
| lock_row:
    "pcs s i = Checked \<Longrightarrow> row_lock s (rq_customer (reqs s i)) = None \<Longrightarrow>
     balances (committed s) (rq_customer (reqs s i)) = Some b \<Longrightarrow>
     session_step i s (s\<lparr>pcs := (pcs s)(i := Locked b),
       row_lock := (row_lock s)(rq_customer (reqs s i) \<mapsto> i)\<rparr>)"
| update_row:
    "pcs s i = Locked b \<Longrightarrow>
     session_step i s (s\<lparr>pcs := (pcs s)(i := Updated (b + rq_delta (reqs s i)))\<rparr>)"
| insert_row:
    "pcs s i = Updated nb \<Longrightarrow>
     bt_CustomerID bt = rq_customer (reqs s i) \<Longrightarrow> bt_Type bt = rq_type (reqs s i) \<Longrightarrow>
     bt_Amount bt = rq_amount (reqs s i) \<Longrightarrow> bt_BalanceAfter bt = nb \<Longrightarrow>
     bt_ReferenceType bt = rq_reftype (reqs s i) \<Longrightarrow> bt_ReferenceID bt = rq_refid (reqs s i) \<Longrightarrow>
     bt_IdempotencyKey bt = rq_key (reqs s i) \<Longrightarrow>
     bt_ID bt \<notin> bt_ID ` set (ledger (committed s)) \<Longrightarrow>
     (\<forall>j bt'. j \<noteq> i \<and> pcs s j = Inserted bt' \<longrightarrow> bt_ID bt' \<noteq> bt_ID bt) \<Longrightarrow>
     (\<forall>k. rq_key (reqs s i) = Some k \<longrightarrow>
        \<not> list_ex (has_key (rq_customer (reqs s i)) k) (ledger (committed s))) \<Longrightarrow>
     session_step i s (s\<lparr>pcs := (pcs s)(i := Inserted bt)\<rparr>)"
| insert_duplicate:
    "pcs s i = Updated nb \<Longrightarrow> rq_key (reqs s i) = Some k \<Longrightarrow>
     list_ex (has_key (rq_customer (reqs s i)) k) (ledger (committed s)) \<Longrightarrow>
     session_step i s (s\<lparr>pcs := (pcs s)(i := Finished (Inl (ErrUniqueViolation ''idx_billing_tx_idempotency''))),
       row_lock := release s i\<rparr>)"
| commit:
    "pcs s i = Inserted bt \<Longrightarrow>
     session_step i s (s\<lparr>pcs := (pcs s)(i := Finished r),
       row_lock := release s i,
       committed := commit_tables (committed s) (rq_customer (reqs s i)) bt\<rparr>)"
  if "r = Inr bt \<or> r = Inl ErrDB"
| abort:
    "pcs s i = p \<Longrightarrow> (\<forall>r. p \<noteq> Finished r) \<Longrightarrow>
     session_step i s (s\<lparr>pcs := (pcs s)(i := Finished (Inl e)), row_lock := release s i\<rparr>)"

inductive interleaved :: "conc \<Rightarrow> conc \<Rightarrow> bool" where
  refl: "interleaved s s"
| step: "interleaved s t \<Longrightarrow> session_step i t u \<Longrightarrow> interleaved s u"

section \<open>The locking discipline\<close>

definition holds :: "pc \<Rightarrow> bool" where
  "holds p = (case p of Locked b \<Rightarrow> True | Updated b \<Rightarrow> True | Inserted bt \<Rightarrow> True | _ \<Rightarrow> False)"

text \<open>What a session in the middle of its transaction knows about the committed tables.\<close>

definition session_ok :: "ledger_db \<Rightarrow> request \<Rightarrow> pc \<Rightarrow> bool" where
  "session_ok d q p =
     (case p of
        Locked b \<Rightarrow> balances d (rq_customer q) = Some b
      | Updated nb \<Rightarrow> \<exists>b. balances d (rq_customer q) = Some b \<and> nb = b + rq_delta q
      | Inserted bt \<Rightarrow>
          (\<exists>t. posted (rq_customer q) (rq_type q) (rq_amount q) (rq_delta q) (rq_reftype q)
                 (rq_refid q) (rq_key q) d bt t)
      | _ \<Rightarrow> True)"

definition conc_inv :: "conc \<Rightarrow> bool" where
  "conc_inv s \<longleftrightarrow>
     ledger_inv (committed s) \<and>
     (\<forall>i. sign_ok (rq_type (reqs s i)) (rq_amount (reqs s i)) (rq_delta (reqs s i))) \<and>
     (\<forall>i. holds (pcs s i) \<longrightarrow> row_lock s (rq_customer (reqs s i)) = Some i) \<and>
     (\<forall>i. session_ok (committed s) (reqs s i) (pcs s i)) \<and>
     (\<forall>i j bt bt'. pcs s i = Inserted bt \<longrightarrow> pcs s j = Inserted bt' \<longrightarrow> i \<noteq> j \<longrightarrow> bt_ID bt \<noteq> bt_ID bt')"


lemma postable_iff:
  "(\<exists>t. posted c ty a d rt ri key s bt t) \<longleftrightarrow>
     (\<exists>b. balances s c = Some b \<and> bt_BalanceAfter bt = b + d) \<and>
     bt_CustomerID bt = c \<and> bt_Type bt = ty \<and> bt_Amount bt = a \<and> bt_ReferenceType bt = rt \<and>
     bt_ReferenceID bt = ri \<and> bt_IdempotencyKey bt = key \<and> bt_ID bt \<notin> bt_ID ` set (ledger s) \<and>
     (\<forall>k. key = Some k \<longrightarrow> (\<forall>e\<in>set (ledger s). \<not> has_key c k e))"
proof -
  have "\<exists>t. tables t = tables (s\<lparr>balances := m, ledger := l\<rparr>)" for m l by blast
  then show ?thesis unfolding posted_def by blast
qed

lemma conc_invD:
  assumes "conc_inv s"
  shows "ledger_inv (committed s)"
    "sign_ok (rq_type (reqs s i)) (rq_amount (reqs s i)) (rq_delta (reqs s i))"
    "holds (pcs s i) \<Longrightarrow> row_lock s (rq_customer (reqs s i)) = Some i"
    "session_ok (committed s) (reqs s i) (pcs s i)"
    "pcs s i = Inserted bt \<Longrightarrow> pcs s j = Inserted bt' \<Longrightarrow> i \<noteq> j \<Longrightarrow> bt_ID bt \<noteq> bt_ID bt'"
  using assms unfolding conc_inv_def by blast+

text \<open>A step that moves one session only and frees at most that session's locks.\<close>

lemma conc_inv_move:
  assumes inv: "conc_inv s"
    and lock: "\<And>j. j \<noteq> i \<Longrightarrow> holds (pcs s j) \<Longrightarrow> l (rq_customer (reqs s j)) = Some j"
    and own: "holds p \<Longrightarrow> l (rq_customer (reqs s i)) = Some i"
    and ok: "session_ok (committed s) (reqs s i) p"
    and ins: "\<And>bt j bt'. p = Inserted bt \<Longrightarrow> j \<noteq> i \<Longrightarrow> pcs s j = Inserted bt' \<Longrightarrow> bt_ID bt' \<noteq> bt_ID bt"
  shows "conc_inv (s\<lparr>pcs := (pcs s)(i := p), row_lock := l\<rparr>)"
  unfolding conc_inv_def
proof (intro conjI allI impI)
  fix j
  show "holds (pcs (s\<lparr>pcs := (pcs s)(i := p), row_lock := l\<rparr>) j) \<Longrightarrow>
     row_lock (s\<lparr>pcs := (pcs s)(i := p), row_lock := l\<rparr>)
       (rq_customer (reqs (s\<lparr>pcs := (pcs s)(i := p), row_lock := l\<rparr>) j)) = Some j"
    using lock own by (cases "j = i") simp_all
  show "session_ok (committed (s\<lparr>pcs := (pcs s)(i := p), row_lock := l\<rparr>))
      (reqs (s\<lparr>pcs := (pcs s)(i := p), row_lock := l\<rparr>) j)
      (pcs (s\<lparr>pcs := (pcs s)(i := p), row_lock := l\<rparr>) j)"
    using ok conc_invD(4) [OF inv] by simp
  fix k bt bt'
  assume "pcs (s\<lparr>pcs := (pcs s)(i := p), row_lock := l\<rparr>) j = Inserted bt"
    and "pcs (s\<lparr>pcs := (pcs s)(i := p), row_lock := l\<rparr>) k = Inserted bt'" and "j \<noteq> k"
  then show "bt_ID bt \<noteq> bt_ID bt'"
    using conc_invD(5) [OF inv, of j bt k bt'] ins [of bt k bt'] ins [of bt' j bt]
    by (auto split: if_splits)
qed (use conc_invD(1,2) [OF inv] in simp_all)

lemma conc_inv_stay:
  assumes inv: "conc_inv s"
    and own: "holds p \<Longrightarrow> holds (pcs s i)"
    and ok: "session_ok (committed s) (reqs s i) p"
    and ins: "\<And>bt j bt'. p = Inserted bt \<Longrightarrow> j \<noteq> i \<Longrightarrow> pcs s j = Inserted bt' \<Longrightarrow> bt_ID bt' \<noteq> bt_ID bt"
  shows "conc_inv (s\<lparr>pcs := (pcs s)(i := p)\<rparr>)"
  using conc_inv_move [OF inv, of i "row_lock s" p] conc_invD(3) [OF inv] own ok ins by simp

lemma holds_simps [simp]:
  "\<not> holds Ready" "\<not> holds Checked" "holds (Locked b)" "holds (Updated b)" "holds (Inserted bt)"
  "\<not> holds (Finished r)"
  by (simp_all add: holds_def)

lemma session_ok_simps [simp]:
  "session_ok d q Ready" "session_ok d q Checked" "session_ok d q (Finished r)"
  "session_ok d q (Locked b) \<longleftrightarrow> balances d (rq_customer q) = Some b"
  "session_ok d q (Updated nb) \<longleftrightarrow> (\<exists>b. balances d (rq_customer q) = Some b \<and> nb = b + rq_delta q)"
  by (simp_all add: session_ok_def)

lemma release_other:
  assumes "conc_inv s" "j \<noteq> i" "holds (pcs s j)"
  shows "release s i (rq_customer (reqs s j)) = Some j"
  using conc_invD(3) [OF assms(1,3)] assms(2) by (simp add: release_def)

lemma lock_other:
  assumes "conc_inv s" "holds (pcs s i)" "j \<noteq> i" "holds (pcs s j)"
  shows "rq_customer (reqs s j) \<noteq> rq_customer (reqs s i)"
  using conc_invD(3) [OF assms(1,2)] conc_invD(3) [OF assms(1,4)] assms(3) by auto

lemma session_ok_commit:
  assumes "session_ok d q p" and "holds p \<Longrightarrow> rq_customer q \<noteq> c" and "bt_CustomerID bt = c"
    and "\<And>bt'. p = Inserted bt' \<Longrightarrow> bt_ID bt' \<noteq> bt_ID bt"
  shows "session_ok (commit_tables d c bt) q p"
  using assms
  by (cases p) (auto simp: session_ok_def holds_def commit_tables_def postable_iff has_key_def)

lemma commit_posted:
  assumes "conc_inv s" "pcs s i = Inserted bt"
  shows "posted (rq_customer (reqs s i)) (rq_type (reqs s i)) (rq_amount (reqs s i))
     (rq_delta (reqs s i)) (rq_reftype (reqs s i)) (rq_refid (reqs s i)) (rq_key (reqs s i))
     (committed s) bt (commit_tables (committed s) (rq_customer (reqs s i)) bt)"
  using conc_invD(4) [OF assms(1), of i] assms(2)
  by (auto simp: session_ok_def posted_def commit_tables_def)

lemma commit_inv:
  assumes inv: "conc_inv s" and pc: "pcs s i = Inserted bt"
  shows "conc_inv (s\<lparr>pcs := (pcs s)(i := Finished r), row_lock := release s i,
     committed := commit_tables (committed s) (rq_customer (reqs s i)) bt\<rparr>)"
proof -
  let ?c = "rq_customer (reqs s i)"
  have held: "holds (pcs s i)" using pc by (simp add: holds_def)
  have bt: "bt_CustomerID bt = ?c" using posted_ledger(2) [OF commit_posted [OF inv pc]] .
  have "ledger_inv (commit_tables (committed s) ?c bt)"
    by (rule posted_inv [OF conc_invD(1) [OF inv] commit_posted [OF inv pc] conc_invD(2) [OF inv]])
  moreover have "session_ok (commit_tables (committed s) ?c bt) (reqs s j) (pcs s j)" if "j \<noteq> i" for j
    using lock_other [OF inv held that] conc_invD(4) [OF inv, of j] conc_invD(5) [OF inv _ pc that] bt
    by (intro session_ok_commit) auto
  moreover have "session_ok (commit_tables (committed s) ?c bt) (reqs s i) (Finished r)"
    by (simp add: session_ok_def)
  ultimately show ?thesis
    using conc_invD [OF inv] release_other [OF inv]
    by (auto simp: conc_inv_def holds_def)
qed


lemma session_step_inv:
  assumes "session_step i s t" "conc_inv s"
  shows "conc_inv t"
  using assms
proof (induction rule: session_step.induct)
  case (check_hit s k bt)
  show ?case by (rule conc_inv_stay [OF check_hit.prems]) auto
next
  case (check_miss s)
  show ?case by (rule conc_inv_stay [OF check_miss.prems]) auto
next
  case (lock_row s b)
  let ?c = "rq_customer (reqs s i)"
  have "((row_lock s)(?c \<mapsto> i)) (rq_customer (reqs s j)) = Some j" if "j \<noteq> i" "holds (pcs s j)" for j
    using conc_invD(3) [OF lock_row.prems that(2)] lock_row.hyps(2) by auto
  then show ?case using lock_row.hyps(3)
    by (intro conc_inv_move [OF lock_row.prems]) auto
next
  case (update_row s b)
  show ?case using conc_invD(4) [OF update_row.prems, of i] update_row.hyps
    by (intro conc_inv_stay [OF update_row.prems]) auto
next
  case (insert_row s nb bt)
  have "session_ok (committed s) (reqs s i) (Inserted bt)"
    using conc_invD(4) [OF insert_row.prems, of i] insert_row.hyps
    by (auto simp: session_ok_def postable_iff list_ex_iff)
  then show ?case using insert_row.hyps(1,10)
    by (intro conc_inv_stay [OF insert_row.prems]) auto
next
  case (insert_duplicate s nb k)
  then show ?case
    by (intro conc_inv_move [OF insert_duplicate.prems] release_other)
       auto
next
  case (commit r bt s)
  then show ?case by (intro commit_inv)
next
  case (abort s p e)
  then show ?case
    by (intro conc_inv_move [OF abort.prems] release_other) auto
qed


lemma interleaved_inv: "interleaved s t \<Longrightarrow> conc_inv s \<Longrightarrow> conc_inv t"
  by (induction rule: interleaved.induct) (auto intro: session_step_inv)

lemma session_step_reqs: "session_step i s t \<Longrightarrow> reqs t = reqs s"
  by (induction rule: session_step.induct) auto

lemma interleaved_reqs: "interleaved s t \<Longrightarrow> reqs t = reqs s"
  by (induction rule: interleaved.induct) (auto dest: session_step_reqs)

section \<open>The atomic abstraction\<close>

text \<open>The specification: the committed tables change by whole postings of the requests.\<close>

inductive atomic_posts :: "(nat \<Rightarrow> request) \<Rightarrow> ledger_db \<Rightarrow> ledger_db \<Rightarrow> bool" for q where
  none: "atomic_posts q d d"
| post: "atomic_posts q d d1 \<Longrightarrow>
    posted (rq_customer (q i)) (rq_type (q i)) (rq_amount (q i)) (rq_delta (q i)) (rq_reftype (q i))
      (rq_refid (q i)) (rq_key (q i)) d1 bt d2 \<Longrightarrow> atomic_posts q d d2"

lemma session_step_refines:
  assumes "session_step i s t" "conc_inv s"
  shows "committed t = committed s \<or>
    (\<exists>bt. posted (rq_customer (reqs s i)) (rq_type (reqs s i)) (rq_amount (reqs s i))
       (rq_delta (reqs s i)) (rq_reftype (reqs s i)) (rq_refid (reqs s i)) (rq_key (reqs s i))
       (committed s) bt (committed t))"
  using assms
proof (cases rule: session_step.cases)
  case (commit r bt)
  then show ?thesis using commit_posted [OF assms(2) commit(3)] by auto
qed auto

section \<open>Properties\<close>

definition ex_conc :: conc where
  "ex_conc = \<lparr>committed = ex_ledger_db [], row_lock = Map.empty,
     reqs = (\<lambda>_. credit_request ''c1'' 500 (Some ''k'')), pcs = (\<lambda>_. Ready)\<rparr>"

lemma ex_conc_inv: "conc_inv ex_conc"
  by (simp add: conc_inv_def ex_conc_def ex_ledger_db_inv credit_request_def)

definition ex_entry :: BillingTransaction where
  "ex_entry = \<lparr>bt_ID = ''e'', bt_CustomerID = ''c1'', bt_Type = BillingTxTypeCredit, bt_Amount = 500,
     bt_BalanceAfter = 500, bt_Description = ''t'', bt_ReferenceType = None, bt_ReferenceID = None,
     bt_IdempotencyKey = Some ''k'', bt_CreatedAt = 7\<rparr>"

text \<open>Two sessions with one key that both pass the idempotency check before either commits.\<close>

definition ex_st :: "pc \<Rightarrow> pc \<Rightarrow> (string \<rightharpoonup> nat) \<Rightarrow> ledger_db \<Rightarrow> conc" where
  "ex_st p0 p1 lk d = \<lparr>committed = d, row_lock = lk,
     reqs = (\<lambda>_. credit_request ''c1'' 500 (Some ''k'')),
     pcs = (\<lambda>i. if i = 0 then p0 else if i = 1 then p1 else Ready)\<rparr>"

lemma ex_st_simps [simp]:
  "committed (ex_st p0 p1 lk d) = d" "row_lock (ex_st p0 p1 lk d) = lk"
  "reqs (ex_st p0 p1 lk d) i = credit_request ''c1'' 500 (Some ''k'')"
  "pcs (ex_st p0 p1 lk d) i = (if i = 0 then p0 else if i = 1 then p1 else Ready)"
  "(ex_st p0 p1 lk d)\<lparr>row_lock := lk'\<rparr> = ex_st p0 p1 lk' d"
  "(ex_st p0 p1 lk d)\<lparr>committed := d'\<rparr> = ex_st p0 p1 lk d'"
  "(ex_st p0 p1 lk d)\<lparr>pcs := (pcs (ex_st p0 p1 lk d))(0 := p)\<rparr> = ex_st p p1 lk d"
  "(ex_st p0 p1 lk d)\<lparr>pcs := (pcs (ex_st p0 p1 lk d))(Suc 0 := p)\<rparr> = ex_st p0 p lk d"
  by (auto simp: ex_st_def fun_eq_iff)

lemma ex_req [simp]:
  "rq_customer (credit_request c a k) = c" "rq_delta (credit_request c a k) = a"
  "rq_key (credit_request c a k) = k" "rq_type (credit_request c a k) = BillingTxTypeCredit"
  "rq_amount (credit_request c a k) = a" "rq_reftype (credit_request c a k) = None"
  "rq_refid (credit_request c a k) = None"
  by (simp_all add: credit_request_def)

lemma ex_race:
  "\<exists>t. interleaved ex_conc t \<and> length (ledger (committed t)) = 1 \<and>
     pcs t 0 = Finished (Inr ex_entry) \<and>
     pcs t 1 = Finished (Inl (ErrUniqueViolation ''idx_billing_tx_idempotency''))"
proof -
  let ?d = "ex_ledger_db []" and ?l0 = "[''c1'' \<mapsto> 0::nat]" and ?l1 = "[''c1'' \<mapsto> 1::nat]"
  let ?d' = "commit_tables ?d ''c1'' ex_entry"
  let ?F0 = "Finished (Inr ex_entry)"
  let ?F1 = "Finished (Inl (ErrUniqueViolation ''idx_billing_tx_idempotency''))"
  have d: "ledger ?d = []" "balances ?d ''c1'' = Some 0" by (simp_all add: ex_ledger_db_def)
  have d': "ledger ?d' = [ex_entry]" "balances ?d' ''c1'' = Some 500"
    by (simp_all add: ex_ledger_db_def commit_tables_def ex_entry_def)
  have e: "has_key ''c1'' ''k'' ex_entry" by (simp add: ex_entry_def has_key_def)
  have r: "release (ex_st (Inserted ex_entry) Checked ?l0 ?d) 0 = Map.empty"
    by (simp add: release_def fun_eq_iff)
  have 1: "session_step 0 (ex_st Ready Ready Map.empty ?d) (ex_st Checked Ready Map.empty ?d)"
    using session_step.check_miss [of "ex_st Ready Ready Map.empty ?d" 0] d by simp
  have 2: "session_step 1 (ex_st Checked Ready Map.empty ?d) (ex_st Checked Checked Map.empty ?d)"
    using session_step.check_miss [of "ex_st Checked Ready Map.empty ?d" 1] d by simp
  have 3: "session_step 0 (ex_st Checked Checked Map.empty ?d) (ex_st (Locked 0) Checked ?l0 ?d)"
    using session_step.lock_row [of "ex_st Checked Checked Map.empty ?d" 0 0] d by simp
  have 4: "session_step 0 (ex_st (Locked 0) Checked ?l0 ?d) (ex_st (Updated 500) Checked ?l0 ?d)"
    using session_step.update_row [of "ex_st (Locked 0) Checked ?l0 ?d" 0 0] by simp
  have 5: "session_step 0 (ex_st (Updated 500) Checked ?l0 ?d) (ex_st (Inserted ex_entry) Checked ?l0 ?d)"
    using session_step.insert_row [of "ex_st (Updated 500) Checked ?l0 ?d" 0 500 ex_entry] d
    by (simp add: ex_entry_def)
  have 6: "session_step 0 (ex_st (Inserted ex_entry) Checked ?l0 ?d) (ex_st ?F0 Checked Map.empty ?d')"
    using session_step.commit [of "Inr ex_entry" ex_entry "ex_st (Inserted ex_entry) Checked ?l0 ?d" 0] r
    by simp
  have 7: "session_step 1 (ex_st ?F0 Checked Map.empty ?d') (ex_st ?F0 (Locked 500) ?l1 ?d')"
    using session_step.lock_row [of "ex_st ?F0 Checked Map.empty ?d'" 1 500] d' by simp
  have 8: "session_step 1 (ex_st ?F0 (Locked 500) ?l1 ?d') (ex_st ?F0 (Updated 1000) ?l1 ?d')"
    using session_step.update_row [of "ex_st ?F0 (Locked 500) ?l1 ?d'" 1 500] by simp
  have 9: "session_step 1 (ex_st ?F0 (Updated 1000) ?l1 ?d') (ex_st ?F0 ?F1 (release (ex_st ?F0 (Updated 1000) ?l1 ?d') 1) ?d')"
    using session_step.insert_duplicate [of "ex_st ?F0 (Updated 1000) ?l1 ?d'" 1 1000 "''k''"] d' e
    by simp
  have "ex_conc = ex_st Ready Ready Map.empty ?d" by (simp add: ex_conc_def ex_st_def fun_eq_iff)
  then have "interleaved ex_conc (ex_st ?F0 ?F1 (release (ex_st ?F0 (Updated 1000) ?l1 ?d') 1) ?d')"
    using interleaved.refl [THEN interleaved.step, OF 1, THEN interleaved.step, OF 2,
      THEN interleaved.step, OF 3, THEN interleaved.step, OF 4, THEN interleaved.step, OF 5,
      THEN interleaved.step, OF 6, THEN interleaved.step, OF 7, THEN interleaved.step, OF 8,
      THEN interleaved.step, OF 9] by (simp only:)
  then show ?thesis using d' by (intro exI conjI) (assumption, simp_all)
qed


text \<open>C5. However the statements of any number of concurrent credits and debits interleave, the
  committed ledger stays consistent: no update of a balance is lost, every balance is the sum of
  its entries, and a key is used once per customer even when two sessions both passed the
  idempotency check before either committed.\<close>

theorem concurrent_postings_safe:
  assumes "conc_inv s" and "interleaved s t"
  shows "ledger_inv (committed t)"
  using conc_invD(1) [OF interleaved_inv [OF assms(2,1)]] .

theorem concurrent_postings_safe_witness:
  "\<exists>t::conc. ledger_inv (committed t) \<and> pcs t 0 = Finished (Inr ex_entry) \<and>
     pcs t 1 = Finished (Inl (ErrUniqueViolation ''idx_billing_tx_idempotency''))"
  using ex_race concurrent_postings_safe [OF ex_conc_inv] by blast

text \<open>C6. The interleaved statements refine atomic transactions: what any interleaving did to the
  committed tables is a sequence of whole postings of the sessions' requests, so reasoning about
  \<open>CreditAccount\<close> and \<open>DebitAccount\<close> as atomic steps loses no behaviour.\<close>

theorem interleaving_refines_atomic:
  assumes "conc_inv s" and "interleaved s t"
  shows "atomic_posts (reqs s) (committed s) (committed t)"
  using assms(2,1)
proof (induction rule: interleaved.induct)
  case (refl s)
  then show ?case by (intro atomic_posts.none)
next
  case (step s t i u)
  have inv: "conc_inv t" and q: "reqs t = reqs s"
    using interleaved_inv [OF step.hyps(1) step.prems] interleaved_reqs [OF step.hyps(1)] .
  from session_step_refines [OF step.hyps(2) inv] show ?case
    using step.IH [OF step.prems] atomic_posts.post [of "reqs s"] unfolding q by metis
qed

theorem interleaving_refines_atomic_witness:
  "\<exists>t::conc. atomic_posts (reqs ex_conc) (committed ex_conc) (committed t) \<and> length (ledger (committed t)) = 1"
  using ex_race interleaving_refines_atomic [OF ex_conc_inv] by blast

end
