(* ===== verification/Payments.thy ===== *)
theory Payments
  imports Ledger
begin

text \<open>
  Gateway payments and their settlement against the ledger:
  \<^verbatim>\<open>models/billing_payment.go\<close>, \<^verbatim>\<open>repository/billing_payment_repo.go\<close>,
  \<^verbatim>\<open>payments/provider.go\<close>, \<^verbatim>\<open>payments/registry.go\<close> and \<^verbatim>\<open>services/payment_service.go\<close>.
  The state adds the table \<^verbatim>\<open>billing_payments\<close> to the ledger's. The gateways are arguments:
  a registry maps a gateway's name to the functions its provider answers with. The column
  \<^verbatim>\<open>metadata\<close> is a JSON object whose members are strings, the only shape the program writes;
  the lengths of \<^verbatim>\<open>VARCHAR\<close> columns other than the currency are not modelled.
\<close>

section \<open>Data\<close>

definition PaymentGatewayStripe :: string where "PaymentGatewayStripe = ''stripe''"

definition PaymentGatewayPayPal :: string where "PaymentGatewayPayPal = ''paypal''"

definition PaymentGatewayBTCPay :: string where "PaymentGatewayBTCPay = ''btcpay''"

definition PaymentGatewayNOWPayments :: string where "PaymentGatewayNOWPayments = ''nowpayments''"

definition PaymentGatewayAdmin :: string where "PaymentGatewayAdmin = ''admin''"

definition PaymentStatusPending :: string where "PaymentStatusPending = ''pending''"

definition PaymentStatusCompleted :: string where "PaymentStatusCompleted = ''completed''"

definition PaymentStatusFailed :: string where "PaymentStatusFailed = ''failed''"

definition PaymentStatusRefunded :: string where "PaymentStatusRefunded = ''refunded''"

lemmas gateway_defs = PaymentGatewayStripe_def PaymentGatewayPayPal_def PaymentGatewayBTCPay_def
  PaymentGatewayNOWPayments_def PaymentGatewayAdmin_def

lemmas status_defs = PaymentStatusPending_def PaymentStatusCompleted_def PaymentStatusFailed_def
  PaymentStatusRefunded_def

record BillingPayment =
  bp_ID :: string
  bp_CustomerID :: string
  bp_Gateway :: string
  bp_GatewayPaymentID :: "string option"
  bp_Amount :: int64
  bp_Currency :: string
  bp_Status :: string
  bp_ReuseKey :: "string option"
  bp_Metadata :: "(string \<times> string) list option"
  bp_CreatedAt :: int
  bp_UpdatedAt :: int

record payments_db = ledger_db +
  payments :: "BillingPayment list"

record PaymentCompletionCredit =
  pcc_PaymentID :: string
  pcc_Gateway :: string
  pcc_GatewayPaymentID :: string
  pcc_CustomerID :: string
  pcc_Amount :: int64
  pcc_Description :: string
  pcc_IdempotencyKey :: string

record PayPalCaptureCredit =
  ppc_PaymentID :: string
  ppc_OrderID :: string
  ppc_CaptureID :: string
  ppc_CustomerID :: string
  ppc_Amount :: int64
  ppc_Description :: string
  ppc_IdempotencyKey :: string

record PaymentRefundDebit =
  prd_PaymentID :: string
  prd_CustomerID :: string
  prd_Amount :: int64
  prd_Description :: string
  prd_IdempotencyKey :: string

section \<open>The repository\<close>

text \<open>The constraints of \<^verbatim>\<open>000075_billing_payments.up.sql\<close>.\<close>

definition payment_checks :: "'r payments_db_scheme \<Rightarrow> BillingPayment \<Rightarrow> bool" where
  "payment_checks s p \<longleftrightarrow>
     balances s (bp_CustomerID p) \<noteq> None \<and>
     bp_Gateway p \<in> {PaymentGatewayStripe, PaymentGatewayPayPal, PaymentGatewayBTCPay,
                     PaymentGatewayNOWPayments, PaymentGatewayAdmin} \<and>
     bp_Status p \<in> {PaymentStatusPending, PaymentStatusCompleted, PaymentStatusFailed,
                    PaymentStatusRefunded} \<and>
     length (bp_Currency p) \<le> 3"

definition payment_Create :: "BillingPayment \<Rightarrow> ('r payments_db_scheme, BillingPayment) db_op" where
  "payment_Create payment =
     auto_stmt (\<lambda>s.
       let created = payment\<lparr>bp_ID := gen_uuid s (next_id s), bp_CreatedAt := clock s, bp_UpdatedAt := clock s\<rparr>;
           s1 = s\<lparr>next_id := Suc (next_id s)\<rparr>
       in if \<not> payment_checks s created then (Inl ErrDB, s1)
          else if bp_ID created \<in> bp_ID ` set (payments s)
          then (Inl (ErrUniqueViolation ''billing_payments_pkey''), s1)
          else if bp_ReuseKey created \<noteq> None \<and> bp_ReuseKey created \<in> bp_ReuseKey ` set (payments s)
          then (Inl (ErrUniqueViolation ''idx_billing_payments_reuse''), s1)
          else (Inr created, s1\<lparr>payments := payments s1 @ [created]\<rparr>))"

text \<open>An \<^verbatim>\<open>UPDATE ... WHERE\<close>: the rows it selects are rewritten; the reply is their number.\<close>

definition update_payments ::
  "(BillingPayment \<Rightarrow> bool) \<Rightarrow> (BillingPayment \<Rightarrow> BillingPayment) \<Rightarrow> ('r payments_db_scheme, nat) db_op" where
  "update_payments sel f s =
     (Inr (length (filter sel (payments s))),
      s\<lparr>payments := map (\<lambda>p. if sel p then (f p)\<lparr>bp_UpdatedAt := clock s\<rparr> else p) (payments s)\<rparr>)"

definition payment_Update :: "BillingPayment \<Rightarrow> ('r payments_db_scheme, BillingPayment) db_op" where
  "payment_Update payment =
     auto_stmt (bind_db
       (update_payments (\<lambda>p. bp_ID p = bp_ID payment)
          (\<lambda>p. p\<lparr>bp_Status := bp_Status payment, bp_Metadata := bp_Metadata payment,
                 bp_GatewayPaymentID := bp_GatewayPaymentID payment\<rparr>))
       (\<lambda>_ s. case find (\<lambda>p. bp_ID p = bp_ID payment) (payments s) of
          None \<Rightarrow> (Inl ErrNoRows, s)
        | Some p \<Rightarrow> (Inr p, s)))"

text \<open>\<^verbatim>\<open>ScanRow\<close> turns a missing row into \<open>ErrNotFound\<close>; of several rows the first is read.\<close>

definition select_payment ::
  "(BillingPayment \<Rightarrow> bool) \<Rightarrow> ('r payments_db_scheme, BillingPayment) db_op" where
  "select_payment sel s =
     (case find sel (payments s) of None \<Rightarrow> (Inl ErrNotFound, s) | Some p \<Rightarrow> (Inr p, s))"

definition payment_GetByID :: "string \<Rightarrow> ('r payments_db_scheme, BillingPayment) db_op" where
  "payment_GetByID pid = auto_stmt (select_payment (\<lambda>p. bp_ID p = pid))"

definition GetByGatewayPaymentID ::
  "string \<Rightarrow> string \<Rightarrow> ('r payments_db_scheme, BillingPayment) db_op" where
  "GetByGatewayPaymentID gateway gatewayPaymentID =
     auto_stmt (select_payment (\<lambda>p. bp_Gateway p = gateway \<and>
                                    bp_GatewayPaymentID p = Some gatewayPaymentID))"

text \<open>\<^verbatim>\<open>COALESCE($2, gateway_payment_id)\<close> keeps the column when the argument is NULL.\<close>

definition payment_UpdateStatus ::
  "string \<Rightarrow> string \<Rightarrow> string option \<Rightarrow> ('r payments_db_scheme, unit) db_op" where
  "payment_UpdateStatus pid status gatewayPaymentID =
     bind_db
       (auto_stmt (update_payments (\<lambda>p. bp_ID p = pid)
          (\<lambda>p. p\<lparr>bp_Status := status,
                 bp_GatewayPaymentID := (case gatewayPaymentID of None \<Rightarrow> bp_GatewayPaymentID p
                                         | Some g \<Rightarrow> Some g)\<rparr>)))
       (\<lambda>n. if n = 0 then throw_db (ErrMsg ''payment not found'') else return_db ())"

subsection \<open>Steps inside a settlement transaction\<close>

text \<open>\<^verbatim>\<open>pg_advisory_xact_lock\<close> orders concurrent settlements of one gateway payment; it reads and
  writes no table.\<close>

definition lockGatewayPaymentID :: "string \<Rightarrow> string \<Rightarrow> ('r payments_db_scheme, unit) db_op" where
  "lockGatewayPaymentID gateway gatewayPaymentID = tx_stmt (return_db ())"

text \<open>A row read inside a transaction: \<open>ErrNoRows\<close> becomes \<open>ErrNotFound\<close>.\<close>

definition lock_payment ::
  "string \<Rightarrow> string \<Rightarrow> ('r payments_db_scheme, BillingPayment) db_op" where
  "lock_payment pid gateway = tx_stmt (select_payment (\<lambda>p. bp_ID p = pid \<and> bp_Gateway p = gateway))"

definition metadata_member :: "string \<Rightarrow> (string \<times> string) list option \<Rightarrow> string option" where
  "metadata_member key metadata = (case metadata of None \<Rightarrow> None | Some m \<Rightarrow> map_of m key)"

definition canClaimPayPalCapture ::
  "string \<Rightarrow> string \<Rightarrow> string \<Rightarrow> ('r payments_db_scheme, bool) db_op" where
  "canClaimPayPalCapture pid orderID captureID =
     bind_db (lock_payment pid PaymentGatewayPayPal) (\<lambda>p.
       let currentCaptureID = metadata_member ''paypal_capture_id'' (bp_Metadata p) in
       if bp_GatewayPaymentID p \<noteq> Some orderID then return_db False
       else if bp_Status p = PaymentStatusCompleted then return_db (currentCaptureID = Some captureID)
       else if bp_Status p = PaymentStatusRefunded \<or> bp_Status p = PaymentStatusFailed then return_db False
       else if currentCaptureID \<noteq> None \<and> currentCaptureID \<noteq> Some captureID then return_db False
       else return_db True)"

definition canClaimLocalPayment ::
  "string \<Rightarrow> string \<Rightarrow> string \<Rightarrow> ('r payments_db_scheme, bool) db_op" where
  "canClaimLocalPayment pid gateway gatewayPaymentID =
     bind_db (lock_payment pid gateway) (\<lambda>p.
       if bp_Status p = PaymentStatusCompleted \<and> bp_GatewayPaymentID p \<noteq> Some gatewayPaymentID
       then return_db False
       else if bp_Status p = PaymentStatusRefunded \<or> bp_Status p = PaymentStatusFailed then return_db False
       else return_db True)"

definition hasOtherGatewayPayment ::
  "string \<Rightarrow> string \<Rightarrow> string \<Rightarrow> ('r payments_db_scheme, bool) db_op" where
  "hasOtherGatewayPayment pid gateway gatewayPaymentID =
     tx_stmt (\<lambda>s. (Inr (list_ex (\<lambda>p. bp_Gateway p = gateway \<and>
         bp_GatewayPaymentID p = Some gatewayPaymentID \<and> bp_ID p \<noteq> pid) (payments s)), s))"

definition hasOtherPayPalCapture :: "string \<Rightarrow> string \<Rightarrow> ('r payments_db_scheme, bool) db_op" where
  "hasOtherPayPalCapture pid captureID =
     tx_stmt (\<lambda>s. (Inr (list_ex (\<lambda>p. bp_Gateway p = PaymentGatewayPayPal \<and>
         metadata_member ''paypal_capture_id'' (bp_Metadata p) = Some captureID \<and> bp_ID p \<noteq> pid)
         (payments s)), s))"

definition require_row :: "nat \<Rightarrow> ('r payments_db_scheme, unit) db_op" where
  "require_row n = (if n = 0 then throw_db ErrNotFound else return_db ())"

definition updatePaymentCompletedTx ::
  "string \<Rightarrow> string \<Rightarrow> string \<Rightarrow> ('r payments_db_scheme, unit) db_op" where
  "updatePaymentCompletedTx pid gateway gatewayPaymentID =
     bind_db
       (tx_stmt (update_payments (\<lambda>p. bp_ID p = pid \<and> bp_Gateway p = gateway)
          (\<lambda>p. p\<lparr>bp_Status := PaymentStatusCompleted, bp_GatewayPaymentID := Some gatewayPaymentID\<rparr>)))
       require_row"

text \<open>\<^verbatim>\<open>jsonb_set\<close> on one member, creating the object or the member when it is missing.\<close>

definition jsonb_set ::
  "string \<Rightarrow> string \<Rightarrow> (string \<times> string) list option \<Rightarrow> (string \<times> string) list option" where
  "jsonb_set key v metadata =
     Some ((key, v) # filter (\<lambda>m. fst m \<noteq> key) (case metadata of None \<Rightarrow> [] | Some m \<Rightarrow> m))"

definition updatePayPalCaptureCompletedTx ::
  "string \<Rightarrow> string \<Rightarrow> string \<Rightarrow> ('r payments_db_scheme, unit) db_op" where
  "updatePayPalCaptureCompletedTx pid orderID captureID =
     bind_db
       (tx_stmt (update_payments (\<lambda>p. bp_ID p = pid \<and> bp_Gateway p = PaymentGatewayPayPal)
          (\<lambda>p. p\<lparr>bp_Status := PaymentStatusCompleted, bp_GatewayPaymentID := Some orderID,
                 bp_Metadata := jsonb_set ''paypal_capture_id'' captureID (bp_Metadata p)\<rparr>)))
       require_row"

definition updatePaymentRefundedTx :: "string \<Rightarrow> string \<Rightarrow> ('r payments_db_scheme, unit) db_op" where
  "updatePaymentRefundedTx pid customerID =
     bind_db
       (tx_stmt (update_payments (\<lambda>p. bp_ID p = pid \<and> bp_CustomerID p = customerID)
          (\<lambda>p. p\<lparr>bp_Status := PaymentStatusRefunded\<rparr>)))
       require_row"

definition creditAccountTx ::
  "string \<Rightarrow> int64 \<Rightarrow> string \<Rightarrow> string \<Rightarrow> ('r ledger_db_scheme, BillingTransaction) db_op" where
  "creditAccountTx customerID amount description idempotencyKey =
     bind_db (findMatchingIdempotencyKey customerID idempotencyKey BillingTxTypeCredit amount None None)
       (\<lambda>existing. case existing of
          Some bt \<Rightarrow> return_db bt
        | None \<Rightarrow>
            bind_db (lockAndUpdateBalance customerID amount) (\<lambda>newBalance.
              insertTransaction customerID BillingTxTypeCredit amount newBalance description
                None None (Some idempotencyKey)))"

definition debitAccountTx ::
  "string \<Rightarrow> int64 \<Rightarrow> string \<Rightarrow> string option \<Rightarrow> string option \<Rightarrow> string
   \<Rightarrow> ('r ledger_db_scheme, BillingTransaction) db_op" where
  "debitAccountTx customerID amount description referenceType referenceID idempotencyKey =
     bind_db (findMatchingIdempotencyKey customerID idempotencyKey BillingTxTypeDebit amount
                referenceType referenceID)
       (\<lambda>existing. case existing of
          Some bt \<Rightarrow> return_db bt
        | None \<Rightarrow>
            bind_db (lockAndUpdateBalance customerID (- amount)) (\<lambda>newBalance.
              insertTransaction customerID BillingTxTypeDebit amount newBalance description
                referenceType referenceID (Some idempotencyKey)))"

definition claimGatewayPaymentTx ::
  "string \<Rightarrow> string \<Rightarrow> string \<Rightarrow> ('r payments_db_scheme, bool) db_op" where
  "claimGatewayPaymentTx pid gateway gatewayPaymentID =
     bind_db (lockGatewayPaymentID gateway gatewayPaymentID) (\<lambda>_.
     bind_db (canClaimLocalPayment pid gateway gatewayPaymentID) (\<lambda>canClaim.
       if \<not> canClaim then return_db False else
     bind_db (hasOtherGatewayPayment pid gateway gatewayPaymentID) (\<lambda>claimed.
       if claimed then return_db False else
     bind_db (updatePaymentCompletedTx pid gateway gatewayPaymentID) (\<lambda>_.
       return_db True))))"

definition claimPayPalCaptureTx ::
  "string \<Rightarrow> string \<Rightarrow> string \<Rightarrow> ('r payments_db_scheme, bool) db_op" where
  "claimPayPalCaptureTx pid orderID captureID =
     bind_db (lockGatewayPaymentID ''paypal_capture'' captureID) (\<lambda>_.
     bind_db (canClaimPayPalCapture pid orderID captureID) (\<lambda>canClaim.
       if \<not> canClaim then return_db False else
     bind_db (hasOtherPayPalCapture pid captureID) (\<lambda>claimed.
       if claimed then return_db False else
     bind_db (updatePayPalCaptureCompletedTx pid orderID captureID) (\<lambda>_.
       return_db True))))"

subsection \<open>Settlement transactions\<close>

definition CompleteWithGatewayPaymentID ::
  "string \<Rightarrow> string \<Rightarrow> string \<Rightarrow> ('r payments_db_scheme, bool) db_op" where
  "CompleteWithGatewayPaymentID pid gateway gatewayPaymentID =
     transaction
       (bind_db (claimGatewayPaymentTx pid gateway gatewayPaymentID) (\<lambda>claimed.
          return_db (if claimed then Commit True else Abandon False)))"

definition CompleteWithGatewayPaymentIDAndCredit ::
  "PaymentCompletionCredit \<Rightarrow> ('r payments_db_scheme, bool) db_op" where
  "CompleteWithGatewayPaymentIDAndCredit req =
     transaction
       (bind_db (claimGatewayPaymentTx (pcc_PaymentID req) (pcc_Gateway req) (pcc_GatewayPaymentID req))
          (\<lambda>claimed.
             if \<not> claimed then return_db (Abandon False) else
             bind_db (creditAccountTx (pcc_CustomerID req) (pcc_Amount req) (pcc_Description req)
                        (pcc_IdempotencyKey req))
               (\<lambda>_. return_db (Commit True))))"

definition CompletePayPalCapture ::
  "string \<Rightarrow> string \<Rightarrow> string \<Rightarrow> ('r payments_db_scheme, bool) db_op" where
  "CompletePayPalCapture pid orderID captureID =
     transaction
       (bind_db (claimPayPalCaptureTx pid orderID captureID) (\<lambda>claimed.
          return_db (if claimed then Commit True else Abandon False)))"

definition CompletePayPalCaptureAndCredit ::
  "PayPalCaptureCredit \<Rightarrow> ('r payments_db_scheme, bool) db_op" where
  "CompletePayPalCaptureAndCredit req =
     transaction
       (bind_db (claimPayPalCaptureTx (ppc_PaymentID req) (ppc_OrderID req) (ppc_CaptureID req))
          (\<lambda>claimed.
             if \<not> claimed then return_db (Abandon False) else
             bind_db (creditAccountTx (ppc_CustomerID req) (ppc_Amount req) (ppc_Description req)
                        (ppc_IdempotencyKey req))
               (\<lambda>_. return_db (Commit True))))"

definition MarkRefundedAndDebit :: "PaymentRefundDebit \<Rightarrow> ('r payments_db_scheme, unit) db_op" where
  "MarkRefundedAndDebit req =
     transaction
       (bind_db (updatePaymentRefundedTx (prd_PaymentID req) (prd_CustomerID req)) (\<lambda>_.
        bind_db (debitAccountTx (prd_CustomerID req) (prd_Amount req) (prd_Description req)
                   (Some BillingRefTypeRefund) (Some (prd_PaymentID req)) (prd_IdempotencyKey req)) (\<lambda>_.
        return_db (Commit ()))))"

subsection \<open>Listings\<close>

definition payments_newest_first :: "BillingPayment list \<Rightarrow> BillingPayment list" where
  "payments_newest_first ps = rev (sort_key (\<lambda>p. (bp_CreatedAt p, bp_ID p)) ps)"

definition payment_ListByCustomer ::
  "string \<Rightarrow> nat \<Rightarrow> string \<Rightarrow> ('r payments_db_scheme, BillingPayment list \<times> bool \<times> string) db_op" where
  "payment_ListByCustomer customerID perPage lastID =
     auto_stmt (\<lambda>s.
       let rows = filter (\<lambda>p. bp_CustomerID p = customerID \<and> (lastID \<noteq> '''' \<longrightarrow> bp_ID p < lastID)) (payments s)
       in (Inr (TrimResults bp_ID perPage (take (Suc perPage) (payments_newest_first rows))), s))"

record BillingPaymentListFilter =
  plf_CustomerID :: "string option"
  plf_Gateway :: "string option"
  plf_Status :: "string option"
  plf_PerPage :: nat
  plf_LastID :: string

definition payment_ListAll ::
  "BillingPaymentListFilter \<Rightarrow> ('r payments_db_scheme, BillingPayment list \<times> bool \<times> string) db_op" where
  "payment_ListAll f =
     auto_stmt (\<lambda>s.
       let wanted = (\<lambda>col v. case v of None \<Rightarrow> True | Some x \<Rightarrow> col = x);
           rows = filter (\<lambda>p. wanted (bp_CustomerID p) (plf_CustomerID f) \<and>
                    wanted (bp_Gateway p) (plf_Gateway f) \<and> wanted (bp_Status p) (plf_Status f) \<and>
                    (plf_LastID f \<noteq> '''' \<longrightarrow> bp_ID p < plf_LastID f)) (payments s)
       in (Inr (TrimResults bp_ID (plf_PerPage f) (take (Suc (plf_PerPage f)) (payments_newest_first rows))), s))"

section \<open>What the transactions do to the tables\<close>

lemma payments_tables [simp]: "payments (tables s) = payments s"
  by (simp add: tables_def)

lemma tables_payments_update [simp]:
  "tables (s\<lparr>payments := ps\<rparr>) = (tables s)\<lparr>payments := ps\<rparr>"
  by (simp add: tables_def)

lemma payments_eqD:
  fixes s t :: "'r payments_db_scheme"
  assumes "tables s = tables t"
  shows "payments s = payments t" "clock s = clock t"
  using arg_cong [OF assms, of payments] arg_cong [OF assms, of clock] by simp_all

lemma posted_payments:
  fixes s t :: "'r payments_db_scheme"
  assumes "posted c ty a d rt ri key s bt t"
  shows "payments t = payments s" "clock t = clock s"
proof -
  from assms obtain b where
    "tables t = tables (s\<lparr>balances := (balances s)(c \<mapsto> b + d), ledger := ledger s @ [bt]\<rparr>)"
    by (auto simp: posted_def)
  then show "payments t = payments s" "clock t = clock s" using payments_eqD by fastforce+
qed

text \<open>An entry that credits \<open>a\<close> to customer \<open>c\<close> under key \<open>k\<close>.\<close>

definition credit_entry :: "string \<Rightarrow> int64 \<Rightarrow> string \<Rightarrow> BillingTransaction \<Rightarrow> bool" where
  "credit_entry c a k e \<longleftrightarrow> has_key c k e \<and> billingTxMatches e BillingTxTypeCredit a None None"

text \<open>Both in-transaction postings are one: replay the entry under the key or book a new one.\<close>

definition post_tx ::
  "string \<Rightarrow> string \<Rightarrow> int64 \<Rightarrow> int64 \<Rightarrow> string \<Rightarrow> string option \<Rightarrow> string option \<Rightarrow> string
   \<Rightarrow> ('r ledger_db_scheme, BillingTransaction) db_op" where
  "post_tx c ty a d ds rt ri k =
     bind_db (findMatchingIdempotencyKey c k ty a rt ri)
       (\<lambda>existing. case existing of
          Some bt \<Rightarrow> return_db bt
        | None \<Rightarrow> bind_db (lockAndUpdateBalance c d)
                    (\<lambda>nb. insertTransaction c ty a nb ds rt ri (Some k)))"

lemma creditAccountTx_post: "creditAccountTx c a ds k = post_tx c BillingTxTypeCredit a a ds None None k"
  by (simp add: creditAccountTx_def post_tx_def)

lemma debitAccountTx_post:
  "debitAccountTx c a ds rt ri k = post_tx c BillingTxTypeDebit a (- a) ds rt ri k"
  by (simp add: debitAccountTx_def post_tx_def)

lemma post_tx_Inr:
  assumes "post_tx c ty a d ds rt ri k s = (Inr bt, t)"
  obtains (existing) "tables t = tables s" "bt \<in> set (ledger s)" "has_key c k bt"
      "billingTxMatches bt ty a rt ri"
  | (fresh) "posted c ty a d rt ri (Some k) s bt t"
proof -
  from assms obtain ex s1 where
    1: "findMatchingIdempotencyKey c k ty a rt ri s = (Inr ex, s1)"
    and 2: "(case ex of Some bt \<Rightarrow> return_db bt
             | None \<Rightarrow> bind_db (lockAndUpdateBalance c d)
                 (\<lambda>nb. insertTransaction c ty a nb ds rt ri (Some k))) s1 = (Inr bt, t)"
    unfolding post_tx_def by (rule bind_db_Inr)
  show thesis
  proof (cases ex)
    case None
    have s1: "tables s1 = tables s" using findMatching_None 1 None by blast
    have "posted c ty a d rt ri (Some k) s1 bt t" using 2 None by (intro post_Inr) simp
    then show thesis using fresh posted_cong [OF s1 refl] by blast
  next
    case (Some x)
    have "x = bt" "t = s1" using 2 Some by (auto simp: return_db_def)
    then show thesis using existing findMatching_Some [OF 1 [unfolded Some]] by blast
  qed
qed

text \<open>The rows of payment \<open>pid\<close> at \<open>gateway\<close> rewritten by \<open>f\<close>, as one \<^verbatim>\<open>UPDATE\<close> does it.\<close>

definition rewrite_row ::
  "string \<Rightarrow> string \<Rightarrow> int \<Rightarrow> (BillingPayment \<Rightarrow> BillingPayment) \<Rightarrow> BillingPayment list \<Rightarrow> BillingPayment list" where
  "rewrite_row pid gateway now f ps =
     map (\<lambda>p. if bp_ID p = pid \<and> bp_Gateway p = gateway then (f p)\<lparr>bp_UpdatedAt := now\<rparr> else p) ps"

lemma update_tx_Inr:
  fixes s :: "'r payments_db_scheme"
  assumes "bind_db (tx_stmt (update_payments sel f)) require_row s = (Inr u, t)"
  shows "tables t = tables (s\<lparr>payments :=
      map (\<lambda>p. if sel p then (f p)\<lparr>bp_UpdatedAt := clock s\<rparr> else p) (payments s)\<rparr>)"
    and "\<exists>p\<in>set (payments s). sel p"
proof -
  from assms obtain n s1 where 1: "tx_stmt (update_payments sel f) s = (Inr n, s1)"
    and 2: "require_row n s1 = (Inr u, t)" by (rule bind_db_Inr)
  from 2 have n: "n \<noteq> 0" and t: "t = s1"
    by (auto simp: require_row_def throw_db_def return_db_def split: if_splits)
  from 1 obtain s0 where s0: "tables s0 = tables s" "update_payments sel f s0 = (Inr n, s1)"
    by (cases rule: tx_stmt_cases) auto
  note eq = payments_eqD [OF s0(1)]
  show "tables t = tables (s\<lparr>payments :=
      map (\<lambda>p. if sel p then (f p)\<lparr>bp_UpdatedAt := clock s\<rparr> else p) (payments s)\<rparr>)"
    using s0 t eq by (auto simp: update_payments_def)
  show "\<exists>p\<in>set (payments s). sel p"
    using s0(2) n eq by (auto simp: update_payments_def filter_empty_conv)
qed

lemma lock_payment_Inr:
  assumes "lock_payment pid gw s = (Inr p, t)"
  shows "p \<in> set (payments s) \<and> bp_ID p = pid \<and> bp_Gateway p = gw \<and> tables t = tables s"
  using assms unfolding lock_payment_def
proof (cases rule: tx_stmt_cases)
  case (2 s1)
  then show ?thesis using payments_eqD(1) [OF 2(1)]
    by (auto simp: select_payment_def find_Some_iff split: option.splits)
qed auto

section \<open>Claims\<close>

text \<open>The idempotency key under which the credit of a gateway payment is booked, and the key the
  columns of a row stand for: a PayPal row keeps its order in \<^verbatim>\<open>gateway_payment_id\<close> and its
  capture in the metadata, the others keep the gateway's payment in the column.\<close>

definition settlement_key :: "string \<Rightarrow> string \<Rightarrow> string" where
  "settlement_key gateway g =
     (if gateway = PaymentGatewayPayPal then ''paypal:capture:'' @ g
      else if gateway = PaymentGatewayBTCPay then ''btcpay:invoice:'' @ g
      else gateway @ '':payment:'' @ g)"

definition credit_key :: "BillingPayment \<Rightarrow> string option" where
  "credit_key p = map_option (settlement_key (bp_Gateway p))
     (if bp_Gateway p = PaymentGatewayPayPal
      then metadata_member ''paypal_capture_id'' (bp_Metadata p)
      else bp_GatewayPaymentID p)"

lemma settlement_key_inj [simp]: "settlement_key gw g = settlement_key gw h \<longleftrightarrow> g = h"
  by (auto simp: settlement_key_def)

lemma credit_key_UpdatedAt [simp]: "credit_key (p\<lparr>bp_UpdatedAt := n\<rparr>) = credit_key p"
  by (simp add: credit_key_def)

lemma metadata_jsonb_set [simp]: "metadata_member k (jsonb_set k v m) = Some v"
  by (simp add: metadata_member_def jsonb_set_def)

lemma status_distinct [simp]:
  "PaymentStatusPending \<noteq> PaymentStatusCompleted" "PaymentStatusPending \<noteq> PaymentStatusFailed"
  "PaymentStatusPending \<noteq> PaymentStatusRefunded" "PaymentStatusCompleted \<noteq> PaymentStatusFailed"
  "PaymentStatusCompleted \<noteq> PaymentStatusRefunded" "PaymentStatusFailed \<noteq> PaymentStatusRefunded"
  "PaymentStatusCompleted \<noteq> PaymentStatusPending" "PaymentStatusFailed \<noteq> PaymentStatusPending"
  "PaymentStatusRefunded \<noteq> PaymentStatusPending" "PaymentStatusFailed \<noteq> PaymentStatusCompleted"
  "PaymentStatusRefunded \<noteq> PaymentStatusCompleted" "PaymentStatusRefunded \<noteq> PaymentStatusFailed"
  by (simp_all add: status_defs)

text \<open>A rewriting that completes the row under key \<open>k\<close> and keeps what identifies the payment.\<close>

definition completes :: "string \<Rightarrow> string \<Rightarrow> (BillingPayment \<Rightarrow> BillingPayment) \<Rightarrow> bool" where
  "completes gw k f \<longleftrightarrow> (\<forall>p. bp_Gateway p = gw \<longrightarrow>
     bp_Status (f p) = PaymentStatusCompleted \<and> credit_key (f p) = Some k \<and>
     bp_ID (f p) = bp_ID p \<and> bp_Gateway (f p) = bp_Gateway p \<and>
     bp_CustomerID (f p) = bp_CustomerID p \<and> bp_Amount (f p) = bp_Amount p)"

text \<open>A successful claim: the payment exists, it is open or already completed under the same key,
  no other payment of the gateway holds the key, and its row is completed.\<close>

definition claims ::
  "string \<Rightarrow> string \<Rightarrow> string \<Rightarrow> 'r payments_db_scheme \<Rightarrow> 'r payments_db_scheme \<Rightarrow> bool" where
  "claims pid gw k s t \<longleftrightarrow>
     (\<exists>p\<in>set (payments s). bp_ID p = pid \<and> bp_Gateway p = gw \<and>
        bp_Status p \<noteq> PaymentStatusRefunded \<and> bp_Status p \<noteq> PaymentStatusFailed \<and>
        (bp_Status p = PaymentStatusCompleted \<longrightarrow> credit_key p = Some k)) \<and>
     (\<forall>q\<in>set (payments s). bp_Gateway q = gw \<and> credit_key q = Some k \<longrightarrow> bp_ID q = pid) \<and>
     (\<exists>f now. completes gw k f \<and>
        tables t = tables (s\<lparr>payments := rewrite_row pid gw now f (payments s)\<rparr>))"

lemma lockGatewayPaymentID_Inr: "lockGatewayPaymentID gw g s = (Inr u, t) \<Longrightarrow> tables t = tables s"
  unfolding lockGatewayPaymentID_def by (cases rule: tx_stmt_cases) (auto simp: return_db_def)

lemma canClaimLocalPayment_True:
  assumes "canClaimLocalPayment pid gw g s = (Inr True, t)"
  shows "tables t = tables s \<and> (\<exists>p\<in>set (payments s). bp_ID p = pid \<and> bp_Gateway p = gw \<and>
        bp_Status p \<noteq> PaymentStatusRefunded \<and> bp_Status p \<noteq> PaymentStatusFailed \<and>
        (bp_Status p = PaymentStatusCompleted \<longrightarrow> bp_GatewayPaymentID p = Some g))"
  using assms unfolding canClaimLocalPayment_def
  by (auto simp: return_db_def split: if_splits dest!: lock_payment_Inr)

lemma canClaimPayPalCapture_True:
  assumes "canClaimPayPalCapture pid oid cid s = (Inr True, t)"
  shows "tables t = tables s \<and> (\<exists>p\<in>set (payments s). bp_ID p = pid \<and> bp_Gateway p = PaymentGatewayPayPal \<and>
        bp_GatewayPaymentID p = Some oid \<and>
        bp_Status p \<noteq> PaymentStatusRefunded \<and> bp_Status p \<noteq> PaymentStatusFailed \<and>
        (bp_Status p = PaymentStatusCompleted \<longrightarrow>
           metadata_member ''paypal_capture_id'' (bp_Metadata p) = Some cid))"
  using assms unfolding canClaimPayPalCapture_def Let_def
  by (auto simp: return_db_def split: if_splits dest!: lock_payment_Inr)

lemma hasOtherGatewayPayment_False:
  assumes "hasOtherGatewayPayment pid gw g s = (Inr False, t)"
  shows "tables t = tables s \<and>
    (\<forall>q\<in>set (payments s). bp_Gateway q = gw \<and> bp_GatewayPaymentID q = Some g \<longrightarrow> bp_ID q = pid)"
  using assms unfolding hasOtherGatewayPayment_def
proof (cases rule: tx_stmt_cases)
  case (2 s1)
  then show ?thesis using payments_eqD(1) [OF 2(1)] by (auto simp: list_ex_iff)
qed simp

lemma hasOtherPayPalCapture_False:
  assumes "hasOtherPayPalCapture pid cid s = (Inr False, t)"
  shows "tables t = tables s \<and>
    (\<forall>q\<in>set (payments s). bp_Gateway q = PaymentGatewayPayPal \<and>
       metadata_member ''paypal_capture_id'' (bp_Metadata q) = Some cid \<longrightarrow> bp_ID q = pid)"
  using assms unfolding hasOtherPayPalCapture_def
proof (cases rule: tx_stmt_cases)
  case (2 s1)
  then show ?thesis using payments_eqD(1) [OF 2(1)] by (auto simp: list_ex_iff)
qed simp

lemma claimGatewayPaymentTx_True:
  assumes claim: "claimGatewayPaymentTx pid gw g s = (Inr True, t)" and gw: "gw \<noteq> PaymentGatewayPayPal"
  shows "claims pid gw (settlement_key gw g) s t"
proof -
  let ?f = "\<lambda>p. p\<lparr>bp_Status := PaymentStatusCompleted, bp_GatewayPaymentID := Some g\<rparr>"
  from claim obtain s1 s2 s3 where
    1: "lockGatewayPaymentID gw g s = (Inr (), s1)" and
    2: "canClaimLocalPayment pid gw g s1 = (Inr True, s2)" and
    3: "hasOtherGatewayPayment pid gw g s2 = (Inr False, s3)" and
    4: "updatePaymentCompletedTx pid gw g s3 = (Inr (), t)"
    unfolding claimGatewayPaymentTx_def by (auto simp: return_db_def split: if_splits)
  have s1: "tables s1 = tables s" by (rule lockGatewayPaymentID_Inr [OF 1])
  note c = canClaimLocalPayment_True [OF 2]
  have s2: "tables s2 = tables s" using c s1 by simp
  note h = hasOtherGatewayPayment_False [OF 3]
  have s3: "tables s3 = tables s" using h s2 by simp
  have other: "\<forall>q\<in>set (payments s). bp_Gateway q = gw \<and> bp_GatewayPaymentID q = Some g \<longrightarrow> bp_ID q = pid"
    using h payments_eqD(1) [OF s2] by simp
  have t: "tables t = tables (s\<lparr>payments := rewrite_row pid gw (clock s3) ?f (payments s)\<rparr>)"
    using update_tx_Inr(1) [OF 4 [unfolded updatePaymentCompletedTx_def]] s3 payments_eqD(1) [OF s3]
    by (simp add: rewrite_row_def)
  have f: "completes gw (settlement_key gw g) ?f" using gw by (simp add: completes_def credit_key_def)
  show ?thesis unfolding claims_def
  proof (intro conjI)
    show "\<exists>p\<in>set (payments s). bp_ID p = pid \<and> bp_Gateway p = gw \<and>
        bp_Status p \<noteq> PaymentStatusRefunded \<and> bp_Status p \<noteq> PaymentStatusFailed \<and>
        (bp_Status p = PaymentStatusCompleted \<longrightarrow> credit_key p = Some (settlement_key gw g))"
      using c payments_eqD(1) [OF s1] gw by (auto simp: credit_key_def)
    show "\<forall>q\<in>set (payments s). bp_Gateway q = gw \<and> credit_key q = Some (settlement_key gw g) \<longrightarrow> bp_ID q = pid"
      using other gw by (auto simp: credit_key_def)
  qed (use f t in blast)
qed

lemma claimPayPalCaptureTx_True:
  assumes claim: "claimPayPalCaptureTx pid oid cid s = (Inr True, t)"
  shows "claims pid PaymentGatewayPayPal (settlement_key PaymentGatewayPayPal cid) s t"
proof -
  let ?gw = PaymentGatewayPayPal
  let ?f = "\<lambda>p. p\<lparr>bp_Status := PaymentStatusCompleted, bp_GatewayPaymentID := Some oid,
                 bp_Metadata := jsonb_set ''paypal_capture_id'' cid (bp_Metadata p)\<rparr>"
  from claim obtain s1 s2 s3 where
    1: "lockGatewayPaymentID ''paypal_capture'' cid s = (Inr (), s1)" and
    2: "canClaimPayPalCapture pid oid cid s1 = (Inr True, s2)" and
    3: "hasOtherPayPalCapture pid cid s2 = (Inr False, s3)" and
    4: "updatePayPalCaptureCompletedTx pid oid cid s3 = (Inr (), t)"
    unfolding claimPayPalCaptureTx_def by (auto simp: return_db_def split: if_splits)
  have s1: "tables s1 = tables s" by (rule lockGatewayPaymentID_Inr [OF 1])
  note c = canClaimPayPalCapture_True [OF 2]
  have s2: "tables s2 = tables s" using c s1 by simp
  note h = hasOtherPayPalCapture_False [OF 3]
  have s3: "tables s3 = tables s" using h s2 by simp
  have other: "\<forall>q\<in>set (payments s). bp_Gateway q = ?gw \<and>
      metadata_member ''paypal_capture_id'' (bp_Metadata q) = Some cid \<longrightarrow> bp_ID q = pid"
    using h payments_eqD(1) [OF s2] by simp
  have t: "tables t = tables (s\<lparr>payments := rewrite_row pid ?gw (clock s3) ?f (payments s)\<rparr>)"
    using update_tx_Inr(1) [OF 4 [unfolded updatePayPalCaptureCompletedTx_def]] s3 payments_eqD(1) [OF s3]
    by (simp add: rewrite_row_def)
  have f: "completes ?gw (settlement_key ?gw cid) ?f" by (simp add: completes_def credit_key_def)
  show ?thesis unfolding claims_def
  proof (intro conjI)
    show "\<exists>p\<in>set (payments s). bp_ID p = pid \<and> bp_Gateway p = ?gw \<and>
        bp_Status p \<noteq> PaymentStatusRefunded \<and> bp_Status p \<noteq> PaymentStatusFailed \<and>
        (bp_Status p = PaymentStatusCompleted \<longrightarrow> credit_key p = Some (settlement_key ?gw cid))"
      using c payments_eqD(1) [OF s1] by (auto simp: credit_key_def)
    show "\<forall>q\<in>set (payments s). bp_Gateway q = ?gw \<and> credit_key q = Some (settlement_key ?gw cid) \<longrightarrow> bp_ID q = pid"
      using other by (auto simp: credit_key_def)
  qed (use f t in blast)
qed

section \<open>The payments invariant and the account of credits\<close>

definition backed :: "BillingTransaction list \<Rightarrow> BillingPayment \<Rightarrow> bool" where
  "backed l p = (case credit_key p of None \<Rightarrow> False
     | Some k \<Rightarrow> list_ex (credit_entry (bp_CustomerID p) (bp_Amount p) k) l)"

text \<open>Identifiers are unique, every completed payment is backed by a credit of its customer and
  amount booked under its key, and no gateway payment completes two local payments.\<close>

definition rows_ok :: "BillingPayment list \<Rightarrow> BillingTransaction list \<Rightarrow> bool" where
  "rows_ok ps l \<longleftrightarrow>
     distinct (map bp_ID ps) \<and>
     (\<forall>p\<in>set ps. bp_Status p \<in> {PaymentStatusPending, PaymentStatusCompleted, PaymentStatusFailed,
                                  PaymentStatusRefunded}) \<and>
     (\<forall>p\<in>set ps. bp_Status p = PaymentStatusCompleted \<longrightarrow> backed l p) \<and>
     (\<forall>p\<in>set ps. \<forall>q\<in>set ps. bp_Status p = PaymentStatusCompleted \<and> bp_Status q = PaymentStatusCompleted \<and>
        bp_Gateway p = bp_Gateway q \<and> credit_key p = credit_key q \<longrightarrow> bp_ID p = bp_ID q)"

definition pay_inv :: "'r payments_db_scheme \<Rightarrow> bool" where
  "pay_inv s \<longleftrightarrow> ledger_inv s \<and> rows_ok (payments s) (ledger s)"

text \<open>How many credits of \<open>a\<close> a customer has been given, and how many of the customer's payments of
  \<open>a\<close> have left the pending state.\<close>

definition credits_count :: "BillingTransaction list \<Rightarrow> string \<Rightarrow> int64 \<Rightarrow> nat" where
  "credits_count l c a =
     length (filter (\<lambda>e. bt_CustomerID e = c \<and> bt_Type e = BillingTxTypeCredit \<and> bt_Amount e = a) l)"

definition closed_count :: "BillingPayment list \<Rightarrow> string \<Rightarrow> int64 \<Rightarrow> nat" where
  "closed_count ps c a =
     length (filter (\<lambda>p. bp_CustomerID p = c \<and> bp_Amount p = a \<and> bp_Status p \<noteq> PaymentStatusPending) ps)"

text \<open>Between two states, every new credit is matched by a payment of the same customer and amount
  that left the pending state meanwhile.\<close>

definition accounted :: "'r payments_db_scheme \<Rightarrow> 'r payments_db_scheme \<Rightarrow> bool" where
  "accounted s t \<longleftrightarrow> (\<forall>c a. credits_count (ledger t) c a + closed_count (payments s) c a
                             \<le> credits_count (ledger s) c a + closed_count (payments t) c a)"

lemma accounted_refl: "ledger t = ledger s \<Longrightarrow> payments t = payments s \<Longrightarrow> accounted s t"
  by (simp add: accounted_def)

lemma accounted_trans:
  assumes "accounted s t" "accounted t u"
  shows "accounted s u"
  unfolding accounted_def
proof (intro allI)
  fix c a
  show "credits_count (ledger u) c a + closed_count (payments s) c a
        \<le> credits_count (ledger s) c a + closed_count (payments u) c a"
    using assms [unfolded accounted_def, rule_format, of c a] by linarith
qed

lemma env_free_pay_inv: "env_free pay_inv"
  using env_free_ledger_inv by (simp add: env_free_def pay_inv_def ledger_inv_def)

lemma pay_inv_tables: "tables s = tables t \<Longrightarrow> pay_inv s = pay_inv t"
  using env_freeD [OF env_free_pay_inv] by blast

lemma accounted_tables:
  assumes "tables s = tables s'" "tables t = tables t'"
  shows "accounted s t = accounted s' t'"
  using payments_eqD(1) [OF assms(1)] payments_eqD(1) [OF assms(2)] tables_eqD(2) [OF assms(1)]
    tables_eqD(2) [OF assms(2)] by (simp add: accounted_def)

lemma backed_mono: "backed l p \<Longrightarrow> set l \<subseteq> set l' \<Longrightarrow> backed l' p"
  by (auto simp: backed_def list_ex_iff split: option.splits)

lemma backed_UpdatedAt [simp]: "backed l (p\<lparr>bp_UpdatedAt := n\<rparr>) = backed l p"
  by (cases "credit_key p") (simp_all add: backed_def)

lemma filter_rewrite_mono:
  assumes "\<And>x. x \<in> set xs \<Longrightarrow> P x \<Longrightarrow> P (g x)"
  shows "length (filter P xs) \<le> length (filter P (map g xs))"
  using assms by (induction xs) (auto intro: le_SucI)

lemma filter_rewrite_Suc:
  assumes "\<And>x. x \<in> set xs \<Longrightarrow> P x \<Longrightarrow> P (g x)" and "x \<in> set xs" "\<not> P x" "P (g x)"
  shows "Suc (length (filter P xs)) \<le> length (filter P (map g xs))"
  using assms
proof (induction xs)
  case (Cons y ys)
  have "length (filter P ys) \<le> length (filter P (map g ys))"
    using Cons.prems(1) by (intro filter_rewrite_mono) simp
  moreover have "Suc (length (filter P ys)) \<le> length (filter P (map g ys))" if "x \<in> set ys"
    using Cons.IH Cons.prems that by simp
  ultimately show ?case using Cons.prems by (cases "x = y") auto
qed simp

lemma ledger_inv_cong:
  assumes "balances s = balances t" "ledger s = ledger t"
  shows "ledger_inv s = ledger_inv t"
  using assms by (simp add: ledger_inv_def)

lemma rewrite_row_id:
  assumes "completes gw k f"
  shows "map bp_ID (rewrite_row pid gw now f ps) = map bp_ID ps"
  using assms by (auto simp: rewrite_row_def completes_def)

lemma rewrite_row_cases:
  assumes "completes gw k f" "q \<in> set (rewrite_row pid gw now f ps)"
  obtains (kept) "q \<in> set ps" "bp_ID q \<noteq> pid \<or> bp_Gateway q \<noteq> gw"
  | (finished) p where "p \<in> set ps" "bp_ID p = pid" "bp_Gateway p = gw" "bp_ID q = pid" "bp_Gateway q = gw"
      "bp_Status q = PaymentStatusCompleted" "credit_key q = Some k"
      "bp_CustomerID q = bp_CustomerID p" "bp_Amount q = bp_Amount p"
  using assms by (auto simp: rewrite_row_def completes_def split: if_splits)

lemma claims_tables:
  assumes "claims pid gw k s t"
  shows "ledger t = ledger s" "balances t = balances s"
proof -
  from assms obtain f now where
    "tables t = tables (s\<lparr>payments := rewrite_row pid gw now f (payments s)\<rparr>)"
    unfolding claims_def by blast
  from tables_eqD [OF this] show "ledger t = ledger s" "balances t = balances s" by simp_all
qed

lemma claims_payments:
  assumes "claims pid gw k s t"
  obtains f now where "completes gw k f" "payments t = rewrite_row pid gw now f (payments s)"
proof -
  from assms obtain f now where f: "completes gw k f"
    and t: "tables t = tables (s\<lparr>payments := rewrite_row pid gw now f (payments s)\<rparr>)"
    unfolding claims_def by blast
  from payments_eqD(1) [OF t] f show thesis using that by simp
qed

lemma claims_rows_ok:
  assumes rows: "rows_ok (payments s) (ledger s)" and cl: "claims pid gw k s t"
    and row: "\<forall>p\<in>set (payments s). bp_ID p = pid \<longrightarrow> bp_CustomerID p = c \<and> bp_Amount p = a"
    and l: "set (ledger s) \<subseteq> set l" "e \<in> set l" "credit_entry c a k e"
  shows "rows_ok (payments t) l"
proof -
  from cl obtain f now where f: "completes gw k f"
    and t: "payments t = rewrite_row pid gw now f (payments s)" by (rule claims_payments)
  have others: "bp_ID q = pid" if "q \<in> set (payments s)" "bp_Gateway q = gw" "credit_key q = Some k" for q
    using cl that unfolding claims_def by blast
  have ids: "distinct (map bp_ID (payments t))" using rows rewrite_row_id [OF f] t by (simp add: rows_ok_def)
  have "bp_Status q \<in> {PaymentStatusPending, PaymentStatusCompleted, PaymentStatusFailed, PaymentStatusRefunded}
      \<and> (bp_Status q = PaymentStatusCompleted \<longrightarrow> backed l q)" if "q \<in> set (payments t)" for q
    using f that [unfolded t]
  proof (cases rule: rewrite_row_cases)
    case kept
    then show ?thesis using rows backed_mono [OF _ l(1)] by (auto simp: rows_ok_def)
  next
    case (finished p)
    then have "bp_CustomerID q = c" "bp_Amount q = a" using row by auto
    then show ?thesis using finished l(2,3) by (auto simp: backed_def list_ex_iff)
  qed
  moreover have "bp_ID q = bp_ID r"
    if "q \<in> set (payments t)" "r \<in> set (payments t)" "bp_Status q = PaymentStatusCompleted"
      "bp_Status r = PaymentStatusCompleted" "bp_Gateway q = bp_Gateway r" "credit_key q = credit_key r" for q r
    using f that(1) [unfolded t]
  proof (cases rule: rewrite_row_cases)
    case q: kept
    show ?thesis using f that(2) [unfolded t]
    proof (cases rule: rewrite_row_cases)
      case kept
      then show ?thesis using rows q that unfolding rows_ok_def by blast
    next
      case (finished p)
      then show ?thesis using others [OF q(1)] that by simp
    qed
  next
    case q: (finished p)
    show ?thesis using f that(2) [unfolded t]
    proof (cases rule: rewrite_row_cases)
      case kept
      then show ?thesis using others [OF kept(1)] q that by simp
    qed (use q in simp)
  qed
  ultimately show ?thesis using ids unfolding rows_ok_def by blast
qed

lemma claims_closed_count:
  assumes "claims pid gw k s t"
  shows "closed_count (payments s) c a \<le> closed_count (payments t) c a"
proof -
  from assms obtain f now where f: "completes gw k f"
    and t: "payments t = rewrite_row pid gw now f (payments s)" by (rule claims_payments)
  show ?thesis unfolding closed_count_def t rewrite_row_def
    by (rule filter_rewrite_mono) (use f in \<open>auto simp: completes_def\<close>)
qed

lemma claims_closed_Suc:
  assumes "claims pid gw k s t" and "p \<in> set (payments s)" "bp_ID p = pid" "bp_Gateway p = gw"
    "bp_Status p = PaymentStatusPending" "bp_CustomerID p = c" "bp_Amount p = a"
  shows "Suc (closed_count (payments s) c a) \<le> closed_count (payments t) c a"
proof -
  from assms(1) obtain f now where f: "completes gw k f"
    and t: "payments t = rewrite_row pid gw now f (payments s)" by (rule claims_payments)
  show ?thesis unfolding closed_count_def t rewrite_row_def
    by (rule filter_rewrite_Suc [of _ _ _ p]) (use f assms in \<open>auto simp: completes_def\<close>)
qed

lemma posted_credits:
  assumes "posted c BillingTxTypeCredit a d rt ri key s bt t"
  shows "credits_count (ledger t) c' a' = credits_count (ledger s) c' a' + (if c' = c \<and> a' = a then 1 else 0)"
  using posted_ledger(1,2) [OF assms] posted_entry [OF assms] by (auto simp: credits_count_def)

text \<open>A claim followed by its credit keeps the invariant and the account of credits.\<close>

lemma settle_existing:
  assumes inv: "pay_inv s" and cl: "claims pid gw k s s1" and t: "tables t = tables s1"
    and e: "e \<in> set (ledger s1)" "credit_entry c a k e"
    and row: "\<forall>p\<in>set (payments s). bp_ID p = pid \<longrightarrow> bp_CustomerID p = c \<and> bp_Amount p = a"
  shows "pay_inv t \<and> accounted s t"
proof -
  note s1 = claims_tables [OF cl]
  have "rows_ok (payments s1) (ledger s1)"
    by (rule claims_rows_ok [OF _ cl row _ e]) (use inv s1 in \<open>simp_all add: pay_inv_def\<close>)
  then have "pay_inv s1" using inv ledger_inv_cong [of s1 s] s1 by (simp add: pay_inv_def)
  moreover have "accounted s s1"
    using claims_closed_count [OF cl] s1 by (simp add: accounted_def)
  ultimately show ?thesis using pay_inv_tables [OF t] accounted_tables [OF refl t, of s] by simp
qed

lemma claims_row:
  assumes "claims pid gw k s t"
  obtains p where "p \<in> set (payments s)" "bp_ID p = pid" "bp_Gateway p = gw"
    "bp_Status p \<noteq> PaymentStatusRefunded" "bp_Status p \<noteq> PaymentStatusFailed"
    "bp_Status p = PaymentStatusCompleted \<longrightarrow> credit_key p = Some k"
  using assms unfolding claims_def by blast

lemma completed_backed:
  assumes "pay_inv s" "p \<in> set (payments s)" "bp_Status p = PaymentStatusCompleted" "credit_key p = Some k"
  shows "\<exists>x\<in>set (ledger s). has_key (bp_CustomerID p) k x"
proof -
  have "backed (ledger s) p" using assms(1-3) unfolding pay_inv_def rows_ok_def by blast
  then show ?thesis using assms(4) by (auto simp: backed_def list_ex_iff credit_entry_def)
qed

lemma settle_fresh:
  assumes inv: "pay_inv s" and cl: "claims pid gw k s s1"
    and post: "posted c BillingTxTypeCredit a a None None (Some k) s1 bt t"
    and row: "\<forall>p\<in>set (payments s). bp_ID p = pid \<longrightarrow> bp_CustomerID p = c \<and> bp_Amount p = a"
  shows "pay_inv t \<and> accounted s t"
proof -
  note s1 = claims_tables [OF cl]
  note l = posted_ledger(1,2) [OF post] and en = posted_entry [OF post] and pt = posted_payments(1) [OF post]
  have e: "credit_entry c a k bt" using l en by (simp add: credit_entry_def has_key_def billingTxMatches_def)
  have "rows_ok (payments s1) (ledger t)"
    by (rule claims_rows_ok [OF _ cl row _ _ e]) (use inv s1 l(1) in \<open>auto simp: pay_inv_def\<close>)
  moreover have "ledger_inv s1" using ledger_inv_cong [of s1 s] s1 inv by (simp add: pay_inv_def)
  then have "ledger_inv t" by (rule posted_inv [OF _ post sign_ok_simps(1)])
  ultimately have "pay_inv t" using pt by (simp add: pay_inv_def)
  moreover have "accounted s t"
  proof -
    obtain p where p: "p \<in> set (payments s)" "bp_ID p = pid" "bp_Gateway p = gw"
      "bp_Status p \<noteq> PaymentStatusRefunded" "bp_Status p \<noteq> PaymentStatusFailed"
      and same: "bp_Status p = PaymentStatusCompleted \<longrightarrow> credit_key p = Some k"
      using cl by (rule claims_row)
    have ca: "bp_CustomerID p = c" "bp_Amount p = a" using row p by blast+
    have "\<not> has_key c k x" if "x \<in> set (ledger s)" for x using en s1(1) that by simp
    then have "bp_Status p \<noteq> PaymentStatusCompleted"
      using completed_backed [OF inv p(1)] same ca(1) by blast
    then have "bp_Status p = PaymentStatusPending"
      using inv p(1,4,5) unfolding pay_inv_def rows_ok_def by blast
    note Suc = claims_closed_Suc [OF cl p(1-3) this ca]
    show ?thesis unfolding accounted_def
    proof (intro allI)
      fix c' a'
      show "credits_count (ledger t) c' a' + closed_count (payments s) c' a'
        \<le> credits_count (ledger s) c' a' + closed_count (payments t) c' a'"
        using Suc claims_closed_count [OF cl, of c' a'] posted_credits [OF post, of c' a'] s1(1) pt
        by (cases "c' = c \<and> a' = a") simp_all
    qed
  qed
  ultimately show ?thesis by simp
qed

section \<open>The laws of the repository's operations\<close>

lemma settle_transaction:
  assumes inv: "pay_inv s"
    and row: "\<forall>p\<in>set (payments s). bp_ID p = pid \<longrightarrow> bp_CustomerID p = c \<and> bp_Amount p = a"
    and claim: "\<And>s0 s1. claim s0 = (Inr True, s1) \<Longrightarrow> claims pid gw k s0 s1"
    and run: "transaction (bind_db claim (\<lambda>claimed.
       if \<not> claimed then return_db (Abandon False)
       else bind_db (creditAccountTx c a ds k) (\<lambda>_. return_db (Commit True)))) s = (r, t)"
  shows "pay_inv t \<and> accounted s t"
  using run
proof (cases rule: transaction_cases)
  case (failed e)
  then show ?thesis
    using inv pay_inv_tables [of t s] accounted_tables [of s s t s] accounted_refl [of s s] by simp
next
  case (abandoned x s0 s1)
  then show ?thesis
    using inv pay_inv_tables [of t s] accounted_tables [of s s t s] accounted_refl [of s s] by simp
next
  case (committed x s0 s2)
  from committed(2) obtain s1 bt where 1: "claim s0 = (Inr True, s1)"
    and 2: "creditAccountTx c a ds k s1 = (Inr bt, s2)"
    by (auto simp: return_db_def split: if_splits)
  have s0: "pay_inv s0" using inv committed(1) pay_inv_tables by blast
  have row0: "\<forall>p\<in>set (payments s0). bp_ID p = pid \<longrightarrow> bp_CustomerID p = c \<and> bp_Amount p = a"
    using row payments_eqD(1) [OF committed(1)] by simp
  note cl = claim [OF 1]
  have "pay_inv s2 \<and> accounted s0 s2"
    using 2 [unfolded creditAccountTx_post]
  proof (cases rule: post_tx_Inr)
    case existing
    then show ?thesis
      by (intro settle_existing [OF s0 cl existing(1,2) _ row0]) (simp add: credit_entry_def)
  next
    case fresh
    then show ?thesis by (rule settle_fresh [OF s0 cl _ row0])
  qed
  then show ?thesis
    using pay_inv_tables [OF committed(3)] accounted_tables [OF committed(1) committed(3) [symmetric]] by blast
qed

lemma CompleteWithGatewayPaymentIDAndCredit_law:
  assumes "pay_inv s" "pcc_Gateway req \<noteq> PaymentGatewayPayPal"
    "pcc_IdempotencyKey req = settlement_key (pcc_Gateway req) (pcc_GatewayPaymentID req)"
    "\<forall>p\<in>set (payments s). bp_ID p = pcc_PaymentID req \<longrightarrow>
       bp_CustomerID p = pcc_CustomerID req \<and> bp_Amount p = pcc_Amount req"
    "CompleteWithGatewayPaymentIDAndCredit req s = (r, t)"
  shows "pay_inv t \<and> accounted s t"
  using settle_transaction [OF assms(1,4) claimGatewayPaymentTx_True
      assms(5) [unfolded CompleteWithGatewayPaymentIDAndCredit_def assms(3)]] assms(2) by blast

lemma CompletePayPalCaptureAndCredit_law:
  assumes "pay_inv s"
    "ppc_IdempotencyKey req = settlement_key PaymentGatewayPayPal (ppc_CaptureID req)"
    "\<forall>p\<in>set (payments s). bp_ID p = ppc_PaymentID req \<longrightarrow>
       bp_CustomerID p = ppc_CustomerID req \<and> bp_Amount p = ppc_Amount req"
    "CompletePayPalCaptureAndCredit req s = (r, t)"
  shows "pay_inv t \<and> accounted s t"
  using settle_transaction [OF assms(1,3) claimPayPalCaptureTx_True
      assms(4) [unfolded CompletePayPalCaptureAndCredit_def assms(2)]] .

text \<open>A rewriting of rows that never completes a payment and never reopens one.\<close>

definition closes :: "(BillingPayment \<Rightarrow> bool) \<Rightarrow> (BillingPayment \<Rightarrow> BillingPayment) \<Rightarrow> BillingPayment list \<Rightarrow> bool" where
  "closes sel f ps \<longleftrightarrow> (\<forall>p\<in>set ps. sel p \<longrightarrow>
     bp_Status (f p) \<in> {PaymentStatusPending, PaymentStatusFailed, PaymentStatusRefunded} \<and>
     (bp_Status (f p) = PaymentStatusPending \<longrightarrow> bp_Status p = PaymentStatusPending) \<and>
     bp_ID (f p) = bp_ID p \<and> bp_CustomerID (f p) = bp_CustomerID p \<and> bp_Amount (f p) = bp_Amount p)"

definition rewritten ::
  "(BillingPayment \<Rightarrow> bool) \<Rightarrow> int \<Rightarrow> (BillingPayment \<Rightarrow> BillingPayment) \<Rightarrow> BillingPayment list \<Rightarrow> BillingPayment list" where
  "rewritten sel now f ps = map (\<lambda>p. if sel p then (f p)\<lparr>bp_UpdatedAt := now\<rparr> else p) ps"

lemma closes_rows:
  assumes rows: "rows_ok ps l" and f: "closes sel f ps"
  shows "rows_ok (rewritten sel now f ps) l"
proof -
  let ?ps = "rewritten sel now f ps"
  have ids: "map bp_ID ?ps = map bp_ID ps"
    using f by (auto simp: rewritten_def closes_def)
  have old: "q \<in> set ps" if "q \<in> set ?ps" "bp_Status q = PaymentStatusCompleted" for q
    using f that by (auto simp: rewritten_def closes_def split: if_splits)
  have st: "\<forall>p\<in>set ps. bp_Status p \<in> {PaymentStatusPending, PaymentStatusCompleted,
      PaymentStatusFailed, PaymentStatusRefunded}" using rows unfolding rows_ok_def by blast
  have "\<forall>q\<in>set ?ps. bp_Status q \<in> {PaymentStatusPending, PaymentStatusCompleted,
      PaymentStatusFailed, PaymentStatusRefunded}"
    using f st by (fastforce simp: rewritten_def closes_def split: if_splits)
  moreover have "distinct (map bp_ID ?ps)" using rows ids by (simp add: rows_ok_def)
  moreover have "\<forall>q\<in>set ?ps. bp_Status q = PaymentStatusCompleted \<longrightarrow> backed l q"
    using rows old unfolding rows_ok_def by blast
  moreover have "\<forall>p\<in>set ?ps. \<forall>q\<in>set ?ps. bp_Status p = PaymentStatusCompleted \<and>
      bp_Status q = PaymentStatusCompleted \<and> bp_Gateway p = bp_Gateway q \<and> credit_key p = credit_key q
      \<longrightarrow> bp_ID p = bp_ID q"
    using rows old unfolding rows_ok_def by blast
  ultimately show ?thesis unfolding rows_ok_def by blast
qed

lemma closes_count:
  assumes "closes sel f ps"
  shows "closed_count ps c a \<le> closed_count (rewritten sel now f ps) c a"
  unfolding closed_count_def rewritten_def
  by (rule filter_rewrite_mono) (use assms in \<open>auto simp: closes_def\<close>)

lemma update_payments_law:
  assumes "pay_inv s" "closes sel f (payments s)" "update_payments sel f s = (r, t)"
  shows "pay_inv t \<and> accounted s t"
proof -
  have t: "payments t = rewritten sel (clock s) f (payments s)" "ledger t = ledger s" "balances t = balances s"
    using assms(3) by (auto simp: update_payments_def rewritten_def)
  have "pay_inv t"
    using closes_rows [OF _ assms(2)] assms(1) t ledger_inv_cong [of t s] by (simp add: pay_inv_def)
  moreover have "accounted s t" using closes_count [OF assms(2)] t by (simp add: accounted_def)
  ultimately show ?thesis by simp
qed

lemma kept_pay:
  assumes "pay_inv s" "tables t = tables s"
  shows "pay_inv t \<and> accounted s t"
  using assms pay_inv_tables [OF assms(2)] accounted_tables [OF refl assms(2), of s] accounted_refl [of s s]
  by simp

lemma auto_stmt_pay:
  assumes inv: "pay_inv s"
    and f: "\<And>s0 r t. tables s0 = tables s \<Longrightarrow> f s0 = (r, t) \<Longrightarrow> pay_inv t \<and> accounted s0 t"
    and run: "auto_stmt f s = (r, t)"
  shows "pay_inv t \<and> accounted s t"
  using run
proof (cases rule: auto_stmt_cases)
  case 1
  then show ?thesis using kept_pay [OF inv] by blast
next
  case (2 s1)
  then show ?thesis using f [OF 2] accounted_tables [OF 2(1) refl] by blast
next
  case (3 s1 r1)
  then show ?thesis using f [OF 3(1,2)] accounted_tables [OF 3(1) refl] by blast
qed

lemma payment_UpdateStatus_law:
  assumes inv: "pay_inv s"
    and st: "status = PaymentStatusFailed \<or> status = PaymentStatusPending \<and>
       (\<forall>p\<in>set (payments s). bp_ID p = pid \<longrightarrow> bp_Status p = PaymentStatusPending)"
    and run: "payment_UpdateStatus pid status g s = (r, t)"
  shows "pay_inv t \<and> accounted s t"
proof -
  let ?f = "\<lambda>p. p\<lparr>bp_Status := status, bp_GatewayPaymentID :=
     (case g of None \<Rightarrow> bp_GatewayPaymentID p | Some g \<Rightarrow> Some g)\<rparr>"
  have cl: "closes (\<lambda>p. bp_ID p = pid) ?f (payments s)" using st by (auto simp: closes_def)
  obtain r1 where "auto_stmt (update_payments (\<lambda>p. bp_ID p = pid) ?f) s = (r1, t)"
    using run unfolding payment_UpdateStatus_def
    by (rule bind_db_cases) (auto simp: throw_db_def return_db_def split: if_splits)
  then show ?thesis
  proof (rule auto_stmt_pay [OF inv, rotated])
    fix s0 r t assume s0: "tables s0 = tables s" "update_payments (\<lambda>p. bp_ID p = pid) ?f s0 = (r, t)"
    show "pay_inv t \<and> accounted s0 t"
      by (rule update_payments_law [OF _ _ s0(2)])
         (use inv cl pay_inv_tables [OF s0(1)] payments_eqD(1) [OF s0(1)] in simp_all)
  qed
qed

lemma rows_ok_mono:
  assumes "rows_ok ps l" "set l \<subseteq> set l'"
  shows "rows_ok ps l'"
  using assms backed_mono unfolding rows_ok_def by blast

lemma rows_ok_pending:
  assumes rows: "rows_ok ps l" and q: "bp_ID q \<notin> bp_ID ` set ps" "bp_Status q = PaymentStatusPending"
  shows "rows_ok (ps @ [q]) l"
proof -
  have n: "x \<in> set ps" if "x \<in> set (ps @ [q])" "bp_Status x = PaymentStatusCompleted" for x
    using that q(2) by auto
  have "distinct (map bp_ID (ps @ [q]))" using rows q(1) by (simp add: rows_ok_def)
  moreover have "\<forall>p\<in>set (ps @ [q]). bp_Status p \<in> {PaymentStatusPending, PaymentStatusCompleted,
      PaymentStatusFailed, PaymentStatusRefunded}"
    using rows q(2) by (simp add: rows_ok_def)
  ultimately show ?thesis using rows n unfolding rows_ok_def by blast
qed

lemma payment_Create_law:
  fixes s :: "'r payments_db_scheme"
  assumes inv: "pay_inv s" and st: "bp_Status p = PaymentStatusPending"
    and run: "payment_Create p s = (r, t)"
  shows "pay_inv t \<and> accounted s t"
  using inv _ run [unfolded payment_Create_def]
proof (rule auto_stmt_pay)
  fix s0 t :: "'r payments_db_scheme" and r
  let ?q = "p\<lparr>bp_ID := gen_uuid s0 (next_id s0), bp_CreatedAt := clock s0, bp_UpdatedAt := clock s0\<rparr>"
  assume s0: "tables s0 = tables s" and
    t: "(let created = ?q; s1 = s0\<lparr>next_id := Suc (next_id s0)\<rparr>
         in if \<not> payment_checks s0 created then (Inl ErrDB, s1)
          else if bp_ID created \<in> bp_ID ` set (payments s0)
          then (Inl (ErrUniqueViolation ''billing_payments_pkey''), s1)
          else if bp_ReuseKey created \<noteq> None \<and> bp_ReuseKey created \<in> bp_ReuseKey ` set (payments s0)
          then (Inl (ErrUniqueViolation ''idx_billing_payments_reuse''), s1)
          else (Inr created, s1\<lparr>payments := payments s1 @ [created]\<rparr>)) = (r, t)"
  have inv0: "pay_inv s0" using inv pay_inv_tables [OF s0] by simp
  from t consider "tables t = tables s0"
    | "payments t = payments s0 @ [?q]" "ledger t = ledger s0" "balances t = balances s0"
      "bp_ID ?q \<notin> bp_ID ` set (payments s0)"
    by (auto simp: Let_def split: if_splits)
  then show "pay_inv t \<and> accounted s0 t"
  proof cases
    case 1
    then show ?thesis by (rule kept_pay [OF inv0])
  next
    case 2
    have "rows_ok (payments s0) (ledger s0)" using inv0 by (simp add: pay_inv_def)
    then have "rows_ok (payments s0 @ [?q]) (ledger s0)"
      by (rule rows_ok_pending) (use 2(4) st in simp_all)
    then have "pay_inv t" using inv0 2 ledger_inv_cong [of t s0] by (simp add: pay_inv_def)
    moreover have "accounted s0 t" using 2 st by (simp add: accounted_def closed_count_def)
    ultimately show ?thesis by simp
  qed
qed

lemma posted_debit_pay:
  assumes inv: "pay_inv s" and post: "posted c BillingTxTypeDebit a (- a) rt ri key s bt t"
  shows "pay_inv t \<and> accounted s t"
proof -
  note l = posted_ledger(1) [OF post] and en = posted_entry [OF post] and pt = posted_payments(1) [OF post]
  have "ledger_inv t" using inv by (auto simp: pay_inv_def intro: posted_inv [OF _ post])
  then have "pay_inv t" using inv l pt rows_ok_mono [of "payments s" "ledger s" "ledger t"]
    by (auto simp: pay_inv_def)
  moreover have "accounted s t" using l en pt by (simp add: accounted_def credits_count_def)
  ultimately show ?thesis by simp
qed

lemma update_tx_law:
  assumes "pay_inv s" "closes sel f (payments s)"
    "bind_db (tx_stmt (update_payments sel f)) require_row s = (Inr u, t)"
  shows "pay_inv t \<and> accounted s t"
proof -
  obtain r t' where t': "update_payments sel f s = (r, t')" by fastforce
  have "tables t = tables t'"
    using update_tx_Inr(1) [OF assms(3)] t' by (auto simp: update_payments_def)
  then show ?thesis
    using update_payments_law [OF assms(1,2) t'] pay_inv_tables accounted_tables [OF refl] by blast
qed

lemma MarkRefundedAndDebit_law:
  assumes inv: "pay_inv s" and run: "MarkRefundedAndDebit req s = (r, t)"
  shows "pay_inv t \<and> accounted s t"
  using run unfolding MarkRefundedAndDebit_def
proof (cases rule: transaction_cases)
  case (failed e)
  then show ?thesis using kept_pay [OF inv] by blast
next
  case (abandoned x s0 s1)
  then show ?thesis using kept_pay [OF inv] by blast
next
  case (committed x s0 s2)
  from committed(2) obtain s1 bt where
    1: "updatePaymentRefundedTx (prd_PaymentID req) (prd_CustomerID req) s0 = (Inr (), s1)" and
    2: "debitAccountTx (prd_CustomerID req) (prd_Amount req) (prd_Description req)
          (Some BillingRefTypeRefund) (Some (prd_PaymentID req)) (prd_IdempotencyKey req) s1 = (Inr bt, s2)"
    by (auto simp: return_db_def)
  have s0: "pay_inv s0" using inv pay_inv_tables [OF committed(1)] by simp
  have s1: "pay_inv s1 \<and> accounted s0 s1"
    by (rule update_tx_law [OF s0 _ 1 [unfolded updatePaymentRefundedTx_def]]) (simp add: closes_def)
  have "pay_inv s2 \<and> accounted s1 s2"
    using 2 [unfolded debitAccountTx_post]
  proof (cases rule: post_tx_Inr)
    case existing
    then show ?thesis using kept_pay s1 by blast
  next
    case fresh
    then show ?thesis using posted_debit_pay s1 by blast
  qed
  then have "pay_inv s2 \<and> accounted s0 s2" using accounted_trans s1 by blast
  then show ?thesis
    using pay_inv_tables [OF committed(3)] accounted_tables [OF committed(1) committed(3) [symmetric]] by blast
qed

section \<open>A settlement goes through\<close>

lemma find_row:
  assumes "distinct (map bp_ID ps)" "p \<in> set ps" "bp_Gateway p = gw"
  shows "find (\<lambda>q. bp_ID q = bp_ID p \<and> bp_Gateway q = gw) ps = Some p"
  using assms by (induction ps) (auto simp: image_iff)

text \<open>C8. When the connection works, the payment is pending, no other payment of the gateway holds
  the gateway's identifier and the key is unused, one settlement reports success, completes the
  row, raises the customer's balance by the amount and appends the one credit.\<close>

theorem settlement_goes_through:
  assumes "faults s = []" and "pay_inv s" and p: "p \<in> set (payments s)" "bp_Status p = PaymentStatusPending"
    and req: "pcc_PaymentID req = bp_ID p" "pcc_Gateway req = bp_Gateway p" "pcc_CustomerID req = c"
      "pcc_Amount req = a" "pcc_IdempotencyKey req = k"
    and free: "\<forall>q\<in>set (payments s). bp_Gateway q = bp_Gateway p \<and>
      bp_GatewayPaymentID q = Some (pcc_GatewayPaymentID req) \<longrightarrow> bp_ID q = bp_ID p"
    and acct: "balances s c = Some b" "\<forall>e\<in>set (ledger s). \<not> has_key c k e"
      "gen_uuid s (next_id s) \<notin> bt_ID ` set (ledger s)"
  shows "\<exists>t bt. CompleteWithGatewayPaymentIDAndCredit req s = (Inr True, t) \<and>
    ledger t = ledger s @ [bt] \<and> credit_entry c a k bt \<and> balances t = (balances s)(c \<mapsto> b + a) \<and>
    (\<exists>q\<in>set (payments t). bp_ID q = bp_ID p \<and> bp_Status q = PaymentStatusCompleted \<and>
       bp_GatewayPaymentID q = Some (pcc_GatewayPaymentID req))"
proof -
  have d: "distinct (map bp_ID (payments s))" using assms(2) by (simp add: pay_inv_def rows_ok_def)
  note row = find_row [OF d p(1) refl]
  have no: "find (has_key c k) (ledger s) = None" "\<not> list_ex (has_key c k) (ledger s)"
    using acct(2) by (simp_all add: find_None_iff list_ex_iff)
  have other: "\<not> list_ex (\<lambda>q. bp_Gateway q = bp_Gateway p \<and>
      bp_GatewayPaymentID q = Some (pcc_GatewayPaymentID req) \<and> bp_ID q \<noteq> bp_ID p) (payments s)"
    using free by (auto simp: list_ex_iff)
  have n: "filter (\<lambda>q. bp_ID q = bp_ID p \<and> bp_Gateway q = bp_Gateway p) (payments s) \<noteq> []"
    using p(1) by (auto simp: filter_empty_conv)
  have claim: "claimGatewayPaymentTx (bp_ID p) (bp_Gateway p) (pcc_GatewayPaymentID req) s =
      (Inr True, s\<lparr>payments := rewrite_row (bp_ID p) (bp_Gateway p) (clock s)
         (\<lambda>p. p\<lparr>bp_Status := PaymentStatusCompleted, bp_GatewayPaymentID := Some (pcc_GatewayPaymentID req)\<rparr>)
         (payments s)\<rparr>)"
    using assms(1) row other n p(2)
    by (simp add: claimGatewayPaymentTx_def lockGatewayPaymentID_def canClaimLocalPayment_def lock_payment_def
        select_payment_def hasOtherGatewayPayment_def updatePaymentCompletedTx_def update_payments_def
        require_row_def rewrite_row_def db_simps)
  obtain t where t: "t = s\<lparr>payments := rewrite_row (bp_ID p) (bp_Gateway p) (clock s)
         (\<lambda>p. p\<lparr>bp_Status := PaymentStatusCompleted, bp_GatewayPaymentID := Some (pcc_GatewayPaymentID req)\<rparr>)
         (payments s)\<rparr>" by blast
  define bt where "bt = \<lparr>bt_ID = gen_uuid s (next_id s), bt_CustomerID = c, bt_Type = BillingTxTypeCredit,
                 bt_Amount = a, bt_BalanceAfter = b + a, bt_Description = pcc_Description req,
                 bt_ReferenceType = None, bt_ReferenceID = None,
                 bt_IdempotencyKey = Some k, bt_CreatedAt = clock s\<rparr>"
  have credit: "creditAccountTx c a (pcc_Description req) k t =
      (Inr bt, t\<lparr>balances := (balances s)(c \<mapsto> b + a), next_id := Suc (next_id s), ledger := ledger s @ [bt]\<rparr>)"
    using assms(1) no acct
    by (simp add: t bt_def creditAccountTx_def findMatchingIdempotencyKey_def findByIdempotencyKey_def
        lockAndUpdateBalance_def insertTransaction_def db_simps)
  have "CompleteWithGatewayPaymentIDAndCredit req s =
      (Inr True, t\<lparr>balances := (balances s)(c \<mapsto> b + a), next_id := Suc (next_id s), ledger := ledger s @ [bt]\<rparr>)"
    using claim credit assms(1) req
    by (simp add: t CompleteWithGatewayPaymentIDAndCredit_def transaction_def db_simps)
  moreover have "credit_entry c a k bt" by (simp add: bt_def credit_entry_def has_key_def billingTxMatches_def)
  moreover have "\<exists>q\<in>set (payments t). bp_ID q = bp_ID p \<and> bp_Status q = PaymentStatusCompleted \<and>
       bp_GatewayPaymentID q = Some (pcc_GatewayPaymentID req)"
    unfolding t rewrite_row_def using p(1)
    by (intro bexI [of _ "p\<lparr>bp_Status := PaymentStatusCompleted,
          bp_GatewayPaymentID := Some (pcc_GatewayPaymentID req), bp_UpdatedAt := clock s\<rparr>"])
       (auto intro!: image_eqI [of _ _ p])
  ultimately show ?thesis by (intro exI [of _ "t\<lparr>balances := (balances s)(c \<mapsto> b + a),
      next_id := Suc (next_id s), ledger := ledger s @ [bt]\<rparr>"] exI [of _ bt]) simp
qed

definition ex_stripe_payment :: BillingPayment where
  "ex_stripe_payment = \<lparr>bp_ID = ''p1'', bp_CustomerID = ''c1'', bp_Gateway = ''stripe'',
     bp_GatewayPaymentID = Some ''cs_1'', bp_Amount = 500, bp_Currency = ''usd'', bp_Status = ''pending'',
     bp_ReuseKey = None, bp_Metadata = None, bp_CreatedAt = 0, bp_UpdatedAt = 0\<rparr>"

definition ex_old_credit :: BillingTransaction where
  "ex_old_credit = \<lparr>bt_ID = ''old'', bt_CustomerID = ''c1'', bt_Type = ''credit'', bt_Amount = 20,
     bt_BalanceAfter = 20, bt_Description = [], bt_ReferenceType = None, bt_ReferenceID = None,
     bt_IdempotencyKey = None, bt_CreatedAt = 1\<rparr>"

definition ex_stripe_db :: payments_db where
  "ex_stripe_db = \<lparr>faults = [], next_id = 0, gen_uuid = (\<lambda>n. replicate n CHR ''u''), clock = 7,
     balances = [''c1'' \<mapsto> 20], ledger = [ex_old_credit], payments = [ex_stripe_payment]\<rparr>"

theorem settlement_goes_through_witness:
  "\<exists>t bt. CompleteWithGatewayPaymentIDAndCredit
      \<lparr>pcc_PaymentID = ''p1'', pcc_Gateway = ''stripe'', pcc_GatewayPaymentID = ''pi_1'', pcc_CustomerID = ''c1'',
       pcc_Amount = 500, pcc_Description = ''Top-up via stripe'', pcc_IdempotencyKey = ''stripe:payment:pi_1''\<rparr>
      ex_stripe_db = (Inr True, t) \<and>
    ledger t = [ex_old_credit, bt] \<and> credit_entry ''c1'' 500 ''stripe:payment:pi_1'' bt \<and>
    balances t = [''c1'' \<mapsto> 20 + 500] \<and>
    (\<exists>q\<in>set (payments t). bp_ID q = ''p1'' \<and> bp_Status q = PaymentStatusCompleted \<and>
       bp_GatewayPaymentID q = Some ''pi_1'')"
proof -
  have "pay_inv ex_stripe_db"
    by (simp add: pay_inv_def ledger_inv_def balances_ok_def entries_ok_def rows_ok_def ex_stripe_db_def
        ex_stripe_payment_def ex_old_credit_def signed_amount_def BillingTxTypeCredit_def status_defs
        ledger_keys_def List.map_filter_def)
  from settlement_goes_through [OF _ this, of ex_stripe_payment
      "\<lparr>pcc_PaymentID = ''p1'', pcc_Gateway = ''stripe'', pcc_GatewayPaymentID = ''pi_1'', pcc_CustomerID = ''c1'',
       pcc_Amount = 500, pcc_Description = ''Top-up via stripe'', pcc_IdempotencyKey = ''stripe:payment:pi_1''\<rparr>"
      "''c1''" 500 "''stripe:payment:pi_1''" 20]
  show ?thesis
    by (simp add: ex_stripe_db_def ex_stripe_payment_def ex_old_credit_def has_key_def status_defs)
qed

end
