(* ===== verification/Go_Stdlib.thy ===== *)
theory Go_Stdlib
  imports Prelude
begin

text \<open>
  The functions of Go's \<^verbatim>\<open>strings\<close>, \<^verbatim>\<open>strconv\<close> and \<^verbatim>\<open>fmt\<close> the components call, on
  strings of ASCII characters, with the parse/print laws their clients need. Decimal integers are
  read and printed at 64 bits: a value outside the range of \<open>int64\<close> is a parse error, as in
  \<^verbatim>\<open>strconv.ParseInt(s, 10, 64)\<close>.
\<close>

section \<open>Splitting and trimming\<close>

text \<open>\<^verbatim>\<open>strings.SplitN(s, sep, 2)\<close> for a one-character separator: the parts before and after its
  first occurrence, or the whole string.\<close>

fun SplitN2 :: "char \<Rightarrow> string \<Rightarrow> string \<times> string option" where
  "SplitN2 sep [] = ([], None)"
| "SplitN2 sep (c # cs) =
     (if c = sep then ([], Some cs)
      else case SplitN2 sep cs of (a, b) \<Rightarrow> (c # a, b))"

fun Split :: "char \<Rightarrow> string \<Rightarrow> string list" where
  "Split sep [] = [[]]"
| "Split sep (c # cs) =
     (if c = sep then [] # Split sep cs
      else case Split sep cs of [] \<Rightarrow> [[c]] | p # ps \<Rightarrow> (c # p) # ps)"

fun Join :: "char \<Rightarrow> string list \<Rightarrow> string" where
  "Join sep [] = []"
| "Join sep [p] = p"
| "Join sep (p # q # ps) = p @ sep # Join sep (q # ps)"

definition is_space :: "char \<Rightarrow> bool" where
  "is_space c \<longleftrightarrow> c \<in> {CHR 0x09, CHR 0x0A, CHR 0x0B, CHR 0x0C, CHR 0x0D, CHR '' ''}"

definition TrimSpace :: "string \<Rightarrow> string" where
  "TrimSpace s = rev (dropWhile is_space (rev (dropWhile is_space s)))"

definition HasPrefix :: "string \<Rightarrow> string \<Rightarrow> bool" where
  "HasPrefix s pre \<longleftrightarrow> take (length pre) s = pre"

definition ascii_lower :: "char \<Rightarrow> char" where
  "ascii_lower c = (if CHR ''A'' \<le> c \<and> c \<le> CHR ''Z'' then char_of (of_char c + (32::nat)) else c)"

definition ascii_upper :: "char \<Rightarrow> char" where
  "ascii_upper c = (if CHR ''a'' \<le> c \<and> c \<le> CHR ''z'' then char_of (of_char c - (32::nat)) else c)"

definition HasSuffix :: "string \<Rightarrow> string \<Rightarrow> bool" where
  "HasSuffix s suf \<longleftrightarrow> length suf \<le> length s \<and> drop (length s - length suf) s = suf"

fun Contains :: "string \<Rightarrow> string \<Rightarrow> bool" where
  "Contains [] sub \<longleftrightarrow> sub = []"
| "Contains (c # s) sub \<longleftrightarrow> HasPrefix (c # s) sub \<or> Contains s sub"

definition ToLower :: "string \<Rightarrow> string" where "ToLower = map ascii_lower"

definition ToUpper :: "string \<Rightarrow> string" where "ToUpper = map ascii_upper"

definition EqualFold :: "string \<Rightarrow> string \<Rightarrow> bool" where
  "EqualFold s t \<longleftrightarrow> ToLower s = ToLower t"

lemma SplitN2_sep:
  assumes "sep \<notin> set a"
  shows "SplitN2 sep (a @ sep # b) = (a, Some b)" "SplitN2 sep a = (a, None)"
  using assms by (induction a) auto

lemma SplitN2_Some: "SplitN2 sep s = (a, Some b) \<Longrightarrow> s = a @ sep # b \<and> sep \<notin> set a"
  by (induction s arbitrary: a) (auto split: if_splits prod.splits)

lemma SplitN2_None: "SplitN2 sep s = (a, None) \<Longrightarrow> s = a \<and> sep \<notin> set a"
  by (induction s arbitrary: a) (auto split: if_splits prod.splits)

lemma Split_not_Nil [simp]: "Split sep s \<noteq> []"
  by (induction s) (auto split: list.splits)

lemma Join_Cons: "ps \<noteq> [] \<Longrightarrow> Join sep (p # ps) = p @ sep # Join sep ps"
  by (cases ps) simp_all

lemma Join_Split: "Join sep (Split sep s) = s"
proof (induction s)
  case (Cons c cs)
  obtain p ps where s: "Split sep cs = p # ps" by (cases "Split sep cs") auto
  show ?case
  proof (cases "c = sep")
    case True
    then show ?thesis using Cons by (simp add: Join_Cons)
  next
    case False
    then show ?thesis using Cons s by (cases ps) auto
  qed
qed simp

section \<open>Decimal integers\<close>

definition is_digit :: "char \<Rightarrow> bool" where
  "is_digit c \<longleftrightarrow> CHR ''0'' \<le> c \<and> c \<le> CHR ''9''"

definition digit_val :: "char \<Rightarrow> nat" where
  "digit_val c = of_char c - 48"

definition digit_char :: "nat \<Rightarrow> char" where
  "digit_char d = char_of (48 + d)"

definition digits_val :: "string \<Rightarrow> nat" where
  "digits_val ds = foldl (\<lambda>n d. 10 * n + digit_val d) 0 ds"

fun nat_digits :: "nat \<Rightarrow> string" where
  "nat_digits n = (if n < 10 then [digit_char n] else nat_digits (n div 10) @ [digit_char (n mod 10)])"

declare nat_digits.simps [simp del]

text \<open>The verb \<^verbatim>\<open>%d\<close> and \<^verbatim>\<open>strconv.Itoa\<close>.\<close>

definition print_int :: "int \<Rightarrow> string" where
  "print_int i = (if i < 0 then CHR ''-'' # nat_digits (nat (- i)) else nat_digits (nat i))"

definition int64_range :: "int \<Rightarrow> bool" where
  "int64_range i \<longleftrightarrow> - (2 ^ 63) \<le> i \<and> i < 2 ^ 63"

definition sign_of :: "string \<Rightarrow> bool \<times> string" where
  "sign_of s = (case s of [] \<Rightarrow> (False, []) | c # cs \<Rightarrow>
     if c = CHR ''-'' then (True, cs) else if c = CHR ''+'' then (False, cs) else (False, s))"

definition ParseInt :: "string \<Rightarrow> int option" where
  "ParseInt s = (case sign_of s of (neg, ds) \<Rightarrow>
     if ds = [] \<or> \<not> list_all is_digit ds then None
     else let i = (if neg then - int (digits_val ds) else int (digits_val ds)) in
          if int64_range i then Some i else None)"

text \<open>\<^verbatim>\<open>fmt.Sscanf(s, "%d", v)\<close>: leading blanks are skipped, then a sign and the longest run of
  digits; what follows is left unread.\<close>

definition Sscanf_d :: "string \<Rightarrow> int option" where
  "Sscanf_d s = (case sign_of (dropWhile (\<lambda>c. is_space c \<and> c \<noteq> CHR 0x0A) s) of (neg, rest) \<Rightarrow>
     let ds = takeWhile is_digit rest in
     if ds = [] then None
     else let i = (if neg then - int (digits_val ds) else int (digits_val ds)) in
          if int64_range i then Some i else None)"

subsection \<open>Reading back what was printed\<close>

lemma digit_table:
  "list_all (\<lambda>d. is_digit (digit_char d) \<and> digit_val (digit_char d) = d \<and> digit_char d \<noteq> CHR ''-'' \<and>
     digit_char d \<noteq> CHR ''+'' \<and> \<not> is_space (digit_char d) \<and> digit_char d \<noteq> CHR ''.'' \<and>
     digit_char d \<noteq> CHR '':'' \<and> digit_char d \<noteq> CHR ''T'') [0..<10]"
  by code_simp

lemma digit_char_less:
  assumes "d < 10"
  shows "is_digit (digit_char d)" "digit_val (digit_char d) = d" "digit_char d \<noteq> CHR ''-''"
    "digit_char d \<noteq> CHR ''+''" "\<not> is_space (digit_char d)" "digit_char d \<noteq> CHR ''.''"
    "digit_char d \<noteq> CHR '':''" "digit_char d \<noteq> CHR ''T''"
proof -
  have "d \<in> set [0..<10]" using assms by simp
  note t = digit_table [unfolded list_all_iff, rule_format, OF this]
  show "is_digit (digit_char d)" "digit_val (digit_char d) = d" "digit_char d \<noteq> CHR ''-''"
    "digit_char d \<noteq> CHR ''+''" "\<not> is_space (digit_char d)" "digit_char d \<noteq> CHR ''.''"
    "digit_char d \<noteq> CHR '':''" "digit_char d \<noteq> CHR ''T''" using t by blast+
qed

lemma digits_val_snoc: "digits_val (ds @ [d]) = 10 * digits_val ds + digit_val d"
  by (simp add: digits_val_def)

lemma nat_digits_not_Nil [simp]: "nat_digits n \<noteq> []"
  by (subst nat_digits.simps) simp

lemma nat_digits_all:
  assumes "\<And>d. d < 10 \<Longrightarrow> P (digit_char d)"
  shows "list_all P (nat_digits n)"
proof (induction n rule: nat_digits.induct)
  case (1 n)
  show ?case by (subst nat_digits.simps) (use 1 assms in auto)
qed

lemma digits_val_nat_digits [simp]: "digits_val (nat_digits n) = n"
proof (induction n rule: nat_digits.induct)
  case (1 n)
  show ?case
  proof (cases "n < 10")
    case True
    then show ?thesis by (subst nat_digits.simps) (simp add: digits_val_def digit_char_less)
  next
    case False
    then have "digits_val (nat_digits n) = 10 * digits_val (nat_digits (n div 10)) + digit_val (digit_char (n mod 10))"
      by (subst nat_digits.simps) (simp add: digits_val_snoc)
    also have "\<dots> = n" using 1 [OF False] by (simp add: digit_char_less)
    finally show ?thesis .
  qed
qed

lemma nat_digits_hd:
  assumes "\<And>d. d < 10 \<Longrightarrow> P (digit_char d)"
  shows "P (hd (nat_digits n))"
  using nat_digits_all [of P n] assms nat_digits_not_Nil [of n] by (cases "nat_digits n") auto

lemma sign_of_digits: "sign_of (nat_digits n @ rest) = (False, nat_digits n @ rest)"
  using nat_digits_hd [of "\<lambda>c. c \<noteq> CHR ''-'' \<and> c \<noteq> CHR ''+''" n] digit_char_less
  by (cases "nat_digits n") (auto simp: sign_of_def)

lemma takeWhile_digits:
  assumes "rest = [] \<or> \<not> is_digit (hd rest)"
  shows "takeWhile is_digit (nat_digits n @ rest) = nat_digits n"
proof -
  have "list_all is_digit (nat_digits n)" by (rule nat_digits_all) (simp add: digit_char_less)
  moreover have "takeWhile is_digit rest = []" using assms by (cases rest) auto
  ultimately show ?thesis by (simp add: takeWhile_append2 list_all_iff)
qed

lemma sign_of_print_int:
  "sign_of (print_int i @ rest) = (i < 0, nat_digits (nat \<bar>i\<bar>) @ rest)"
  by (simp add: print_int_def sign_of_digits) (simp add: sign_of_def)

lemma ParseInt_print_int:
  assumes "int64_range i"
  shows "ParseInt (print_int i) = Some i"
proof -
  have "list_all is_digit (nat_digits (nat \<bar>i\<bar>))" by (rule nat_digits_all) (simp add: digit_char_less)
  then show ?thesis using sign_of_print_int [of i "[]"] assms by (simp add: ParseInt_def Let_def)
qed

lemma Sscanf_d_print_int:
  assumes "int64_range i" "rest = [] \<or> \<not> is_digit (hd rest)"
  shows "Sscanf_d (print_int i @ rest) = Some i"
proof -
  have "print_int i @ rest \<noteq> [] \<and> \<not> is_space (hd (print_int i @ rest))"
    using nat_digits_hd [of "\<lambda>c. \<not> is_space c" "nat i"] digit_char_less(5)
    by (auto simp: print_int_def is_space_def hd_append)
  then have "dropWhile (\<lambda>c. is_space c \<and> c \<noteq> CHR 0x0A) (print_int i @ rest) = print_int i @ rest"
    by (cases "print_int i @ rest") auto
  then show ?thesis
    using takeWhile_digits [OF assms(2)] sign_of_print_int [of i rest] assms(1)
    by (simp add: Sscanf_d_def Let_def)
qed

lemma ParseInt_range: "ParseInt s = Some i \<Longrightarrow> int64_range i"
  by (auto simp: ParseInt_def Let_def split: if_splits prod.splits)

lemma print_int_no_dot: "CHR ''.'' \<notin> set (print_int i)"
  using nat_digits_all [of "\<lambda>c. c \<noteq> CHR ''.''"] digit_char_less(6)
  by (auto simp: print_int_def list_all_iff)

section \<open>Pattern matching in queries\<close>

text \<open>PostgreSQL's \<open>ILIKE\<close>: \<open>%\<close> matches any text, \<open>_\<close> any character, a backslash makes the next
  character literal; letters match in either case.\<close>

fun like_match :: "string \<Rightarrow> string \<Rightarrow> bool" where
  "like_match [] s = (s = [])"
| "like_match (p # ps) s =
     (if p = CHR ''%'' then
        like_match ps s \<or> (case s of [] \<Rightarrow> False | _ # s' \<Rightarrow> like_match (p # ps) s')
      else if p = CHR ''_'' then (case s of [] \<Rightarrow> False | _ # s' \<Rightarrow> like_match ps s')
      else if p = CHR 0x5C \<and> ps \<noteq> [] then
        (case s of [] \<Rightarrow> False | c # s' \<Rightarrow> c = hd ps \<and> like_match (tl ps) s')
      else (case s of [] \<Rightarrow> False | c # s' \<Rightarrow> c = p \<and> like_match ps s'))"

definition ilike :: "string \<Rightarrow> string \<Rightarrow> bool" where
  "ilike pat s = like_match (ToLower pat) (ToLower s)"

end
