(* ===== verification/Payment_Service.thy ===== *)
theory Payment_Service
  imports Payments Go_Stdlib
begin

text \<open>
  \<^verbatim>\<open>services/payment_service.go\<close> over the interface \<open>BillingPaymentRepo\<close> it declares, with the
  types of \<^verbatim>\<open>payments/provider.go\<close> and the registry of \<^verbatim>\<open>payments/registry.go\<close>. The
  repository is a record of operations, as the Go interface is; the locale \<open>payment_repo\<close> states
  what the service relies on and carries its lemmas; it is interpreted on the repository of
  \<^verbatim>\<open>billing_payment_repo.go\<close>. Log lines are left out.
\<close>

section \<open>Providers and the registry\<close>

type_synonym metadata_map = "(string \<times> string) list"

text \<open>Reading a Go map gives the zero value for a missing key.\<close>

definition meta :: "metadata_map \<Rightarrow> string \<Rightarrow> string" where
  "meta m k = (case map_of m k of None \<Rightarrow> '''' | Some v \<Rightarrow> v)"

record PaymentRequest =
  pr_CustomerID :: string
  pr_CustomerEmail :: string
  pr_AmountCents :: int64
  pr_Currency :: string
  pr_Description :: string
  pr_ReturnURL :: string
  pr_CancelURL :: string
  pr_Metadata :: metadata_map

record PaymentSession =
  ps_ID :: string
  ps_GatewaySessionID :: string
  ps_PaymentURL :: string

datatype WebhookEventType =
    WebhookEventPaymentCompleted
  | WebhookEventPaymentFailed
  | WebhookEventRefundCompleted
  | WebhookEventOther string

record WebhookEvent =
  we_Type :: WebhookEventType
  we_GatewayEventID :: string
  we_PaymentID :: string
  we_AmountCents :: int64
  we_Currency :: string
  we_Status :: string
  we_IdempotencyKey :: string
  we_Metadata :: metadata_map

record RefundResult =
  rr_GatewayRefundID :: string
  rr_GatewayPaymentID :: string
  rr_AmountCents :: int64
  rr_Currency :: string
  rr_Status :: string

text \<open>A provider: the methods of \<open>PaymentProvider\<close> the service calls, and the two optional
  interfaces \<open>PayPalWebhookVerifier\<close> and \<open>PayPalOrderCapturer\<close> it asks for by a type assertion.
  What the remote side answers is what the functions return.\<close>

record PaymentProvider =
  pp_CreatePaymentSession :: "PaymentRequest \<Rightarrow> error + PaymentSession"
  pp_HandleWebhook :: "string \<Rightarrow> string \<Rightarrow> error + WebhookEvent option"
  pp_RefundPayment :: "string \<Rightarrow> int64 \<Rightarrow> string \<Rightarrow> error + RefundResult"
  pp_VerifyWebhookSignature :: "((string \<times> string) list \<Rightarrow> string \<Rightarrow> error + unit) option"
  pp_CaptureOrder :: "(string \<Rightarrow> error + string \<times> string \<times> string \<times> int64) option"

type_synonym PaymentRegistry = "(string \<times> PaymentProvider) list"

definition registry_Register :: "string \<Rightarrow> PaymentProvider \<Rightarrow> PaymentRegistry \<Rightarrow> error + PaymentRegistry" where
  "registry_Register name p reg =
     (if map_of reg name \<noteq> None then Inl (ErrMsg ''payment provider already registered'')
      else Inr ((name, p) # reg))"

definition registry_Get :: "PaymentRegistry \<Rightarrow> string \<Rightarrow> error + PaymentProvider" where
  "registry_Get reg name = (case map_of reg name of None \<Rightarrow> Inl ErrNotFound | Some p \<Rightarrow> Inr p)"

definition registry_Available :: "PaymentRegistry \<Rightarrow> string list" where
  "registry_Available reg = map fst reg"

section \<open>The repository interface\<close>

record 's BillingPaymentRepo =
  r_Create :: "BillingPayment \<Rightarrow> ('s, BillingPayment) db_op"
  r_GetByID :: "string \<Rightarrow> ('s, BillingPayment) db_op"
  r_GetByGatewayPaymentID :: "string \<Rightarrow> string \<Rightarrow> ('s, BillingPayment) db_op"
  r_UpdateStatus :: "string \<Rightarrow> string \<Rightarrow> string option \<Rightarrow> ('s, unit) db_op"
  r_CompleteWithGatewayPaymentIDAndCredit :: "PaymentCompletionCredit \<Rightarrow> ('s, bool) db_op"
  r_CompletePayPalCaptureAndCredit :: "PayPalCaptureCredit \<Rightarrow> ('s, bool) db_op"
  r_MarkRefundedAndDebit :: "PaymentRefundDebit \<Rightarrow> ('s, unit) db_op"
  r_ListByCustomer :: "string \<Rightarrow> nat \<Rightarrow> string \<Rightarrow> ('s, BillingPayment list \<times> bool \<times> string) db_op"
  r_ListAll :: "BillingPaymentListFilter \<Rightarrow> ('s, BillingPayment list \<times> bool \<times> string) db_op"

section \<open>The service\<close>

definition InitiateTopUp ::
  "'s BillingPaymentRepo \<Rightarrow> PaymentRegistry \<Rightarrow> string \<Rightarrow> string \<Rightarrow> int64 \<Rightarrow> string \<Rightarrow> string \<Rightarrow> string \<Rightarrow> string
   \<Rightarrow> ('s, PaymentSession \<times> string) db_op" where
  "InitiateTopUp repo reg customerID email amountCents currency gateway returnURL cancelURL =
     bind_db (lift_db (registry_Get reg gateway)) (\<lambda>provider.
     bind_db (r_Create repo \<lparr>bp_ID = '''', bp_CustomerID = customerID, bp_Gateway = gateway,
                bp_GatewayPaymentID = None, bp_Amount = amountCents, bp_Currency = currency,
                bp_Status = PaymentStatusPending, bp_ReuseKey = None, bp_Metadata = None,
                bp_CreatedAt = 0, bp_UpdatedAt = 0\<rparr>) (\<lambda>payment.
     bind_db (lift_db (pp_CreatePaymentSession provider
                \<lparr>pr_CustomerID = customerID, pr_CustomerEmail = email, pr_AmountCents = amountCents,
                 pr_Currency = currency, pr_Description = ''Credit Top-Up'', pr_ReturnURL = returnURL,
                 pr_CancelURL = cancelURL,
                 pr_Metadata = [(''payment_id'', bp_ID payment), (''customer_id'', customerID)]\<rparr>)) (\<lambda>sess.
     bind_db (if ps_GatewaySessionID sess \<noteq> ''''
              then log_error (r_UpdateStatus repo (bp_ID payment) PaymentStatusPending
                                (Some (ps_GatewaySessionID sess)))
              else return_db ()) (\<lambda>_.
     return_db (sess, bp_ID payment)))))"

definition isNotFoundError :: "error \<Rightarrow> bool" where
  "isNotFoundError e \<longleftrightarrow> e = ErrNotFound"

definition validatePaymentMatchesEvent :: "BillingPayment \<Rightarrow> string \<Rightarrow> WebhookEvent \<Rightarrow> error + unit" where
  "validatePaymentMatchesEvent payment customerID event =
     (if bp_CustomerID payment \<noteq> customerID
      then Inl (ErrValidation ''customer_id'' ''payment customer mismatch'')
      else if bp_Amount payment \<noteq> we_AmountCents event
      then Inl (ErrValidation ''amount'' ''payment amount mismatch'')
      else if \<not> EqualFold (bp_Currency payment) (we_Currency event)
      then Inl (ErrValidation ''currency'' ''payment currency mismatch'')
      else Inr ())"

definition paymentCreditIdempotencyKey :: "string \<Rightarrow> WebhookEvent \<Rightarrow> string" where
  "paymentCreditIdempotencyKey gateway event =
     (if gateway = PaymentGatewayPayPal \<and> we_IdempotencyKey event \<noteq> '''' then we_IdempotencyKey event
      else if we_PaymentID event \<noteq> '''' then gateway @ '':payment:'' @ we_PaymentID event
      else we_IdempotencyKey event)"

definition lookupPayPalWebhookPayment ::
  "'s BillingPaymentRepo \<Rightarrow> string \<Rightarrow> WebhookEvent \<Rightarrow> ('s, BillingPayment) db_op" where
  "lookupPayPalWebhookPayment repo orderID event s =
     (if we_PaymentID event \<noteq> '''' then
        (case r_GetByGatewayPaymentID repo PaymentGatewayPayPal (we_PaymentID event) s of
           (Inr payment, s1) \<Rightarrow> (Inr payment, s1)
         | (Inl e, s1) \<Rightarrow> if \<not> isNotFoundError e then (Inl e, s1)
                         else r_GetByGatewayPaymentID repo PaymentGatewayPayPal orderID s1)
      else r_GetByGatewayPaymentID repo PaymentGatewayPayPal orderID s)"

definition lookupWebhookPayment ::
  "'s BillingPaymentRepo \<Rightarrow> string \<Rightarrow> WebhookEvent \<Rightarrow> ('s, BillingPayment) db_op" where
  "lookupWebhookPayment repo gateway event =
     (let paymentRef = meta (we_Metadata event) ''payment_id'' in
      if paymentRef = '''' then throw_db (ErrMsg ''webhook event missing payment_id metadata'')
      else if gateway = PaymentGatewayPayPal then lookupPayPalWebhookPayment repo paymentRef event
      else r_GetByID repo paymentRef)"

definition paymentForCompletedEvent ::
  "'s BillingPaymentRepo \<Rightarrow> string \<Rightarrow> WebhookEvent \<Rightarrow> ('s, BillingPayment) db_op" where
  "paymentForCompletedEvent repo gateway event =
     (let customerID = meta (we_Metadata event) ''customer_id'' in
      if customerID = '''' then throw_db (ErrMsg ''webhook event missing customer_id metadata'')
      else bind_db (lookupWebhookPayment repo gateway event) (\<lambda>payment.
           bind_db (lift_db (validatePaymentMatchesEvent payment customerID event)) (\<lambda>_.
           return_db payment)))"

record paymentSettlement =
  set_Payment :: BillingPayment
  set_Gateway :: string
  set_GatewayPaymentID :: string
  set_PayPalOrderID :: string
  set_CustomerID :: string
  set_AmountCents :: int64
  set_Description :: string
  set_IdempotencyKey :: string

definition settlePayment :: "'s BillingPaymentRepo \<Rightarrow> paymentSettlement \<Rightarrow> ('s, bool) db_op" where
  "settlePayment repo settlement =
     (if set_Gateway settlement = PaymentGatewayPayPal \<and> set_PayPalOrderID settlement \<noteq> '''' then
        r_CompletePayPalCaptureAndCredit repo
          \<lparr>ppc_PaymentID = bp_ID (set_Payment settlement), ppc_OrderID = set_PayPalOrderID settlement,
           ppc_CaptureID = set_GatewayPaymentID settlement, ppc_CustomerID = set_CustomerID settlement,
           ppc_Amount = set_AmountCents settlement, ppc_Description = set_Description settlement,
           ppc_IdempotencyKey = set_IdempotencyKey settlement\<rparr>
      else
        r_CompleteWithGatewayPaymentIDAndCredit repo
          \<lparr>pcc_PaymentID = bp_ID (set_Payment settlement), pcc_Gateway = set_Gateway settlement,
           pcc_GatewayPaymentID = set_GatewayPaymentID settlement, pcc_CustomerID = set_CustomerID settlement,
           pcc_Amount = set_AmountCents settlement, pcc_Description = set_Description settlement,
           pcc_IdempotencyKey = set_IdempotencyKey settlement\<rparr>)"

text \<open>A settlement that was not claimed is a duplicate and is only logged.\<close>

definition handlePaymentCompleted ::
  "'s BillingPaymentRepo \<Rightarrow> string \<Rightarrow> WebhookEvent \<Rightarrow> ('s, unit) db_op" where
  "handlePaymentCompleted repo gateway event =
     bind_db (paymentForCompletedEvent repo gateway event) (\<lambda>payment.
     bind_db (settlePayment repo
       \<lparr>set_Payment = payment, set_Gateway = gateway, set_GatewayPaymentID = we_PaymentID event,
        set_PayPalOrderID = meta (we_Metadata event) ''payment_id'', set_CustomerID = bp_CustomerID payment,
        set_AmountCents = we_AmountCents event, set_Description = ''Top-up via '' @ gateway,
        set_IdempotencyKey = paymentCreditIdempotencyKey gateway event\<rparr>) (\<lambda>claimed.
     return_db ()))"

definition handlePaymentFailed :: "'s BillingPaymentRepo \<Rightarrow> WebhookEvent \<Rightarrow> ('s, unit) db_op" where
  "handlePaymentFailed repo event =
     (let paymentID = meta (we_Metadata event) ''payment_id'' in
      if paymentID \<noteq> '''' then r_UpdateStatus repo paymentID PaymentStatusFailed (Some (we_PaymentID event))
      else return_db ())"

definition handleRefundCompleted ::
  "'s BillingPaymentRepo \<Rightarrow> string \<Rightarrow> WebhookEvent \<Rightarrow> ('s, unit) db_op" where
  "handleRefundCompleted repo gateway event =
     bind_db (r_GetByGatewayPaymentID repo gateway (we_PaymentID event)) (\<lambda>existing.
       r_MarkRefundedAndDebit repo
         \<lparr>prd_PaymentID = bp_ID existing, prd_CustomerID = bp_CustomerID existing,
          prd_Amount = we_AmountCents event, prd_Description = ''Refund via '' @ gateway,
          prd_IdempotencyKey = we_IdempotencyKey event\<rparr>)"

definition routeWebhookEvent ::
  "'s BillingPaymentRepo \<Rightarrow> string \<Rightarrow> WebhookEvent \<Rightarrow> ('s, unit) db_op" where
  "routeWebhookEvent repo gateway event =
     (case we_Type event of
        WebhookEventPaymentCompleted \<Rightarrow> handlePaymentCompleted repo gateway event
      | WebhookEventPaymentFailed \<Rightarrow> handlePaymentFailed repo event
      | WebhookEventRefundCompleted \<Rightarrow> handleRefundCompleted repo gateway event
      | WebhookEventOther _ \<Rightarrow> return_db ())"

definition HandleWebhook ::
  "'s BillingPaymentRepo \<Rightarrow> PaymentRegistry \<Rightarrow> string \<Rightarrow> string \<Rightarrow> string \<Rightarrow> ('s, unit) db_op" where
  "HandleWebhook repo reg gateway payload signature =
     bind_db (lift_db (registry_Get reg gateway)) (\<lambda>provider.
     bind_db (lift_db (pp_HandleWebhook provider payload signature)) (\<lambda>event.
       case event of None \<Rightarrow> return_db () | Some ev \<Rightarrow> routeWebhookEvent repo gateway ev))"

definition HandlePayPalWebhook ::
  "'s BillingPaymentRepo \<Rightarrow> PaymentRegistry \<Rightarrow> (string \<times> string) list \<Rightarrow> string \<Rightarrow> ('s, unit) db_op" where
  "HandlePayPalWebhook repo reg headers payload =
     bind_db (lift_db (registry_Get reg ''paypal'')) (\<lambda>provider.
       case pp_VerifyWebhookSignature provider of
         None \<Rightarrow> throw_db (ErrMsg ''paypal provider missing webhook verifier'')
       | Some verify \<Rightarrow>
           bind_db (lift_db (verify headers payload)) (\<lambda>_.
             HandleWebhook repo reg ''paypal'' payload ''''))"

subsection \<open>Crypto payments\<close>

definition cryptoPaymentForCredit ::
  "'s BillingPaymentRepo \<Rightarrow> string \<Rightarrow> string \<Rightarrow> ('s, BillingPayment) db_op" where
  "cryptoPaymentForCredit repo gateway gatewayPaymentID s =
     (case r_GetByGatewayPaymentID repo gateway gatewayPaymentID s of
        (Inr payment, s1) \<Rightarrow> (Inr payment, s1)
      | (Inl e, s1) \<Rightarrow> if \<not> isNotFoundError e then (Inl e, s1) else r_GetByID repo gatewayPaymentID s1)"

definition validateCryptoPayment :: "BillingPayment \<Rightarrow> string \<Rightarrow> int64 \<Rightarrow> string \<Rightarrow> error + unit" where
  "validateCryptoPayment payment accountID amountCents currency =
     (if bp_CustomerID payment \<noteq> accountID
      then Inl (ErrValidation ''customer_id'' ''payment customer mismatch'')
      else if bp_Amount payment \<noteq> amountCents
      then Inl (ErrValidation ''amount'' ''payment amount mismatch'')
      else if \<not> EqualFold (bp_Currency payment) currency
      then Inl (ErrValidation ''currency'' ''payment currency mismatch'')
      else Inr ())"

definition CreditFromPayment ::
  "'s BillingPaymentRepo \<Rightarrow> string \<Rightarrow> int64 \<Rightarrow> string \<Rightarrow> string \<Rightarrow> string \<Rightarrow> string \<Rightarrow> string \<Rightarrow> ('s, unit) db_op" where
  "CreditFromPayment repo accountID amountCents currency gateway gatewayPaymentID externalPaymentID idempotencyKey =
     bind_db (cryptoPaymentForCredit repo gateway gatewayPaymentID) (\<lambda>existing.
     bind_db (lift_db (validateCryptoPayment existing accountID amountCents currency)) (\<lambda>_.
     bind_db (settlePayment repo
       \<lparr>set_Payment = existing, set_Gateway = gateway,
        set_GatewayPaymentID = (if externalPaymentID = '''' then gatewayPaymentID else externalPaymentID),
        set_PayPalOrderID = '''', set_CustomerID = accountID, set_AmountCents = amountCents,
        set_Description = ''Top-up via '' @ gateway, set_IdempotencyKey = idempotencyKey\<rparr>) (\<lambda>claimed.
     return_db ())))"

subsection \<open>Top-up configuration\<close>

record TopUpConfig =
  tc_MinAmountCents :: int
  tc_MaxAmountCents :: int
  tc_Presets :: "int list"
  tc_Gateways :: "string list"
  tc_Currency :: string

definition parseInt64Slice :: "string \<Rightarrow> int list" where
  "parseInt64Slice s = List.map_filter (\<lambda>part. ParseInt (TrimSpace part)) (Split (CHR '','') s)"

text \<open>A setting that cannot be read or parsed leaves the default.\<close>

definition int_setting :: "(string \<Rightarrow> error + string) \<Rightarrow> string \<Rightarrow> int \<Rightarrow> int" where
  "int_setting settings key def =
     (case settings key of Inl _ \<Rightarrow> def
      | Inr v \<Rightarrow> (case ParseInt v of None \<Rightarrow> def | Some i \<Rightarrow> i))"

definition loadTopUpSettings ::
  "(string \<Rightarrow> error + string) \<Rightarrow> int \<times> int \<times> int list \<Rightarrow> int \<times> int \<times> int list" where
  "loadTopUpSettings settings cfg = (case cfg of (minAmount, maxAmount, presets) \<Rightarrow>
     (int_setting settings ''billing.topup.min_amount'' minAmount,
      int_setting settings ''billing.topup.max_amount'' maxAmount,
      case settings ''billing.topup.presets'' of Inl _ \<Rightarrow> presets
      | Inr v \<Rightarrow> if parseInt64Slice v \<noteq> [] then parseInt64Slice v else presets))"

definition GetTopUpConfig :: "PaymentRegistry \<Rightarrow> (string \<Rightarrow> error + string) option \<Rightarrow> TopUpConfig" where
  "GetTopUpConfig reg settingsRepo =
     (let defaults = (500, 50000, [500, 1000, 2500, 5000, 10000]);
          cfg = (case settingsRepo of None \<Rightarrow> defaults | Some settings \<Rightarrow> loadTopUpSettings settings defaults)
      in case cfg of (minAmount, maxAmount, presets) \<Rightarrow>
        \<lparr>tc_MinAmountCents = minAmount, tc_MaxAmountCents = maxAmount, tc_Presets = presets,
         tc_Gateways = registry_Available reg, tc_Currency = ''USD''\<rparr>)"

subsection \<open>Refunds\<close>

definition paypalCaptureIDFromMetadata :: "(string \<times> string) list option \<Rightarrow> string" where
  "paypalCaptureIDFromMetadata metadata =
     (case metadata_member ''paypal_capture_id'' metadata of None \<Rightarrow> '''' | Some c \<Rightarrow> c)"

definition refundGatewayPaymentID :: "BillingPayment \<Rightarrow> string" where
  "refundGatewayPaymentID payment =
     (if bp_Gateway payment = PaymentGatewayPayPal \<and> paypalCaptureIDFromMetadata (bp_Metadata payment) \<noteq> ''''
      then paypalCaptureIDFromMetadata (bp_Metadata payment)
      else case bp_GatewayPaymentID payment of None \<Rightarrow> '''' | Some g \<Rightarrow> g)"

definition validateRefund :: "BillingPayment \<Rightarrow> int64 \<Rightarrow> error + unit" where
  "validateRefund payment amountCents =
     (if bp_Status payment \<noteq> PaymentStatusCompleted
      then Inl (ErrValidation ''status'' ''can only refund completed payments'')
      else if refundGatewayPaymentID payment = ''''
      then Inl (ErrValidation ''gateway_payment_id'' ''payment has no gateway reference for refund'')
      else if sint amountCents \<le> 0 \<or> sint amountCents > sint (bp_Amount payment)
      then Inl (ErrValidation ''amount'' ''refund amount must be between 1 and the original payment amount'')
      else Inr ())"

definition RefundPayment ::
  "'s BillingPaymentRepo \<Rightarrow> PaymentRegistry \<Rightarrow> string \<Rightarrow> int64 \<Rightarrow> ('s, RefundResult) db_op" where
  "RefundPayment repo reg paymentID amountCents =
     bind_db (r_GetByID repo paymentID) (\<lambda>payment.
     bind_db (lift_db (validateRefund payment amountCents)) (\<lambda>_.
     bind_db (lift_db (registry_Get reg (bp_Gateway payment))) (\<lambda>provider.
       lift_db (pp_RefundPayment provider (refundGatewayPaymentID payment) amountCents (bp_Currency payment)))))"

subsection \<open>PayPal captures\<close>

record PayPalCaptureResult =
  cr_CaptureID :: string
  cr_Status :: string
  cr_AmountCents :: int64
  cr_Currency :: string

definition completedPayPalCaptureResult :: "BillingPayment \<Rightarrow> PayPalCaptureResult option" where
  "completedPayPalCaptureResult payment =
     (if bp_Status payment \<noteq> PaymentStatusCompleted then None
      else if paypalCaptureIDFromMetadata (bp_Metadata payment) = '''' then None
      else Some \<lparr>cr_CaptureID = paypalCaptureIDFromMetadata (bp_Metadata payment), cr_Status = ''COMPLETED'',
                 cr_AmountCents = bp_Amount payment, cr_Currency = bp_Currency payment\<rparr>)"

definition validatePayPalCapture :: "BillingPayment \<Rightarrow> PayPalCaptureResult \<Rightarrow> error + unit" where
  "validatePayPalCapture payment result =
     (if cr_Status result \<noteq> ''COMPLETED''
      then Inl (ErrValidation ''status'' ''paypal capture not completed'')
      else if bp_Amount payment \<noteq> cr_AmountCents result
      then Inl (ErrValidation ''amount'' ''paypal capture amount mismatch'')
      else if \<not> EqualFold (bp_Currency payment) (cr_Currency result)
      then Inl (ErrValidation ''currency'' ''paypal capture currency mismatch'')
      else Inr ())"

definition creditFromCapture ::
  "'s BillingPaymentRepo \<Rightarrow> string \<Rightarrow> string \<Rightarrow> string \<Rightarrow> PayPalCaptureResult \<Rightarrow> ('s, PayPalCaptureResult) db_op" where
  "creditFromCapture repo paymentRecordID customerID orderID result =
     bind_db (r_CompletePayPalCaptureAndCredit repo
       \<lparr>ppc_PaymentID = paymentRecordID, ppc_OrderID = orderID, ppc_CaptureID = cr_CaptureID result,
        ppc_CustomerID = customerID, ppc_Amount = cr_AmountCents result,
        ppc_Description = ''Top-up via paypal'',
        ppc_IdempotencyKey = ''paypal:capture:'' @ cr_CaptureID result\<rparr>) (\<lambda>claimed.
       if \<not> claimed then throw_db ErrConflict else return_db result)"

definition CapturePayPalOrder ::
  "'s BillingPaymentRepo \<Rightarrow> PaymentRegistry \<Rightarrow> string \<Rightarrow> string \<Rightarrow> ('s, PayPalCaptureResult) db_op" where
  "CapturePayPalOrder repo reg customerID orderID s =
     (case r_GetByGatewayPaymentID repo ''paypal'' orderID s of
        (Inl _, s1) \<Rightarrow> (Inl ErrNotFound, s1)
      | (Inr payment, s1) \<Rightarrow>
          if bp_CustomerID payment \<noteq> customerID then (Inl ErrForbidden, s1)
          else case completedPayPalCaptureResult payment of
            Some result \<Rightarrow> creditFromCapture repo (bp_ID payment) customerID orderID result s1
          | None \<Rightarrow>
              bind_db (lift_db (registry_Get reg ''paypal'')) (\<lambda>provider.
                case pp_CaptureOrder provider of
                  None \<Rightarrow> throw_db (ErrMsg ''paypal provider missing capture support'')
                | Some capture \<Rightarrow>
                    bind_db (lift_db (capture orderID)) (\<lambda>(capID, status, currency, cents).
                      let result = \<lparr>cr_CaptureID = capID, cr_Status = status, cr_AmountCents = cents,
                                    cr_Currency = currency\<rparr> in
                      bind_db (lift_db (validatePayPalCapture payment result)) (\<lambda>_.
                        creditFromCapture repo (bp_ID payment) customerID orderID result))) s1)"

definition GetPaymentHistory ::
  "'s BillingPaymentRepo \<Rightarrow> string \<Rightarrow> nat \<Rightarrow> string \<Rightarrow> ('s, BillingPayment list \<times> bool \<times> string) db_op" where
  "GetPaymentHistory repo customerID perPage lastID = r_ListByCustomer repo customerID perPage lastID"

definition ListAllPayments ::
  "'s BillingPaymentRepo \<Rightarrow> BillingPaymentListFilter \<Rightarrow> ('s, BillingPayment list \<times> bool \<times> string) db_op" where
  "ListAllPayments repo f = r_ListAll repo f"

section \<open>What the service relies on\<close>

text \<open>An operation is safe in a state when whatever it answers it keeps the invariant and every
  credit it books is accounted for.\<close>

definition safe_at :: "('s \<Rightarrow> bool) \<Rightarrow> ('s \<Rightarrow> 's \<Rightarrow> bool) \<Rightarrow> ('s, 'a) db_op \<Rightarrow> 's \<Rightarrow> bool" where
  "safe_at I acc op s \<longleftrightarrow> (\<forall>r t. op s = (r, t) \<longrightarrow> I t \<and> acc s t)"

definition names_payment :: "BillingPayment list \<Rightarrow> string \<Rightarrow> string \<Rightarrow> int64 \<Rightarrow> bool" where
  "names_payment ps pid c a \<longleftrightarrow> (\<forall>p\<in>set ps. bp_ID p = pid \<longrightarrow> bp_CustomerID p = c \<and> bp_Amount p = a)"

text \<open>An event as the gateways make it: a completed payment carries the gateway's payment
  identifier, and a PayPal event carries the key of its capture.\<close>

definition canonical_event :: "string \<Rightarrow> WebhookEvent \<Rightarrow> bool" where
  "canonical_event gateway ev \<longleftrightarrow>
     (we_Type ev = WebhookEventPaymentCompleted \<longrightarrow>
        we_PaymentID ev \<noteq> '''' \<and> gateway \<noteq> PaymentGatewayBTCPay \<and>
        (gateway = PaymentGatewayPayPal \<longrightarrow> we_IdempotencyKey ev = ''paypal:capture:'' @ we_PaymentID ev))"

lemma canonical_key:
  assumes "canonical_event gateway ev" "we_Type ev = WebhookEventPaymentCompleted"
  shows "paymentCreditIdempotencyKey gateway ev = settlement_key gateway (we_PaymentID ev)"
  using assms by (auto simp: canonical_event_def paymentCreditIdempotencyKey_def settlement_key_def)

locale payment_repo =
  fixes repo :: "'s BillingPaymentRepo"
    and inv :: "'s \<Rightarrow> bool"
    and acc :: "'s \<Rightarrow> 's \<Rightarrow> bool"
    and rows :: "'s \<Rightarrow> BillingPayment list"
  assumes acc_refl: "acc s s"
    and acc_trans: "acc s t \<Longrightarrow> acc t u \<Longrightarrow> acc s u"
    and ids_unique: "inv s \<Longrightarrow> distinct (map bp_ID (rows s))"
    and create_law: "inv s \<Longrightarrow> bp_Status p = PaymentStatusPending \<Longrightarrow> r_Create repo p s = (r, t) \<Longrightarrow>
      inv t \<and> acc s t \<and> (\<forall>q. r = Inr q \<longrightarrow> q \<in> set (rows t) \<and> bp_Status q = PaymentStatusPending)"
    and get_law: "inv s \<Longrightarrow> r_GetByID repo pid s = (r, t) \<Longrightarrow>
      inv t \<and> acc s t \<and> rows t = rows s \<and> (\<forall>q. r = Inr q \<longrightarrow> q \<in> set (rows s))"
    and get_gateway_law: "inv s \<Longrightarrow> r_GetByGatewayPaymentID repo gw g s = (r, t) \<Longrightarrow>
      inv t \<and> acc s t \<and> rows t = rows s \<and> (\<forall>q. r = Inr q \<longrightarrow> q \<in> set (rows s))"
    and update_status_law: "inv s \<Longrightarrow>
      status = PaymentStatusFailed \<or> status = PaymentStatusPending \<and>
        (\<forall>p\<in>set (rows s). bp_ID p = pid \<longrightarrow> bp_Status p = PaymentStatusPending) \<Longrightarrow>
      r_UpdateStatus repo pid status g_opt s = (r1, t) \<Longrightarrow> inv t \<and> acc s t"
    and complete_law: "inv s \<Longrightarrow> pcc_Gateway req \<noteq> PaymentGatewayPayPal \<Longrightarrow>
      pcc_IdempotencyKey req = settlement_key (pcc_Gateway req) (pcc_GatewayPaymentID req) \<Longrightarrow>
      names_payment (rows s) (pcc_PaymentID req) (pcc_CustomerID req) (pcc_Amount req) \<Longrightarrow>
      r_CompleteWithGatewayPaymentIDAndCredit repo req s = (r2, t) \<Longrightarrow> inv t \<and> acc s t"
    and capture_law: "inv s \<Longrightarrow>
      ppc_IdempotencyKey preq = settlement_key PaymentGatewayPayPal (ppc_CaptureID preq) \<Longrightarrow>
      names_payment (rows s) (ppc_PaymentID preq) (ppc_CustomerID preq) (ppc_Amount preq) \<Longrightarrow>
      r_CompletePayPalCaptureAndCredit repo preq s = (r2, t) \<Longrightarrow> inv t \<and> acc s t"
    and refund_law: "inv s \<Longrightarrow> r_MarkRefundedAndDebit repo rreq s = (r1, t) \<Longrightarrow> inv t \<and> acc s t"
begin

lemma safe_return [simp]: "inv s \<Longrightarrow> safe_at inv acc (return_db x) s"
  by (simp add: safe_at_def return_db_def acc_refl)

lemma safe_throw [simp]: "inv s \<Longrightarrow> safe_at inv acc (throw_db e) s"
  by (simp add: safe_at_def throw_db_def acc_refl)

lemma safe_lift [simp]: "inv s \<Longrightarrow> safe_at inv acc (lift_db x) s"
  by (simp add: safe_at_def lift_db_def acc_refl)

lemma safe_bind:
  assumes m: "safe_at inv acc m s" and f: "\<And>x s1. m s = (Inr x, s1) \<Longrightarrow> inv s1 \<Longrightarrow> safe_at inv acc (f x) s1"
  shows "safe_at inv acc (bind_db m f) s"
  unfolding safe_at_def
proof (intro allI impI)
  fix r t assume "bind_db m f s = (r, t)"
  then show "inv t \<and> acc s t"
  proof (rule bind_db_cases)
    fix e assume "m s = (Inl e, t)" then show ?thesis using m by (simp add: safe_at_def)
  next
    fix x s1 assume 1: "m s = (Inr x, s1)" and 2: "f x s1 = (r, t)"
    then have "inv s1" "acc s s1" using m by (simp_all add: safe_at_def)
    then show ?thesis using f [OF 1] 2 acc_trans unfolding safe_at_def by blast
  qed
qed

lemma safe_bind_lift:
  assumes "inv s" and "\<And>x. r = Inr x \<Longrightarrow> safe_at inv acc (f x) s"
  shows "safe_at inv acc (bind_db (lift_db r) f) s"
  by (rule safe_bind) (use assms in \<open>auto simp: lift_db_def\<close>)

lemma names_member:
  assumes "inv s" "p \<in> set (rows s)"
  shows "names_payment (rows s) (bp_ID p) (bp_CustomerID p) (bp_Amount p)"
proof -
  have "q = p" if "q \<in> set (rows s)" "bp_ID q = bp_ID p" for q
    using inj_onD [OF distinct_map [THEN iffD1, OF ids_unique [OF assms(1)], THEN conjunct2] that(2) that(1) assms(2)] .
  then show ?thesis unfolding names_payment_def by blast
qed

lemma safe_settle:
  assumes "inv s" "set_Payment st \<in> set (rows s)"
    "set_CustomerID st = bp_CustomerID (set_Payment st)" "set_AmountCents st = bp_Amount (set_Payment st)"
    "set_IdempotencyKey st = settlement_key (set_Gateway st) (set_GatewayPaymentID st)"
    "set_Gateway st = PaymentGatewayPayPal \<Longrightarrow> set_PayPalOrderID st \<noteq> ''''"
  shows "safe_at inv acc (settlePayment repo st) s"
  unfolding safe_at_def
proof (intro allI impI)
  fix r t assume run: "settlePayment repo st s = (r, t)"
  note nm = names_member [OF assms(1,2)]
  show "inv t \<and> acc s t"
  proof (cases "set_Gateway st = PaymentGatewayPayPal")
    case True
    with run assms(6) have "r_CompletePayPalCaptureAndCredit repo
          \<lparr>ppc_PaymentID = bp_ID (set_Payment st), ppc_OrderID = set_PayPalOrderID st,
           ppc_CaptureID = set_GatewayPaymentID st, ppc_CustomerID = set_CustomerID st,
           ppc_Amount = set_AmountCents st, ppc_Description = set_Description st,
           ppc_IdempotencyKey = set_IdempotencyKey st\<rparr> s = (r, t)"
      by (simp add: settlePayment_def)
    from capture_law [OF assms(1) _ _ this] show ?thesis using True assms(3-5) nm by simp
  next
    case False
    with run have "r_CompleteWithGatewayPaymentIDAndCredit repo
          \<lparr>pcc_PaymentID = bp_ID (set_Payment st), pcc_Gateway = set_Gateway st,
           pcc_GatewayPaymentID = set_GatewayPaymentID st, pcc_CustomerID = set_CustomerID st,
           pcc_Amount = set_AmountCents st, pcc_Description = set_Description st,
           pcc_IdempotencyKey = set_IdempotencyKey st\<rparr> s = (r, t)"
      by (simp add: settlePayment_def)
    from complete_law [OF assms(1) _ _ _ this] show ?thesis using False assms(3-5) nm by simp
  qed
qed

lemma safe_get: "inv s \<Longrightarrow> safe_at inv acc (r_GetByID repo pid) s"
  "inv s \<Longrightarrow> safe_at inv acc (r_GetByGatewayPaymentID repo gw g) s"
  unfolding safe_at_def using get_law get_gateway_law by blast+

lemma get_row:
  "inv s \<Longrightarrow> r_GetByID repo pid s = (Inr p, t) \<Longrightarrow> p \<in> set (rows t)"
  "inv s \<Longrightarrow> r_GetByGatewayPaymentID repo gw g s = (Inr p, t) \<Longrightarrow> p \<in> set (rows t)"
  using get_law get_gateway_law by metis+

text \<open>The two lookups that try a second key when the first finds nothing.\<close>

lemma safe_second_try:
  assumes inv: "inv s"
    and run: "(case r_GetByGatewayPaymentID repo gw g s of
        (Inr payment, s1) \<Rightarrow> (Inr payment, s1)
      | (Inl e, s1) \<Rightarrow> if \<not> isNotFoundError e then (Inl e, s1) else second s1) = (r, t)"
    and second: "\<And>s1 r t. inv s1 \<Longrightarrow> second s1 = (r, t) \<Longrightarrow> inv t \<and> acc s1 t \<and> (\<forall>p. r = Inr p \<longrightarrow> p \<in> set (rows t))"
  shows "inv t \<and> acc s t \<and> (\<forall>p. r = Inr p \<longrightarrow> p \<in> set (rows t))"
proof -
  obtain r1 s1 where g: "r_GetByGatewayPaymentID repo gw g s = (r1, s1)" by fastforce
  note l = get_gateway_law [OF inv g]
  show ?thesis
  proof (cases r1)
    case (Inl e)
    then show ?thesis using run g l second [of s1 r t] acc_trans by (auto split: if_splits)
  next
    case (Inr p)
    then show ?thesis using run g l by auto
  qed
qed

lemma lookupWebhookPayment_law:
  assumes inv: "inv s" and run: "lookupWebhookPayment repo gateway ev s = (r, t)"
  shows "inv t \<and> acc s t \<and> (\<forall>p. r = Inr p \<longrightarrow> p \<in> set (rows t))"
proof -
  have g: "inv t \<and> acc s t \<and> (\<forall>p. r = Inr p \<longrightarrow> p \<in> set (rows t))"
    if "inv s" "r_GetByGatewayPaymentID repo gw g s = (r, t)" for s t r gw g
    using get_gateway_law [OF that] by auto
  show ?thesis
  proof (cases "meta (we_Metadata ev) ''payment_id'' = '''' \<or> gateway \<noteq> PaymentGatewayPayPal")
    case True
    then show ?thesis using run get_law [OF inv] inv acc_refl
      by (auto simp: lookupWebhookPayment_def throw_db_def Let_def split: if_splits)
  next
    case False
    then have lk: "lookupPayPalWebhookPayment repo (meta (we_Metadata ev) ''payment_id'') ev s = (r, t)"
      using run by (simp add: lookupWebhookPayment_def Let_def)
    show ?thesis
    proof (cases "we_PaymentID ev = ''''")
      case True
      then show ?thesis using lk g inv by (simp add: lookupPayPalWebhookPayment_def)
    next
      case False
      show ?thesis
        by (rule safe_second_try [OF inv _ g])
           (use lk False in \<open>auto simp: lookupPayPalWebhookPayment_def\<close>)
    qed
  qed
qed

end

subsection \<open>Every operation of the service is safe\<close>

context payment_repo
begin

lemma safe_handlePaymentCompleted:
  assumes inv: "inv s" and ev: "canonical_event gateway ev" "we_Type ev = WebhookEventPaymentCompleted"
  shows "safe_at inv acc (handlePaymentCompleted repo gateway ev) s"
  unfolding handlePaymentCompleted_def
proof (rule safe_bind)
  let ?c = "meta (we_Metadata ev) ''customer_id''"
  have look: "safe_at inv acc (lookupWebhookPayment repo gateway ev) s"
    using lookupWebhookPayment_law [OF inv] by (simp add: safe_at_def)
  then have "safe_at inv acc (bind_db (lookupWebhookPayment repo gateway ev) (\<lambda>payment.
           bind_db (lift_db (validatePaymentMatchesEvent payment ?c ev)) (\<lambda>_. return_db payment))) s"
    by (rule safe_bind) (rule safe_bind, simp_all)
  then show "safe_at inv acc (paymentForCompletedEvent repo gateway ev) s"
    using inv by (simp add: paymentForCompletedEvent_def Let_def)
next
  fix p s1
  assume run: "paymentForCompletedEvent repo gateway ev s = (Inr p, s1)" and s1: "inv s1"
  then have look: "lookupWebhookPayment repo gateway ev s = (Inr p, s1)"
    and val: "validatePaymentMatchesEvent p (meta (we_Metadata ev) ''customer_id'') ev = Inr ()"
    by (auto simp: paymentForCompletedEvent_def Let_def throw_db_def lift_db_def return_db_def split: if_splits)
  have p: "p \<in> set (rows s1)" using lookupWebhookPayment_law [OF inv look] by blast
  have a: "we_AmountCents ev = bp_Amount p"
    using val by (auto simp: validatePaymentMatchesEvent_def split: if_splits)
  have ref: "meta (we_Metadata ev) ''payment_id'' \<noteq> ''''"
    using look by (auto simp: lookupWebhookPayment_def Let_def throw_db_def split: if_splits)
  show "safe_at inv acc (bind_db (settlePayment repo
       \<lparr>set_Payment = p, set_Gateway = gateway, set_GatewayPaymentID = we_PaymentID ev,
        set_PayPalOrderID = meta (we_Metadata ev) ''payment_id'', set_CustomerID = bp_CustomerID p,
        set_AmountCents = we_AmountCents ev, set_Description = ''Top-up via '' @ gateway,
        set_IdempotencyKey = paymentCreditIdempotencyKey gateway ev\<rparr>) (\<lambda>claimed. return_db ())) s1"
    by (rule safe_bind, rule safe_settle [OF s1])
       (use p a ref canonical_key [OF ev] in simp_all)
qed

lemma safe_handlePaymentFailed:
  assumes "inv s"
  shows "safe_at inv acc (handlePaymentFailed repo ev) s"
  using update_status_law [OF assms, of PaymentStatusFailed] assms
  by (auto simp: handlePaymentFailed_def Let_def) (auto simp: safe_at_def)

lemma safe_handleRefundCompleted:
  assumes "inv s"
  shows "safe_at inv acc (handleRefundCompleted repo gateway ev) s"
  unfolding handleRefundCompleted_def
  by (rule safe_bind [OF safe_get(2) [OF assms]]) (use refund_law in \<open>auto simp: safe_at_def\<close>)

lemma safe_routeWebhookEvent:
  assumes "inv s" "canonical_event gateway ev"
  shows "safe_at inv acc (routeWebhookEvent repo gateway ev) s"
  using safe_handlePaymentCompleted [OF assms] safe_handlePaymentFailed [OF assms(1)]
    safe_handleRefundCompleted [OF assms(1)] assms(1)
  by (simp add: routeWebhookEvent_def split: WebhookEventType.split)

text \<open>A registry whose provider for the gateway makes canonical events.\<close>

lemma safe_HandleWebhook:
  assumes inv: "inv s"
    and ev: "\<And>p ev. registry_Get reg gateway = Inr p \<Longrightarrow> pp_HandleWebhook p payload sig = Inr (Some ev)
      \<Longrightarrow> canonical_event gateway ev"
  shows "safe_at inv acc (HandleWebhook repo reg gateway payload sig) s"
  unfolding HandleWebhook_def
proof (intro safe_bind_lift inv)
  fix p ev assume "registry_Get reg gateway = Inr p" "pp_HandleWebhook p payload sig = Inr ev"
  then show "safe_at inv acc (case ev of None \<Rightarrow> return_db () | Some ev \<Rightarrow> routeWebhookEvent repo gateway ev) s"
    using inv ev safe_routeWebhookEvent by (auto split: option.split)
qed

lemma safe_HandlePayPalWebhook:
  assumes inv: "inv s"
    and ev: "\<And>p ev. registry_Get reg ''paypal'' = Inr p \<Longrightarrow> pp_HandleWebhook p payload '''' = Inr (Some ev)
      \<Longrightarrow> canonical_event ''paypal'' ev"
  shows "safe_at inv acc (HandlePayPalWebhook repo reg headers payload) s"
  unfolding HandlePayPalWebhook_def
proof (intro safe_bind_lift inv)
  fix p assume "registry_Get reg ''paypal'' = Inr p"
  show "safe_at inv acc (case pp_VerifyWebhookSignature p of
         None \<Rightarrow> throw_db (ErrMsg ''paypal provider missing webhook verifier'')
       | Some verify \<Rightarrow> bind_db (lift_db (verify headers payload)) (\<lambda>_.
             HandleWebhook repo reg ''paypal'' payload '''')) s"
    using inv safe_HandleWebhook [OF inv ev] by (auto split: option.split intro: safe_bind_lift)
qed

lemma safe_CreditFromPayment:
  assumes inv: "inv s" and gw: "gateway \<noteq> PaymentGatewayPayPal"
    and key: "key = settlement_key gateway (if ext = '''' then g else ext)"
  shows "safe_at inv acc (CreditFromPayment repo c a cur gateway g ext key) s"
  unfolding CreditFromPayment_def
proof (rule safe_bind)
  have look: "inv t \<and> acc s t \<and> (\<forall>p. r = Inr p \<longrightarrow> p \<in> set (rows t))"
    if "cryptoPaymentForCredit repo gateway g s = (r, t)" for r t
    by (rule safe_second_try [OF inv that [unfolded cryptoPaymentForCredit_def]])
       (use get_law in auto)
  then show "safe_at inv acc (cryptoPaymentForCredit repo gateway g) s" by (simp add: safe_at_def)
  fix p s1 assume "cryptoPaymentForCredit repo gateway g s = (Inr p, s1)" and s1: "inv s1"
  then have p: "p \<in> set (rows s1)" using look by blast
  show "safe_at inv acc (bind_db (lift_db (validateCryptoPayment p c a cur)) (\<lambda>_.
     bind_db (settlePayment repo
       \<lparr>set_Payment = p, set_Gateway = gateway,
        set_GatewayPaymentID = (if ext = '''' then g else ext),
        set_PayPalOrderID = '''', set_CustomerID = c, set_AmountCents = a,
        set_Description = ''Top-up via '' @ gateway, set_IdempotencyKey = key\<rparr>) (\<lambda>claimed.
     return_db ()))) s1"
  proof (rule safe_bind_lift [OF s1])
    fix u assume "validateCryptoPayment p c a cur = Inr u"
    then have "c = bp_CustomerID p" "a = bp_Amount p"
      by (auto simp: validateCryptoPayment_def split: if_splits)
    then show "safe_at inv acc (bind_db (settlePayment repo
       \<lparr>set_Payment = p, set_Gateway = gateway,
        set_GatewayPaymentID = (if ext = '''' then g else ext),
        set_PayPalOrderID = '''', set_CustomerID = c, set_AmountCents = a,
        set_Description = ''Top-up via '' @ gateway, set_IdempotencyKey = key\<rparr>) (\<lambda>claimed.
     return_db ())) s1"
      by (intro safe_bind, intro safe_settle [OF s1]) (use p gw key in simp_all)
  qed
qed

lemma safe_creditFromCapture:
  assumes inv: "inv s" and p: "p \<in> set (rows s)" "bp_CustomerID p = c" "bp_Amount p = cr_AmountCents res"
  shows "safe_at inv acc (creditFromCapture repo (bp_ID p) c oid res) s"
  unfolding creditFromCapture_def
proof (rule safe_bind)
  let ?req = "\<lparr>ppc_PaymentID = bp_ID p, ppc_OrderID = oid, ppc_CaptureID = cr_CaptureID res,
        ppc_CustomerID = c, ppc_Amount = cr_AmountCents res,
        ppc_Description = ''Top-up via paypal'',
        ppc_IdempotencyKey = ''paypal:capture:'' @ cr_CaptureID res\<rparr>"
  show "safe_at inv acc (r_CompletePayPalCaptureAndCredit repo ?req) s"
    using capture_law [OF inv, of ?req] names_member [OF inv p(1)] p
    by (simp add: safe_at_def settlement_key_def)
qed simp

lemma safe_CapturePayPalOrder:
  assumes inv: "inv s"
  shows "safe_at inv acc (CapturePayPalOrder repo reg c oid) s"
  unfolding safe_at_def
proof (intro allI impI)
  fix r t assume run: "CapturePayPalOrder repo reg c oid s = (r, t)"
  obtain r1 s1 where g: "r_GetByGatewayPaymentID repo ''paypal'' oid s = (r1, s1)" by fastforce
  note l = get_gateway_law [OF inv g]
  show "inv t \<and> acc s t"
  proof (cases r1)
    case (Inl e)
    then show ?thesis using run g l by (auto simp: CapturePayPalOrder_def)
  next
    case (Inr p)
    have s1: "inv s1" and p: "p \<in> set (rows s1)" using l Inr by auto
    show ?thesis
    proof (cases "bp_CustomerID p = c")
      case False
      then show ?thesis using run g l Inr by (auto simp: CapturePayPalOrder_def)
    next
      case True
      note credit = safe_creditFromCapture [OF s1 p True]
      have "safe_at inv acc (bind_db (lift_db (registry_Get reg ''paypal'')) (\<lambda>provider.
                case pp_CaptureOrder provider of
                  None \<Rightarrow> throw_db (ErrMsg ''paypal provider missing capture support'')
                | Some capture \<Rightarrow>
                    bind_db (lift_db (capture oid)) (\<lambda>(capID, status, currency, cents).
                      let result = \<lparr>cr_CaptureID = capID, cr_Status = status, cr_AmountCents = cents,
                                    cr_Currency = currency\<rparr> in
                      bind_db (lift_db (validatePayPalCapture p result)) (\<lambda>_.
                        creditFromCapture repo (bp_ID p) c oid result)))) s1"
        by (intro safe_bind_lift [OF s1])
           (use s1 credit in \<open>auto simp: Let_def validatePayPalCapture_def split: option.split if_splits
              intro!: safe_bind_lift [OF s1]\<close>)
      moreover have "safe_at inv acc (creditFromCapture repo (bp_ID p) c oid res) s1"
        if "completedPayPalCaptureResult p = Some res" for res
        using that credit by (auto simp: completedPayPalCaptureResult_def split: if_splits)
      ultimately show ?thesis using run g Inr True l acc_trans
        by (auto simp: CapturePayPalOrder_def safe_at_def split: option.splits)
    qed
  qed
qed

lemma safe_RefundPayment:
  assumes "inv s"
  shows "safe_at inv acc (RefundPayment repo reg pid a) s"
  unfolding RefundPayment_def
  by (rule safe_bind [OF safe_get(1) [OF assms]]) (auto intro!: safe_bind_lift)

lemma safe_InitiateTopUp:
  assumes inv: "inv s"
  shows "safe_at inv acc (InitiateTopUp repo reg c em a cur gateway ru cu) s"
  unfolding InitiateTopUp_def
proof (rule safe_bind_lift [OF inv], rule safe_bind)
  let ?p = "\<lparr>bp_ID = '''', bp_CustomerID = c, bp_Gateway = gateway,
                bp_GatewayPaymentID = None, bp_Amount = a, bp_Currency = cur,
                bp_Status = PaymentStatusPending, bp_ReuseKey = None, bp_Metadata = None,
                bp_CreatedAt = 0, bp_UpdatedAt = 0\<rparr>"
  show "safe_at inv acc (r_Create repo ?p) s" using create_law [OF inv, of ?p] by (simp add: safe_at_def)
  fix prov p s1 assume cr: "r_Create repo ?p s = (Inr p, s1)" and s1: "inv s1"
  have "p \<in> set (rows s1)" "bp_Status p = PaymentStatusPending" using create_law [OF inv _ cr] by simp_all
  then have pend: "\<forall>q\<in>set (rows s1). bp_ID q = bp_ID p \<longrightarrow> bp_Status q = PaymentStatusPending"
    using inj_onD [OF distinct_map [THEN iffD1, OF ids_unique [OF s1], THEN conjunct2]] by metis
  show "safe_at inv acc (bind_db (lift_db (pp_CreatePaymentSession prov
                \<lparr>pr_CustomerID = c, pr_CustomerEmail = em, pr_AmountCents = a,
                 pr_Currency = cur, pr_Description = ''Credit Top-Up'', pr_ReturnURL = ru,
                 pr_CancelURL = cu,
                 pr_Metadata = [(''payment_id'', bp_ID p), (''customer_id'', c)]\<rparr>)) (\<lambda>sess.
     bind_db (if ps_GatewaySessionID sess \<noteq> ''''
              then log_error (r_UpdateStatus repo (bp_ID p) PaymentStatusPending
                                (Some (ps_GatewaySessionID sess)))
              else return_db ()) (\<lambda>_.
     return_db (sess, bp_ID p)))) s1"
  proof (rule safe_bind_lift [OF s1], rule safe_bind)
    fix sess
    obtain r2 s2 where u: "r_UpdateStatus repo (bp_ID p) PaymentStatusPending
        (Some (ps_GatewaySessionID sess)) s1 = (r2, s2)" by fastforce
    have "inv s2 \<and> acc s1 s2" by (rule update_status_law [OF s1 _ u]) (use pend in simp)
    then show "safe_at inv acc (if ps_GatewaySessionID sess \<noteq> ''''
              then log_error (r_UpdateStatus repo (bp_ID p) PaymentStatusPending
                                (Some (ps_GatewaySessionID sess)))
              else return_db ()) s1"
      using s1 u by (auto simp: safe_at_def log_error_def return_db_def acc_refl)
  qed simp
qed

end

section \<open>The repository provides what the service relies on\<close>

definition payment_repository :: "'r payments_db_scheme BillingPaymentRepo" where
  "payment_repository =
     \<lparr>r_Create = payment_Create, r_GetByID = payment_GetByID,
      r_GetByGatewayPaymentID = GetByGatewayPaymentID, r_UpdateStatus = payment_UpdateStatus,
      r_CompleteWithGatewayPaymentIDAndCredit = CompleteWithGatewayPaymentIDAndCredit,
      r_CompletePayPalCaptureAndCredit = CompletePayPalCaptureAndCredit,
      r_MarkRefundedAndDebit = MarkRefundedAndDebit, r_ListByCustomer = payment_ListByCustomer,
      r_ListAll = payment_ListAll\<rparr>"

lemma auto_select:
  assumes inv: "pay_inv s" and run: "auto_stmt (select_payment sel) s = (r, t)"
  shows "pay_inv t \<and> accounted s t \<and> payments t = payments s \<and>
    (\<forall>q. r = Inr q \<longrightarrow> q \<in> set (payments s) \<and> sel q)"
  using run
proof (cases rule: auto_stmt_cases)
  case 1
  then show ?thesis using kept_pay [OF inv 1(2)] payments_eqD(1) [OF 1(2)] by simp
next
  case (2 s1)
  then have "t = s1" by (auto simp: select_payment_def split: option.splits)
  then show ?thesis using 2 kept_pay [OF inv] payments_eqD(1) [OF 2(1)]
    by (auto simp: select_payment_def find_Some_iff split: option.splits)
next
  case (3 s1 r1)
  then have "t = s1" by (auto simp: select_payment_def split: option.splits)
  then show ?thesis using 3 kept_pay [OF inv] payments_eqD(1) [OF 3(1)] by simp
qed

lemma payment_Create_row:
  assumes "payment_Create p s = (Inr q, t)"
  shows "q \<in> set (payments t) \<and> bp_Status q = bp_Status p"
  using assms unfolding payment_Create_def
proof (cases rule: auto_stmt_cases)
  case (2 s1)
  then show ?thesis by (auto simp: Let_def split: if_splits)
qed auto

interpretation pr: payment_repo payment_repository pay_inv accounted payments
proof unfold_locales
  fix s t u :: "'r payments_db_scheme"
  show "accounted s s" by (simp add: accounted_refl)
  show "accounted s t \<Longrightarrow> accounted t u \<Longrightarrow> accounted s u" by (rule accounted_trans)
  show "pay_inv s \<Longrightarrow> distinct (map bp_ID (payments s))" by (simp add: pay_inv_def rows_ok_def)
next
  fix s t :: "'r payments_db_scheme" and p r
  assume "pay_inv s" "bp_Status p = PaymentStatusPending" "r_Create payment_repository p s = (r, t)"
  then show "pay_inv t \<and> accounted s t \<and> (\<forall>q. r = Inr q \<longrightarrow> q \<in> set (payments t) \<and> bp_Status q = PaymentStatusPending)"
    using payment_Create_law [of s p r t] payment_Create_row [of p s _ t] by (auto simp: payment_repository_def)
next
  fix s t :: "'r payments_db_scheme" and pid r
  assume "pay_inv s" "r_GetByID payment_repository pid s = (r, t)"
  then show "pay_inv t \<and> accounted s t \<and> payments t = payments s \<and> (\<forall>q. r = Inr q \<longrightarrow> q \<in> set (payments s))"
    using auto_select [of s _ r t] by (auto simp: payment_repository_def payment_GetByID_def)
next
  fix s t :: "'r payments_db_scheme" and gw g r
  assume "pay_inv s" "r_GetByGatewayPaymentID payment_repository gw g s = (r, t)"
  then show "pay_inv t \<and> accounted s t \<and> payments t = payments s \<and> (\<forall>q. r = Inr q \<longrightarrow> q \<in> set (payments s))"
    using auto_select [of s _ r t] by (auto simp: payment_repository_def GetByGatewayPaymentID_def)
next
  fix s t :: "'r payments_db_scheme" and status pid g r
  assume "pay_inv s" "status = PaymentStatusFailed \<or> status = PaymentStatusPending \<and>
        (\<forall>p\<in>set (payments s). bp_ID p = pid \<longrightarrow> bp_Status p = PaymentStatusPending)"
    "r_UpdateStatus payment_repository pid status g s = (r, t)"
  then show "pay_inv t \<and> accounted s t"
    using payment_UpdateStatus_law [of s status pid g r t] by (simp add: payment_repository_def)
next
  fix s t :: "'r payments_db_scheme" and req r
  assume "pay_inv s" "pcc_Gateway req \<noteq> PaymentGatewayPayPal"
    "pcc_IdempotencyKey req = settlement_key (pcc_Gateway req) (pcc_GatewayPaymentID req)"
    "names_payment (payments s) (pcc_PaymentID req) (pcc_CustomerID req) (pcc_Amount req)"
    "r_CompleteWithGatewayPaymentIDAndCredit payment_repository req s = (r, t)"
  then show "pay_inv t \<and> accounted s t"
    using CompleteWithGatewayPaymentIDAndCredit_law [of s req r t]
    by (simp add: payment_repository_def names_payment_def)
next
  fix s t :: "'r payments_db_scheme" and req r
  assume "pay_inv s" "ppc_IdempotencyKey req = settlement_key PaymentGatewayPayPal (ppc_CaptureID req)"
    "names_payment (payments s) (ppc_PaymentID req) (ppc_CustomerID req) (ppc_Amount req)"
    "r_CompletePayPalCaptureAndCredit payment_repository req s = (r, t)"
  then show "pay_inv t \<and> accounted s t"
    using CompletePayPalCaptureAndCredit_law [of s req r t]
    by (simp add: payment_repository_def names_payment_def)
next
  fix s t :: "'r payments_db_scheme" and req r
  assume "pay_inv s" "r_MarkRefundedAndDebit payment_repository req s = (r, t)"
  then show "pay_inv t \<and> accounted s t"
    using MarkRefundedAndDebit_law [of s req r t] by (simp add: payment_repository_def)
qed

end
