(* ===== verification/Gateways.thy ===== *)
theory Gateways
  imports Payment_Service "HOL-Library.Signed_Division"
begin

text \<open>
  The payment gateways: \<^verbatim>\<open>payments/paypal\<close>, \<^verbatim>\<open>payments/stripe\<close>, \<^verbatim>\<open>payments/crypto\<close> and
  the webhook endpoints of \<^verbatim>\<open>api/webhooks\<close>. Modelled are the decisions taken on what the remote
  side sends: amounts, signatures, which events count, and the events handed to the payment
  service. Arguments of the definitions: what JSON decoding yields (a decoded body or an error),
  what an HTTP call answers, the keyed hash functions, and Stripe's own library, which verifies
  and decodes a Stripe event.
\<close>

section \<open>Amounts\<close>

text \<open>\<^verbatim>\<open>centsToDecimal\<close> (the same in \<^verbatim>\<open>paypal/types.go\<close> and \<^verbatim>\<open>crypto/btcpay.go\<close>): Go's
  \<^verbatim>\<open>/\<close> and \<^verbatim>\<open>%\<close> round towards zero; \<^verbatim>\<open>%02d\<close> pads to two digits.\<close>

definition pad2 :: "int \<Rightarrow> string" where
  "pad2 i = (if 0 \<le> i \<and> i < 10 then CHR ''0'' # print_int i else print_int i)"

definition centsToDecimal :: "int64 \<Rightarrow> string" where
  "centsToDecimal cents =
     (let whole = sint cents sdiv 100;
          frac = sint cents smod 100;
          frac = (if frac < 0 then - frac else frac)
      in print_int whole @ CHR ''.'' # pad2 frac)"

text \<open>PayPal's reading of a decimal: a fraction that does not parse counts as zero, the sign of
  the whole applies to the fraction.\<close>

definition parseFractionalCents :: "string \<Rightarrow> int64" where
  "parseFractionalCents fracStr =
     (let scan = (\<lambda>s. case Sscanf_d s of None \<Rightarrow> 0 | Some i \<Rightarrow> word_of_int i) in
      if length fracStr = 0 then 0
      else if length fracStr = 1 then scan fracStr * 10
      else scan (take 2 fracStr))"

definition paypal_decimalToCents :: "string \<Rightarrow> error + int64" where
  "paypal_decimalToCents s =
     (case SplitN2 (CHR ''.'') s of (wholeStr, fracStr) \<Rightarrow>
      case Sscanf_d wholeStr of
        None \<Rightarrow> Inl (ErrMsg ''parse whole part'')
      | Some whole \<Rightarrow>
          let frac = (case fracStr of None \<Rightarrow> 0 | Some f \<Rightarrow> parseFractionalCents f) in
          if whole < 0 \<or> HasPrefix (TrimSpace s) ''-''
          then Inr (word_of_int whole * 100 - frac)
          else Inr (word_of_int whole * 100 + frac))"

text \<open>The crypto gateways' reading rejects a fraction that does not parse.\<close>

definition crypto_decimalToCents :: "string \<Rightarrow> error + int64" where
  "crypto_decimalToCents s =
     (case SplitN2 (CHR ''.'') s of (wholeStr, fracStr) \<Rightarrow>
      case Sscanf_d wholeStr of
        None \<Rightarrow> Inl (ErrMsg ''parse whole part'')
      | Some whole \<Rightarrow>
          (case fracStr of
             None \<Rightarrow> Inr (word_of_int whole * 100)
           | Some f \<Rightarrow>
               if length f = 0 then Inr (word_of_int whole * 100)
               else if length f = 1 then
                 (case Sscanf_d f of None \<Rightarrow> Inl (ErrMsg ''parse frac part'')
                  | Some frac \<Rightarrow> Inr (word_of_int whole * 100 + word_of_int frac * 10))
               else
                 (case Sscanf_d (take 2 f) of None \<Rightarrow> Inl (ErrMsg ''parse frac part'')
                  | Some frac \<Rightarrow> Inr (word_of_int whole * 100 + word_of_int frac))))"

section \<open>PayPal\<close>

record orderLink =
  ol_Href :: string
  ol_Rel :: string

fun findApprovalURL :: "orderLink list \<Rightarrow> string" where
  "findApprovalURL [] = ''''"
| "findApprovalURL (link # links) =
     (if ol_Rel link = ''payer-action'' \<or> ol_Rel link = ''approve'' then ol_Href link
      else findApprovalURL links)"

definition mapPayPalStatus :: "string \<Rightarrow> string" where
  "mapPayPalStatus status =
     (if status = ''COMPLETED'' then ''completed''
      else if status = ''VOIDED'' then ''failed''
      else if status \<in> {''CREATED'', ''SAVED'', ''APPROVED'', ''PAYER_ACTION_REQUIRED''} then ''pending''
      else ''unknown'')"

record WebhookResource =
  wr_ID :: string
  wr_Status :: string
  wr_CustomID :: string
  wr_Amount :: "(string \<times> string) option" \<comment> \<open>currency code and value\<close>
  wr_OrderID :: "string option" \<comment> \<open>supplementary_data.related_ids.order_id\<close>

record PayPalEvent =
  pe_ID :: string
  pe_EventType :: string
  pe_Resource :: "error + WebhookResource" \<comment> \<open>the resource decoded\<close>

definition extractAmount :: "WebhookResource \<Rightarrow> error + int64 \<times> string" where
  "extractAmount res =
     (case wr_Amount res of
        None \<Rightarrow> Inr (0, '''')
      | Some (currencyCode, v) \<Rightarrow>
          (case paypal_decimalToCents v of Inl e \<Rightarrow> Inl e | Inr cents \<Rightarrow> Inr (cents, currencyCode)))"

definition extractOrderID :: "WebhookResource \<Rightarrow> string" where
  "extractOrderID res = (case wr_OrderID res of None \<Rightarrow> '''' | Some oid \<Rightarrow> oid)"

definition processCaptureEvent :: "PayPalEvent \<Rightarrow> error + WebhookEvent option" where
  "processCaptureEvent event =
     (case pe_Resource event of
        Inl _ \<Rightarrow> Inl ErrWebhookVerification
      | Inr res \<Rightarrow>
          if wr_Status res \<noteq> ''COMPLETED'' then Inr None
          else case extractAmount res of
            Inl e \<Rightarrow> Inl e
          | Inr (cents, currency) \<Rightarrow>
              let orderID = extractOrderID res;
                  metadata = (if orderID \<noteq> '''' then [(''payment_id'', orderID)] else []) @
                             [(''customer_id'', wr_CustomID res)]
              in Inr (Some \<lparr>we_Type = WebhookEventPaymentCompleted, we_GatewayEventID = pe_ID event,
                            we_PaymentID = wr_ID res, we_AmountCents = cents, we_Currency = currency,
                            we_Status = ''completed'',
                            we_IdempotencyKey = ''paypal:capture:'' @ wr_ID res,
                            we_Metadata = metadata\<rparr>))"

definition paypal_HandleWebhook ::
  "(string \<Rightarrow> error + PayPalEvent) \<Rightarrow> string \<Rightarrow> string \<Rightarrow> error + WebhookEvent option" where
  "paypal_HandleWebhook parse payload signature =
     (case parse payload of
        Inl _ \<Rightarrow> Inl ErrWebhookVerification
      | Inr event \<Rightarrow>
          if pe_EventType event \<noteq> ''PAYMENT.CAPTURE.COMPLETED'' then Inr None
          else processCaptureEvent event)"

text \<open>The reply of PayPal's verification endpoint: HTTP status and decoded
  \<^verbatim>\<open>verification_status\<close>.\<close>

definition executeVerify :: "error + (nat \<times> (error + string)) \<Rightarrow> error + unit" where
  "executeVerify resp =
     (case resp of
        Inl e \<Rightarrow> Inl e
      | Inr (status, body) \<Rightarrow>
          if status \<noteq> 200 then
            (if status \<in> {400, 401, 403} then Inl ErrWebhookVerification
             else Inl (ErrMsg ''paypal verify webhook failed''))
          else case body of
            Inl e \<Rightarrow> Inl e
          | Inr verificationStatus \<Rightarrow>
              if verificationStatus \<noteq> ''SUCCESS'' then Inl ErrWebhookVerification else Inr ())"

text \<open>The capture reply: HTTP status and the captures of the first purchase unit. A capture
  without an amount makes the Go code dereference a nil pointer.\<close>

record captureDetail =
  cd_ID :: string
  cd_Status :: string
  cd_Amount :: "(string \<times> string) option"

definition parseCaptureResponse ::
  "nat \<Rightarrow> error + captureDetail list option list \<Rightarrow> error + string \<times> string \<times> string \<times> int64" where
  "parseCaptureResponse status body =
     (if status \<noteq> 200 \<and> status \<noteq> 201 then Inl (ErrMsg ''paypal capture failed'')
      else case body of
        Inl e \<Rightarrow> Inl e
      | Inr units \<Rightarrow>
          (case units of
             Some (cap # _) # _ \<Rightarrow>
               (case cd_Amount cap of
                  None \<Rightarrow> Inl (ErrMsg ''nil pointer dereference'')
                | Some (currencyCode, v) \<Rightarrow>
                    (case paypal_decimalToCents v of
                       Inl e \<Rightarrow> Inl e
                     | Inr cents \<Rightarrow> Inr (cd_ID cap, cd_Status cap, currencyCode, cents)))
           | _ \<Rightarrow> Inl (ErrMsg ''paypal capture response missing capture detail'')))"

definition paypalCaptureRequestID :: "string \<Rightarrow> string" where
  "paypalCaptureRequestID orderID = ''virtuestack-capture-'' @ orderID"

text \<open>The cached access token: reused until a minute before it expires.\<close>

record TokenClient =
  tk_accessToken :: string
  tk_expiresAt :: int

definition GetAccessToken ::
  "int \<Rightarrow> error + string \<times> int \<Rightarrow> TokenClient \<Rightarrow> (error + string) \<times> TokenClient" where
  "GetAccessToken now reply tc =
     (if tk_accessToken tc \<noteq> '''' \<and> now < tk_expiresAt tc then (Inr (tk_accessToken tc), tc)
      else case reply of
        Inl e \<Rightarrow> (Inl e, tc)
      | Inr (token, expiresIn) \<Rightarrow>
          (Inr token, \<lparr>tk_accessToken = token, tk_expiresAt = now + expiresIn - 60\<rparr>))"

section \<open>Stripe\<close>

text \<open>The events Stripe's library returns once it has verified the signature; a checkout session
  without a payment intent makes the Go code dereference a nil pointer.\<close>

record CheckoutSession =
  cs_PaymentStatus :: string
  cs_PaymentIntentID :: "string option"
  cs_AmountTotal :: int64
  cs_Currency :: string
  cs_Metadata :: metadata_map

record StripePaymentIntent =
  pi_ID :: string
  pi_Amount :: int64
  pi_Currency :: string
  pi_Metadata :: metadata_map

record StripeEvent =
  se_ID :: string
  se_Type :: string
  se_Session :: "error + CheckoutSession"
  se_PaymentIntent :: "error + StripePaymentIntent"

definition handleCheckoutCompleted :: "StripeEvent \<Rightarrow> string \<Rightarrow> error + WebhookEvent option" where
  "handleCheckoutCompleted event idempotencyKey =
     (case se_Session event of
        Inl e \<Rightarrow> Inl e
      | Inr sess \<Rightarrow>
          if cs_PaymentStatus sess \<noteq> ''paid'' then Inr None
          else case cs_PaymentIntentID sess of
            None \<Rightarrow> Inl (ErrMsg ''nil pointer dereference'')
          | Some intent \<Rightarrow>
              Inr (Some \<lparr>we_Type = WebhookEventPaymentCompleted, we_GatewayEventID = se_ID event,
                         we_PaymentID = intent, we_AmountCents = cs_AmountTotal sess,
                         we_Currency = cs_Currency sess, we_Status = ''completed'',
                         we_IdempotencyKey = idempotencyKey, we_Metadata = cs_Metadata sess\<rparr>))"

definition handlePaymentIntentSucceeded :: "StripeEvent \<Rightarrow> string \<Rightarrow> error + WebhookEvent option" where
  "handlePaymentIntentSucceeded event idempotencyKey =
     (case se_PaymentIntent event of
        Inl e \<Rightarrow> Inl e
      | Inr intent \<Rightarrow>
          Inr (Some \<lparr>we_Type = WebhookEventPaymentCompleted, we_GatewayEventID = se_ID event,
                     we_PaymentID = pi_ID intent, we_AmountCents = pi_Amount intent,
                     we_Currency = pi_Currency intent, we_Status = ''completed'',
                     we_IdempotencyKey = idempotencyKey, we_Metadata = pi_Metadata intent\<rparr>))"

definition stripe_HandleWebhook ::
  "(string \<Rightarrow> string \<Rightarrow> error + StripeEvent) \<Rightarrow> string \<Rightarrow> string \<Rightarrow> error + WebhookEvent option" where
  "stripe_HandleWebhook construct payload signature =
     (case construct payload signature of
        Inl _ \<Rightarrow> Inl ErrWebhookVerification
      | Inr event \<Rightarrow>
          let idempotencyKey = ''stripe:event:'' @ se_ID event in
          if se_Type event = ''checkout.session.completed'' then handleCheckoutCompleted event idempotencyKey
          else if se_Type event = ''payment_intent.succeeded'' then handlePaymentIntentSucceeded event idempotencyKey
          else Inr None)"

definition mapStripeStatus :: "string \<Rightarrow> string" where
  "mapStripeStatus st =
     (if st = ''succeeded'' then ''completed''
      else if st = ''canceled'' then ''failed''
      else if st \<in> {''requires_payment_method'', ''requires_confirmation'', ''requires_action'', ''processing''}
      then ''pending''
      else ''unknown'')"

section \<open>Crypto gateways\<close>

record WebhookResult =
  wres_EventType :: string
  wres_InvoiceID :: string
  wres_ExternalPaymentID :: string
  wres_AccountID :: string
  wres_AmountCents :: int64
  wres_Currency :: string
  wres_Status :: string
  wres_IdempotencyKey :: string

subsection \<open>Signatures\<close>

definition hex_val :: "char \<Rightarrow> nat option" where
  "hex_val c =
     (if is_digit c then Some (digit_val c)
      else if CHR ''a'' \<le> c \<and> c \<le> CHR ''f'' then Some (of_char c - 87)
      else if CHR ''A'' \<le> c \<and> c \<le> CHR ''F'' then Some (of_char c - 55)
      else None)"

fun hex_DecodeString :: "string \<Rightarrow> nat list option" where
  "hex_DecodeString [] = Some []"
| "hex_DecodeString [_] = None"
| "hex_DecodeString (h # l # rest) =
     (case (hex_val h, hex_val l, hex_DecodeString rest) of
        (Some a, Some b, Some bs) \<Rightarrow> Some ((16 * a + b) # bs)
      | _ \<Rightarrow> None)"

definition hex_char :: "nat \<Rightarrow> char" where
  "hex_char n = (if n < 10 then digit_char n else char_of (87 + n))"

definition hex_EncodeToString :: "nat list \<Rightarrow> string" where
  "hex_EncodeToString bs = concat (map (\<lambda>b. [hex_char (b div 16), hex_char (b mod 16)]) bs)"

text \<open>\<open>mac\<close> is HMAC-SHA256 under a key; its value is a list of bytes.\<close>

definition verifyBTCPaySignature ::
  "(string \<Rightarrow> string \<Rightarrow> nat list) \<Rightarrow> string \<Rightarrow> string \<Rightarrow> string \<Rightarrow> error + unit" where
  "verifyBTCPaySignature mac secret signature body =
     (if secret = '''' then Inl (ErrMsg ''btcpay webhook secret not configured'')
      else if signature = '''' then Inl (ErrMsg ''missing BTCPay-Sig header'')
      else case SplitN2 (CHR ''='') signature of
        (algo, Some digest) \<Rightarrow>
          if algo \<noteq> ''sha256'' then Inl (ErrMsg ''invalid BTCPay-Sig format'')
          else (case hex_DecodeString digest of
                  None \<Rightarrow> Inl (ErrMsg ''decode signature hex'')
                | Some expectedMAC \<Rightarrow>
                    if mac secret body \<noteq> expectedMAC then Inl (ErrMsg ''btcpay HMAC signature mismatch'')
                    else Inr ())
      | (_, None) \<Rightarrow> Inl (ErrMsg ''invalid BTCPay-Sig format''))"

definition computeHMACSHA256 :: "(string \<Rightarrow> string \<Rightarrow> nat list) \<Rightarrow> string \<Rightarrow> string \<Rightarrow> string" where
  "computeHMACSHA256 mac secret body = hex_EncodeToString (mac secret body)"

text \<open>NOWPayments signs the body with its keys sorted; \<open>canonical\<close> is the decode and re-encode of
  the JSON library.\<close>

definition verifyNOWPaymentsSignature ::
  "(string \<Rightarrow> string \<Rightarrow> nat list) \<Rightarrow> (string \<Rightarrow> error + string) \<Rightarrow> string \<Rightarrow> string \<Rightarrow> string \<Rightarrow> error + unit" where
  "verifyNOWPaymentsSignature mac canonical secret signature body =
     (if secret = '''' then Inl (ErrMsg ''nowpayments IPN secret not configured'')
      else if signature = '''' then Inl (ErrMsg ''missing X-Nowpayments-Sig header'')
      else case canonical body of
        Inl e \<Rightarrow> Inl e
      | Inr sorted_body \<Rightarrow>
          if hex_EncodeToString (mac secret sorted_body) \<noteq> signature
          then Inl (ErrMsg ''nowpayments HMAC signature mismatch'')
          else Inr ())"

subsection \<open>Webhooks\<close>

record btcpayWebhookPayload =
  bw_Type :: string
  bw_StoreID :: string
  bw_InvoiceID :: string

record btcpayInvoiceResponse =
  bi_Status :: string
  bi_Amount :: string
  bi_Currency :: string
  bi_Metadata :: metadata_map

definition btcpay_HandleWebhook ::
  "(string \<Rightarrow> string \<Rightarrow> nat list) \<Rightarrow> (string \<Rightarrow> error + btcpayWebhookPayload) \<Rightarrow>
   (string \<Rightarrow> error + btcpayInvoiceResponse) \<Rightarrow> string \<Rightarrow> string \<Rightarrow> string \<Rightarrow> string \<Rightarrow> error + WebhookResult option" where
  "btcpay_HandleWebhook mac parse fetchInvoice webhookSecret storeID sig body =
     (case verifyBTCPaySignature mac webhookSecret sig body of
        Inl _ \<Rightarrow> Inl ErrWebhookVerification
      | Inr _ \<Rightarrow>
      case parse body of
        Inl _ \<Rightarrow> Inl ErrWebhookValidation
      | Inr payload \<Rightarrow>
      if bw_Type payload \<noteq> ''InvoiceSettled'' then Inr None
      else if bw_StoreID payload = '''' \<or> bw_StoreID payload \<noteq> storeID then Inl ErrWebhookValidation
      else if bw_InvoiceID payload = '''' then Inl ErrWebhookValidation
      else case fetchInvoice (bw_InvoiceID payload) of
        Inl e \<Rightarrow> Inl e
      | Inr invoice \<Rightarrow>
      case crypto_decimalToCents (bi_Amount invoice) of
        Inl _ \<Rightarrow> Inl ErrWebhookValidation
      | Inr cents \<Rightarrow>
          let accountID = meta (bi_Metadata invoice) ''account_id'' in
          if accountID = '''' then Inl ErrWebhookValidation
          else Inr (Some \<lparr>wres_EventType = bw_Type payload, wres_InvoiceID = bw_InvoiceID payload,
                          wres_ExternalPaymentID = bw_InvoiceID payload, wres_AccountID = accountID,
                          wres_AmountCents = cents, wres_Currency = bi_Currency invoice,
                          wres_Status = bi_Status invoice,
                          wres_IdempotencyKey = ''btcpay:invoice:'' @ bw_InvoiceID payload\<rparr>))"

text \<open>\<^verbatim>\<open>np_PriceCents\<close> stands for \<^verbatim>\<open>int64(math.Round(payload.PriceAmount * 100))\<close>; floating point is
  not modelled.\<close>

record nowIPNPayload =
  np_PaymentID :: string
  np_PaymentStatus :: string
  np_PriceCents :: int64
  np_PriceCurrency :: string
  np_OrderID :: string

definition parseNOWPaymentsOrderID :: "string \<Rightarrow> string \<times> string" where
  "parseNOWPaymentsOrderID orderID =
     (case SplitN2 (CHR '':'') orderID of (a, Some b) \<Rightarrow> (a, b) | (_, None) \<Rightarrow> ('''', ''''))"

definition nowPaymentsOrderID :: "string \<Rightarrow> string \<Rightarrow> string" where
  "nowPaymentsOrderID accountID paymentID = accountID @ '':'' @ paymentID"

definition nowpayments_HandleWebhook ::
  "(string \<Rightarrow> string \<Rightarrow> nat list) \<Rightarrow> (string \<Rightarrow> error + string) \<Rightarrow> (string \<Rightarrow> error + nowIPNPayload) \<Rightarrow>
   string \<Rightarrow> string \<Rightarrow> string \<Rightarrow> error + WebhookResult option" where
  "nowpayments_HandleWebhook mac canonical parse ipnSecret sig body =
     (case verifyNOWPaymentsSignature mac canonical ipnSecret sig body of
        Inl _ \<Rightarrow> Inl ErrWebhookVerification
      | Inr _ \<Rightarrow>
      case parse body of
        Inl _ \<Rightarrow> Inl ErrWebhookValidation
      | Inr payload \<Rightarrow>
      if np_PaymentStatus payload \<noteq> ''finished'' then Inr None
      else if np_PaymentID payload = '''' then Inl ErrWebhookValidation
      else case parseNOWPaymentsOrderID (np_OrderID payload) of (accountID, localPaymentID) \<Rightarrow>
          if accountID = '''' \<or> localPaymentID = '''' then Inl ErrWebhookValidation
          else Inr (Some \<lparr>wres_EventType = ''payment.finished'', wres_InvoiceID = localPaymentID,
                          wres_ExternalPaymentID = np_PaymentID payload, wres_AccountID = accountID,
                          wres_AmountCents = np_PriceCents payload,
                          wres_Currency = ToUpper (np_PriceCurrency payload),
                          wres_Status = np_PaymentStatus payload,
                          wres_IdempotencyKey = ''nowpayments:payment:'' @ np_PaymentID payload\<rparr>))"

section \<open>Webhook endpoints\<close>

definition IsWebhookClientError :: "error \<Rightarrow> bool" where
  "IsWebhookClientError e \<longleftrightarrow> e = ErrWebhookVerification \<or> e = ErrWebhookValidation"

text \<open>The endpoints answer with an HTTP status; \<open>result\<close> is what the provider made of the request.\<close>

definition crypto_webhook_endpoint ::
  "'s BillingPaymentRepo \<Rightarrow> string \<Rightarrow> error + WebhookResult option \<Rightarrow> 's \<Rightarrow> nat \<times> 's" where
  "crypto_webhook_endpoint repo providerName result s =
     (case result of
        Inl e \<Rightarrow> (if IsWebhookClientError e then 400 else 500, s)
      | Inr None \<Rightarrow> (200, s)
      | Inr (Some res) \<Rightarrow>
          (case CreditFromPayment repo (wres_AccountID res) (wres_AmountCents res) (wres_Currency res)
                  providerName (wres_InvoiceID res) (wres_ExternalPaymentID res) (wres_IdempotencyKey res) s of
             (Inl _, s1) \<Rightarrow> (500, s1)
           | (Inr _, s1) \<Rightarrow> (200, s1)))"

definition IsWebhookVerificationError :: "error \<Rightarrow> bool" where
  "IsWebhookVerificationError e \<longleftrightarrow> e = ErrWebhookVerification"

definition stripe_webhook_endpoint ::
  "'s BillingPaymentRepo \<Rightarrow> PaymentRegistry \<Rightarrow> string \<Rightarrow> string \<Rightarrow> 's \<Rightarrow> nat \<times> 's" where
  "stripe_webhook_endpoint repo reg signature payload s =
     (if signature = '''' then (400, s)
      else case HandleWebhook repo reg ''stripe'' payload signature s of
        (Inl e, s1) \<Rightarrow> (if IsWebhookVerificationError e then 400 else 500, s1)
      | (Inr _, s1) \<Rightarrow> (200, s1))"

definition hasRequiredHeaders :: "(string \<times> string) list \<Rightarrow> bool" where
  "hasRequiredHeaders headers \<longleftrightarrow>
     list_all (\<lambda>h. meta headers h \<noteq> '''')
       [''Paypal-Auth-Algo'', ''Paypal-Cert-Url'', ''Paypal-Transmission-Id'',
        ''Paypal-Transmission-Sig'', ''Paypal-Transmission-Time'']"

definition paypal_webhook_endpoint ::
  "'s BillingPaymentRepo \<Rightarrow> PaymentRegistry \<Rightarrow> (string \<times> string) list \<Rightarrow> string \<Rightarrow> 's \<Rightarrow> nat \<times> 's" where
  "paypal_webhook_endpoint repo reg headers payload s =
     (if \<not> hasRequiredHeaders headers then (400, s)
      else case HandlePayPalWebhook repo reg headers payload s of
        (Inl e, s1) \<Rightarrow> (if IsWebhookVerificationError e then 400 else 500, s1)
      | (Inr _, s1) \<Rightarrow> (200, s1))"

section \<open>The registry the controller builds\<close>

text \<open>The remote sides: Stripe's library, PayPal's API and the crypto provider's. Every field is an
  answer the program does not control.\<close>

record gateway_world =
  gw_stripe_construct :: "string \<Rightarrow> string \<Rightarrow> error + StripeEvent"
  gw_stripe_session :: "PaymentRequest \<Rightarrow> error + PaymentSession"
  gw_stripe_refund :: "string \<Rightarrow> int64 \<Rightarrow> string \<Rightarrow> error + RefundResult"
  gw_paypal_parse :: "string \<Rightarrow> error + PayPalEvent"
  gw_paypal_verify :: "(string \<times> string) list \<Rightarrow> string \<Rightarrow> error + nat \<times> (error + string)"
  gw_paypal_order :: "PaymentRequest \<Rightarrow> error + PaymentSession"
  gw_paypal_capture :: "string \<Rightarrow> nat \<times> (error + captureDetail list option list)"
  gw_paypal_refund :: "string \<Rightarrow> int64 \<Rightarrow> string \<Rightarrow> error + RefundResult"
  gw_crypto_name :: string
  gw_crypto_session :: "PaymentRequest \<Rightarrow> error + PaymentSession"

definition stripe_provider :: "gateway_world \<Rightarrow> PaymentProvider" where
  "stripe_provider w =
     \<lparr>pp_CreatePaymentSession = gw_stripe_session w,
      pp_HandleWebhook = stripe_HandleWebhook (gw_stripe_construct w),
      pp_RefundPayment = gw_stripe_refund w, pp_VerifyWebhookSignature = None, pp_CaptureOrder = None\<rparr>"

definition paypal_provider :: "gateway_world \<Rightarrow> PaymentProvider" where
  "paypal_provider w =
     \<lparr>pp_CreatePaymentSession = gw_paypal_order w,
      pp_HandleWebhook = paypal_HandleWebhook (gw_paypal_parse w),
      pp_RefundPayment = gw_paypal_refund w,
      pp_VerifyWebhookSignature = Some (\<lambda>headers body. executeVerify (gw_paypal_verify w headers body)),
      pp_CaptureOrder = Some (\<lambda>orderID. case gw_paypal_capture w orderID of (status, body) \<Rightarrow>
                                           parseCaptureResponse status body)\<rparr>"

text \<open>\<^verbatim>\<open>crypto.Adapter\<close>: webhooks and refunds are refused.\<close>

definition crypto_adapter :: "gateway_world \<Rightarrow> PaymentProvider" where
  "crypto_adapter w =
     \<lparr>pp_CreatePaymentSession = gw_crypto_session w,
      pp_HandleWebhook = (\<lambda>_ _. Inl (ErrMsg ''crypto webhooks use dedicated handler'')),
      pp_RefundPayment = (\<lambda>_ _ _. Inl (ErrMsg ''refunds are not supported for cryptocurrency payments'')),
      pp_VerifyWebhookSignature = None, pp_CaptureOrder = None\<rparr>"

definition build_registry :: "gateway_world \<Rightarrow> PaymentRegistry" where
  "build_registry w = [(gw_crypto_name w, crypto_adapter w), (''paypal'', paypal_provider w),
                       (''stripe'', stripe_provider w)]"

text \<open>What the gateways document: a payment intent and a capture have an identifier, and the
  crypto provider is one of the two supported.\<close>

definition world_ok :: "gateway_world \<Rightarrow> bool" where
  "world_ok w \<longleftrightarrow>
     (\<forall>payload sig ev. gw_stripe_construct w payload sig = Inr ev \<longrightarrow>
        (\<forall>sess. se_Session ev = Inr sess \<longrightarrow> cs_PaymentIntentID sess \<noteq> Some '''') \<and>
        (\<forall>intent. se_PaymentIntent ev = Inr intent \<longrightarrow> pi_ID intent \<noteq> '''')) \<and>
     (\<forall>payload ev res. gw_paypal_parse w payload = Inr ev \<and> pe_Resource ev = Inr res \<longrightarrow> wr_ID res \<noteq> '''') \<and>
     gw_crypto_name w \<in> {''btcpay'', ''nowpayments''}"

lemma stripe_event_canonical:
  assumes "world_ok w" "stripe_HandleWebhook (gw_stripe_construct w) payload sig = Inr (Some ev)"
  shows "canonical_event ''stripe'' ev"
proof -
  obtain e where c: "gw_stripe_construct w payload sig = Inr e"
    using assms(2) by (auto simp: stripe_HandleWebhook_def split: sum.splits)
  then have ids: "\<And>sess. se_Session e = Inr sess \<Longrightarrow> cs_PaymentIntentID sess \<noteq> Some ''''"
    "\<And>intent. se_PaymentIntent e = Inr intent \<Longrightarrow> pi_ID intent \<noteq> ''''"
    using assms(1) unfolding world_ok_def by blast+
  show ?thesis using assms(2) c ids
    by (auto simp: stripe_HandleWebhook_def handleCheckoutCompleted_def handlePaymentIntentSucceeded_def
        canonical_event_def gateway_defs Let_def split: sum.splits if_splits option.splits)
qed

lemma paypal_event_canonical:
  assumes "world_ok w" "paypal_HandleWebhook (gw_paypal_parse w) payload sig = Inr (Some ev)"
  shows "canonical_event ''paypal'' ev"
proof -
  obtain e where c: "gw_paypal_parse w payload = Inr e"
    using assms(2) by (auto simp: paypal_HandleWebhook_def split: sum.splits)
  then have ids: "\<And>res. pe_Resource e = Inr res \<Longrightarrow> wr_ID res \<noteq> ''''"
    using assms(1) unfolding world_ok_def by blast
  show ?thesis using assms(2) c ids
    by (auto simp: paypal_HandleWebhook_def processCaptureEvent_def
        canonical_event_def gateway_defs Let_def split: sum.splits if_splits)
qed

lemma registry_simps:
  assumes "world_ok w"
  shows "registry_Get (build_registry w) ''stripe'' = Inr (stripe_provider w)"
    "registry_Get (build_registry w) ''paypal'' = Inr (paypal_provider w)"
  using assms by (auto simp: registry_Get_def build_registry_def world_ok_def)

lemma btcpay_result:
  assumes "btcpay_HandleWebhook mac parse fetch secret store sig body = Inr (Some res)"
  shows "wres_ExternalPaymentID res \<noteq> ''''"
    "wres_IdempotencyKey res = settlement_key ''btcpay'' (wres_ExternalPaymentID res)"
  using assms
  by (auto simp: btcpay_HandleWebhook_def settlement_key_def gateway_defs Let_def split: sum.splits if_splits)

lemma nowpayments_result:
  assumes "nowpayments_HandleWebhook mac canonical parse secret sig body = Inr (Some res)"
  shows "wres_ExternalPaymentID res \<noteq> ''''"
    "wres_IdempotencyKey res = settlement_key ''nowpayments'' (wres_ExternalPaymentID res)"
  using assms
  by (auto simp: nowpayments_HandleWebhook_def settlement_key_def gateway_defs split: sum.splits if_splits prod.splits)

section \<open>Whatever the gateways send, every credit is paid for\<close>

text \<open>The requests that reach the payment service: top-ups and captures by customers, refunds by
  administrators, and the four webhook endpoints. Each request brings its own answers of the remote
  sides, so nothing relates one answer to the next.\<close>

datatype pay_cmd =
    TopUp gateway_world string string int64 string string string string
  | StripeHook gateway_world string string
  | PayPalHook gateway_world "(string \<times> string) list" string
  | BTCPayHook "string \<Rightarrow> string \<Rightarrow> nat list" "string \<Rightarrow> error + btcpayWebhookPayload"
      "string \<Rightarrow> error + btcpayInvoiceResponse" string string string string
  | NOWPaymentsHook "string \<Rightarrow> string \<Rightarrow> nat list" "string \<Rightarrow> error + string"
      "string \<Rightarrow> error + nowIPNPayload" string string string
  | CaptureOrder gateway_world string string
  | Refund gateway_world string int64

fun exec_pay :: "pay_cmd \<Rightarrow> 'r payments_db_scheme \<Rightarrow> 'r payments_db_scheme" where
  "exec_pay (TopUp w c em a cur gw ru cu) s =
     snd (InitiateTopUp payment_repository (build_registry w) c em a cur gw ru cu s)"
| "exec_pay (StripeHook w sig payload) s =
     snd (stripe_webhook_endpoint payment_repository (build_registry w) sig payload s)"
| "exec_pay (PayPalHook w headers payload) s =
     snd (paypal_webhook_endpoint payment_repository (build_registry w) headers payload s)"
| "exec_pay (BTCPayHook mac parse fetch secret store sig body) s =
     snd (crypto_webhook_endpoint payment_repository ''btcpay''
            (btcpay_HandleWebhook mac parse fetch secret store sig body) s)"
| "exec_pay (NOWPaymentsHook mac canonical parse secret sig body) s =
     snd (crypto_webhook_endpoint payment_repository ''nowpayments''
            (nowpayments_HandleWebhook mac canonical parse secret sig body) s)"
| "exec_pay (CaptureOrder w c oid) s =
     snd (CapturePayPalOrder payment_repository (build_registry w) c oid s)"
| "exec_pay (Refund w pid a) s = snd (RefundPayment payment_repository (build_registry w) pid a s)"

fun run_pay :: "pay_cmd list \<Rightarrow> 'r payments_db_scheme \<Rightarrow> 'r payments_db_scheme" where
  "run_pay [] s = s"
| "run_pay (cmd # cmds) s = run_pay cmds (exec_pay cmd s)"

fun cmd_ok :: "pay_cmd \<Rightarrow> bool" where
  "cmd_ok (StripeHook w _ _) = world_ok w"
| "cmd_ok (PayPalHook w _ _) = world_ok w"
| "cmd_ok _ = True"

lemma safe_snd: "safe_at I acc op s \<Longrightarrow> I (snd (op s)) \<and> acc s (snd (op s))"
  by (cases "op s") (simp add: safe_at_def)

lemma stripe_endpoint_safe:
  assumes "pay_inv s" "world_ok w"
  shows "pay_inv (snd (stripe_webhook_endpoint payment_repository (build_registry w) sig payload s)) \<and>
    accounted s (snd (stripe_webhook_endpoint payment_repository (build_registry w) sig payload s))"
proof -
  have "safe_at pay_inv accounted
      (HandleWebhook payment_repository (build_registry w) ''stripe'' payload sig) s"
    by (rule pr.safe_HandleWebhook [OF assms(1)])
       (use registry_simps [OF assms(2)] stripe_event_canonical [OF assms(2)] in \<open>auto simp: stripe_provider_def\<close>)
  then show ?thesis using assms(1) accounted_refl [of s s]
    by (auto simp: stripe_webhook_endpoint_def safe_at_def split: prod.split sum.split)
qed

lemma paypal_endpoint_safe:
  assumes "pay_inv s" "world_ok w"
  shows "pay_inv (snd (paypal_webhook_endpoint payment_repository (build_registry w) headers payload s)) \<and>
    accounted s (snd (paypal_webhook_endpoint payment_repository (build_registry w) headers payload s))"
proof -
  have "safe_at pay_inv accounted (HandlePayPalWebhook payment_repository (build_registry w) headers payload) s"
    by (rule pr.safe_HandlePayPalWebhook [OF assms(1)])
       (use registry_simps [OF assms(2)] paypal_event_canonical [OF assms(2)] in \<open>auto simp: paypal_provider_def\<close>)
  then show ?thesis using assms(1) accounted_refl [of s s]
    by (auto simp: paypal_webhook_endpoint_def safe_at_def split: prod.split sum.split)
qed

lemma crypto_endpoint_safe:
  assumes "pay_inv s" "name \<noteq> PaymentGatewayPayPal"
    and res: "\<And>r. result = Inr (Some r) \<Longrightarrow> wres_ExternalPaymentID r \<noteq> '''' \<and>
      wres_IdempotencyKey r = settlement_key name (wres_ExternalPaymentID r)"
  shows "pay_inv (snd (crypto_webhook_endpoint payment_repository name result s)) \<and>
    accounted s (snd (crypto_webhook_endpoint payment_repository name result s))"
proof (cases "\<exists>r. result = Inr (Some r)")
  case True
  then obtain r where r: "result = Inr (Some r)" by blast
  have "safe_at pay_inv accounted (CreditFromPayment payment_repository (wres_AccountID r) (wres_AmountCents r)
      (wres_Currency r) name (wres_InvoiceID r) (wres_ExternalPaymentID r) (wres_IdempotencyKey r)) s"
    by (rule pr.safe_CreditFromPayment [OF assms(1,2)]) (use res [OF r] in simp)
  then show ?thesis using r
    by (auto simp: crypto_webhook_endpoint_def safe_at_def split: prod.split sum.split)
next
  case False
  then show ?thesis using assms(1) accounted_refl [of s s]
    by (auto simp: crypto_webhook_endpoint_def split: sum.splits option.splits)
qed

lemma exec_pay_safe:
  assumes "pay_inv s" "cmd_ok cmd"
  shows "pay_inv (exec_pay cmd s) \<and> accounted s (exec_pay cmd s)"
proof (cases cmd)
  case (BTCPayHook mac parse fetch secret store sig body)
  then show ?thesis
    using crypto_endpoint_safe [OF assms(1), of "''btcpay''"] btcpay_result
    by (simp add: gateway_defs)
next
  case (NOWPaymentsHook mac canonical parse secret sig body)
  then show ?thesis
    using crypto_endpoint_safe [OF assms(1), of "''nowpayments''"] nowpayments_result
    by (simp add: gateway_defs)
qed (use assms stripe_endpoint_safe [OF assms(1)] paypal_endpoint_safe [OF assms(1)] in
     \<open>auto simp: safe_snd [OF pr.safe_InitiateTopUp] safe_snd [OF pr.safe_CapturePayPalOrder]
        safe_snd [OF pr.safe_RefundPayment]\<close>)

lemma run_pay_safe:
  assumes "pay_inv s" "list_all cmd_ok cmds"
  shows "pay_inv (run_pay cmds s) \<and> accounted s (run_pay cmds s)"
  using assms
proof (induction cmds arbitrary: s)
  case Nil
  then show ?case by (simp add: accounted_refl)
next
  case (Cons cmd cmds)
  then have s1: "pay_inv (exec_pay cmd s)" "accounted s (exec_pay cmd s)"
    using exec_pay_safe [of s cmd] by simp_all
  with Cons have "pay_inv (run_pay cmds (exec_pay cmd s)) \<and> accounted (exec_pay cmd s) (run_pay cmds (exec_pay cmd s))"
    by simp
  then show ?case using accounted_trans [OF s1(2)] by simp
qed

text \<open>C7. Whatever webhooks arrive, in whatever order, however often repeated, with whatever
  database faults in between, every credit the payment service books is matched by a payment of
  the same customer and amount that left the pending state: for each customer and amount, the
  number of new credits is at most the number of that customer's payments of that amount that were
  closed. In the resulting state every completed payment is backed by its credit, no gateway
  payment completes two local payments, and the balances are the sums of the journal.\<close>

theorem payments_accounted:
  assumes "pay_inv s" and "list_all cmd_ok cmds"
  shows "pay_inv (run_pay cmds s) \<and>
    (\<forall>c a. credits_count (ledger (run_pay cmds s)) c a + closed_count (payments s) c a
         \<le> credits_count (ledger s) c a + closed_count (payments (run_pay cmds s)) c a)"
  using run_pay_safe [OF assms] unfolding accounted_def by blast

text \<open>A customer with one open PayPal order of 500 cents, and a world in which PayPal reports its
  capture.\<close>

definition ex_payment :: BillingPayment where
  "ex_payment = \<lparr>bp_ID = ''p1'', bp_CustomerID = ''c1'', bp_Gateway = ''paypal'',
     bp_GatewayPaymentID = Some ''O1'', bp_Amount = 500, bp_Currency = ''usd'', bp_Status = ''pending'',
     bp_ReuseKey = None, bp_Metadata = None, bp_CreatedAt = 0, bp_UpdatedAt = 0\<rparr>"

definition ex_pay_db :: "fault list \<Rightarrow> payments_db" where
  "ex_pay_db fs = \<lparr>faults = fs, next_id = 0, gen_uuid = (\<lambda>n. ''u'' @ nat_digits n), clock = 7,
     balances = [''c1'' \<mapsto> 0], ledger = [], payments = [ex_payment]\<rparr>"

definition ex_capture_event :: PayPalEvent where
  "ex_capture_event = \<lparr>pe_ID = ''E1'', pe_EventType = ''PAYMENT.CAPTURE.COMPLETED'',
     pe_Resource = Inr \<lparr>wr_ID = ''CAP1'', wr_Status = ''COMPLETED'', wr_CustomID = ''c1'',
       wr_Amount = Some (''USD'', ''5.00''), wr_OrderID = Some ''O1''\<rparr>\<rparr>"

definition ex_world :: gateway_world where
  "ex_world = \<lparr>gw_stripe_construct = (\<lambda>_ _. Inl ErrDB), gw_stripe_session = (\<lambda>_. Inl ErrDB),
     gw_stripe_refund = (\<lambda>_ _ _. Inl ErrDB), gw_paypal_parse = (\<lambda>_. Inr ex_capture_event),
     gw_paypal_verify = (\<lambda>_ _. Inr (200, Inr ''SUCCESS'')), gw_paypal_order = (\<lambda>_. Inl ErrDB),
     gw_paypal_capture = (\<lambda>_. (201, Inr [Some [\<lparr>cd_ID = ''CAP1'', cd_Status = ''COMPLETED'',
        cd_Amount = Some (''USD'', ''5.00'')\<rparr>]])),
     gw_paypal_refund = (\<lambda>_ _ _. Inl ErrDB), gw_crypto_name = ''btcpay'',
     gw_crypto_session = (\<lambda>_. Inl ErrDB)\<rparr>"

definition ex_headers :: "(string \<times> string) list" where
  "ex_headers = [(''Paypal-Auth-Algo'', ''a''), (''Paypal-Cert-Url'', ''b''),
     (''Paypal-Transmission-Id'', ''c''), (''Paypal-Transmission-Sig'', ''d''),
     (''Paypal-Transmission-Time'', ''e'')]"

definition ex_pay_cmds :: "pay_cmd list" where
  "ex_pay_cmds = [PayPalHook ex_world ex_headers ''x'', CaptureOrder ex_world ''c1'' ''O1'',
     PayPalHook ex_world ex_headers ''x'', PayPalHook ex_world ex_headers ''x'']"

lemma ex_world_ok: "world_ok ex_world"
  by (simp add: world_ok_def ex_world_def ex_capture_event_def)

lemma ex_pay_db_inv: "pay_inv (ex_pay_db fs)"
  by (simp add: pay_inv_def ledger_inv_def balances_ok_def entries_ok_def rows_ok_def ex_pay_db_def
      ex_payment_def status_defs ledger_keys_def List.map_filter_def)

text \<open>The capture arrives four times, by webhook and by the customer's return, the first time with
  the reply of the COMMIT lost: one credit is booked.\<close>

theorem payments_accounted_witness:
  "let s = ex_pay_db (replicate 11 NoFault @ [ReplyLost]); t = run_pay ex_pay_cmds s in
   pay_inv t \<and> credits_count (ledger t) ''c1'' 500 + closed_count (payments s) ''c1'' 500
     \<le> credits_count (ledger s) ''c1'' 500 + closed_count (payments t) ''c1'' 500 \<and>
   credits_count (ledger t) ''c1'' 500 = 1 \<and> balances t ''c1'' = Some 500"
proof -
  have ok: "list_all cmd_ok ex_pay_cmds" using ex_world_ok by (simp add: ex_pay_cmds_def)
  have "credits_count (ledger (run_pay ex_pay_cmds (ex_pay_db (replicate 11 NoFault @ [ReplyLost])))) ''c1'' 500 = 1 \<and>
    balances (run_pay ex_pay_cmds (ex_pay_db (replicate 11 NoFault @ [ReplyLost]))) ''c1'' = Some 500"
    by code_simp
  then show ?thesis
    using payments_accounted [OF ex_pay_db_inv [of "replicate 11 NoFault @ [ReplyLost]"] ok]
    unfolding Let_def by blast
qed

section \<open>Amounts survive the gateways\<close>

lemma Sscanf_pad2:
  assumes "0 \<le> i" "i < 100"
  shows "Sscanf_d (pad2 i) = Some i \<and> length (pad2 i) = 2"
proof (cases "i < 10")
  case True
  have "list_all (\<lambda>i. Sscanf_d (pad2 (int i)) = Some (int i) \<and> length (pad2 (int i)) = 2) [0..<10]"
    by code_simp
  moreover have "nat i \<in> set [0..<10]" using True assms by auto
  ultimately show ?thesis using assms unfolding list_all_iff by (metis nat_0_le)
next
  case False
  then have "\<not> nat i < 10" "nat i div 10 < 10" using assms by linarith+
  then have "length (nat_digits (nat i)) = 2"
    by (simp add: nat_digits.simps [of "nat i"] nat_digits.simps [of "nat i div 10"])
  then show ?thesis
    using False assms Sscanf_d_print_int [of i "[]"]
    by (simp add: pad2_def print_int_def int64_range_def)
qed

lemma sdiv_smod_range:
  fixes i :: int
  assumes "int64_range i"
  shows "int64_range (i sdiv 100)" "\<bar>i smod 100\<bar> < 100"
    "(i sdiv 100) * 100 + i smod 100 = i"
proof -
  have s: "i sdiv 100 = sgn i * (\<bar>i\<bar> div 100)" by (simp add: signed_divide_int_def)
  have "(- i) div 100 * 100 + (- i) mod 100 = - i" by (rule div_mult_mod_eq)
  then have "- (- i div 100 * 100) - - i mod 100 = i" by linarith
  then show "(i sdiv 100) * 100 + i smod 100 = i"
    by (cases i "0::int" rule: linorder_cases) (simp_all only: s signed_modulo_int_def, simp_all)
  show "\<bar>i smod 100\<bar> < 100"
    by (cases i "0::int" rule: linorder_cases) (simp_all add: signed_modulo_int_def)
  show "int64_range (i sdiv 100)" using assms s
    by (cases i "0::int" rule: linorder_cases) (auto simp: int64_range_def)
qed

lemma split_centsToDecimal:
  "SplitN2 (CHR ''.'') (centsToDecimal c) =
     (print_int (sint c sdiv 100), Some (pad2 \<bar>sint c smod 100\<bar>))"
proof -
  have "centsToDecimal c = print_int (sint c sdiv 100) @ CHR ''.'' # pad2 \<bar>sint c smod 100\<bar>"
    by (auto simp: centsToDecimal_def Let_def abs_if)
  then show ?thesis using SplitN2_sep(1) [OF print_int_no_dot] by simp
qed

lemma sint_range64: "int64_range (sint (c::int64))"
  using sint_greater_eq [of c] sint_less [of c] by (simp add: int64_range_def)

lemma smod_sign: "0 \<le> (i::int) \<Longrightarrow> 0 \<le> i smod 100" "0 \<le> (i::int) \<Longrightarrow> 0 \<le> i sdiv 100"
  by (simp_all add: signed_modulo_int_def signed_divide_int_def sgn_if)

lemma Sscanf_whole: "Sscanf_d (print_int (sint (c::int64) sdiv 100)) = Some (sint c sdiv 100)"
  using Sscanf_d_print_int [of "sint c sdiv 100" "[]"] sdiv_smod_range(1) [OF sint_range64] by simp

lemma whole_frac:
  assumes "0 \<le> sint (c::int64)"
  shows "(word_of_int (sint c sdiv 100) * 100 + word_of_int \<bar>sint c smod 100\<bar> :: int64) = c"
proof -
  have "(word_of_int (sint c sdiv 100) * 100 + word_of_int \<bar>sint c smod 100\<bar> :: int64)
      = word_of_int ((sint c sdiv 100) * 100 + sint c smod 100)"
    using smod_sign(1) [OF assms] by simp
  then show ?thesis using sdiv_smod_range(3) [OF sint_range64 [of c]] by simp
qed

lemma print_int_no_minus:
  assumes "0 \<le> i"
  shows "\<not> HasPrefix (TrimSpace (print_int i @ rest)) ''-''"
proof -
  obtain c cs where c: "print_int i = c # cs" "\<not> is_space c" "c \<noteq> CHR ''-''"
    using nat_digits_hd [of "\<lambda>c. \<not> is_space c \<and> c \<noteq> CHR ''-''" "nat i"] digit_char_less(3,5) assms
    by (cases "nat_digits (nat i)") (auto simp: print_int_def)
  have l: "dropWhile is_space (rev (c # xs)) \<noteq> [] \<and> last (dropWhile is_space (rev (c # xs))) = c" for xs
    using c(2) by (simp add: dropWhile_append)
  have "TrimSpace (print_int i @ rest) = rev (dropWhile is_space (rev (c # (cs @ rest))))"
    using c(1,2) by (simp add: TrimSpace_def)
  then have "hd (TrimSpace (print_int i @ rest)) = c" "TrimSpace (print_int i @ rest) \<noteq> []"
    using l [of "cs @ rest"] by (simp_all only: hd_rev rev_is_Nil_conv) simp_all
  then show ?thesis using c(3) by (cases "TrimSpace (print_int i @ rest)") (auto simp: HasPrefix_def)
qed

text \<open>C9. An amount of cents printed for a gateway and read back is the same amount: the decimal
  text the program sends to PayPal or BTCPay for a non-negative amount, returned in a webhook or a
  capture, gives exactly the cents that were asked for, over the whole range of \<open>int64\<close>.\<close>

theorem cents_roundtrip:
  assumes "0 \<le> sint c"
  shows "paypal_decimalToCents (centsToDecimal c) = Inr c \<and> crypto_decimalToCents (centsToDecimal c) = Inr c"
proof -
  let ?f = "\<bar>sint c smod 100\<bar>"
  have f: "0 \<le> ?f" "?f < 100" using sdiv_smod_range(2) [OF sint_range64 [of c]] by auto
  note pad = Sscanf_pad2 [OF f]
  have t2: "take 2 (pad2 ?f) = pad2 ?f" using pad by simp
  have frac: "parseFractionalCents (pad2 ?f) = word_of_int ?f"
    using pad t2 by (simp add: parseFractionalCents_def)
  have "\<not> HasPrefix (TrimSpace (centsToDecimal c)) ''-''"
    using print_int_no_minus [OF smod_sign(2) [OF assms]] by (simp add: centsToDecimal_def Let_def)
  then have "paypal_decimalToCents (centsToDecimal c) = Inr c"
    using split_centsToDecimal Sscanf_whole frac whole_frac [OF assms] smod_sign(2) [OF assms]
    by (simp add: paypal_decimalToCents_def Let_def)
  moreover have "crypto_decimalToCents (centsToDecimal c) = Inr c"
    using split_centsToDecimal Sscanf_whole pad t2 whole_frac [OF assms] by (simp add: crypto_decimalToCents_def)
  ultimately show ?thesis by blast
qed

theorem cents_roundtrip_witness:
  "0 \<le> sint (1905 :: int64) \<and> centsToDecimal 1905 = ''19.05'' \<and>
   paypal_decimalToCents ''19.05'' = Inr 1905 \<and> crypto_decimalToCents ''19.05'' = Inr 1905"
proof -
  have s: "0 \<le> sint (1905 :: int64)" "centsToDecimal 1905 = ''19.05''" by code_simp+
  with cents_roundtrip [OF s(1)] show ?thesis by simp
qed

section \<open>Signed webhooks\<close>

lemma hex_val_char: "n < 16 \<Longrightarrow> hex_val (hex_char n) = Some n"
proof -
  assume "n < 16"
  moreover have "list_all (\<lambda>n. hex_val (hex_char n) = Some n) [0..<16]" by code_simp
  ultimately show ?thesis by (simp add: list_all_iff)
qed

lemma hex_roundtrip:
  assumes "\<forall>b\<in>set bs. b < 256"
  shows "hex_DecodeString (hex_EncodeToString bs) = Some bs"
  using assms
proof (induction bs)
  case (Cons b bs)
  have "hex_EncodeToString (b # bs) = hex_char (b div 16) # hex_char (b mod 16) # hex_EncodeToString bs"
    by (simp add: hex_EncodeToString_def)
  moreover have "b div 16 < 16" "b mod 16 < 16" using Cons.prems by auto
  ultimately show ?case using Cons by (simp add: hex_val_char)
qed (simp add: hex_EncodeToString_def)

definition btcpay_signed :: "(string \<Rightarrow> string \<Rightarrow> nat list) \<Rightarrow> string \<Rightarrow> string \<Rightarrow> string \<Rightarrow> bool" where
  "btcpay_signed mac secret sig body \<longleftrightarrow>
     secret \<noteq> '''' \<and> (\<exists>h. sig = ''sha256='' @ h \<and> hex_DecodeString h = Some (mac secret body))"

lemma verifyBTCPaySignature_iff:
  "verifyBTCPaySignature mac secret sig body = Inr () \<longleftrightarrow> btcpay_signed mac secret sig body"
proof
  assume v: "verifyBTCPaySignature mac secret sig body = Inr ()"
  then obtain h where "SplitN2 (CHR ''='') sig = (''sha256'', Some h)"
    and h: "secret \<noteq> ''''" "hex_DecodeString h = Some (mac secret body)"
    by (auto simp: verifyBTCPaySignature_def split: if_splits prod.splits option.splits)
  from SplitN2_Some [OF this(1)] h show "btcpay_signed mac secret sig body"
    by (auto simp: btcpay_signed_def)
next
  assume "btcpay_signed mac secret sig body"
  then obtain h where sig: "sig = ''sha256='' @ h" and h: "secret \<noteq> ''''" "hex_DecodeString h = Some (mac secret body)"
    by (auto simp: btcpay_signed_def)
  have "SplitN2 (CHR ''='') (''sha256'' @ CHR ''='' # h) = (''sha256'', Some h)"
    by (rule SplitN2_sep) simp
  then show "verifyBTCPaySignature mac secret sig body = Inr ()"
    using sig h by (simp add: verifyBTCPaySignature_def)
qed

text \<open>C10. A BTCPay webhook moves money only if it is signed: the request is accepted exactly when a
  secret is configured and the header is \<^verbatim>\<open>sha256=\<close> followed by a hexadecimal spelling of the
  HMAC of the body under that secret; any other request is answered 400 and the database is not
  touched. The header the program's own \<open>computeHMACSHA256\<close> spells for a body is accepted.\<close>

theorem btcpay_webhook_authentic:
  "(\<not> btcpay_signed mac secret sig body \<longrightarrow>
      crypto_webhook_endpoint repo ''btcpay'' (btcpay_HandleWebhook mac parse fetch secret store sig body) s = (400, s)) \<and>
   (secret \<noteq> '''' \<and> (\<forall>b\<in>set (mac secret body). b < 256) \<longrightarrow>
      verifyBTCPaySignature mac secret (''sha256='' @ computeHMACSHA256 mac secret body) body = Inr ())"
proof (intro conjI impI)
  assume n: "\<not> btcpay_signed mac secret sig body"
  obtain e where "verifyBTCPaySignature mac secret sig body = Inl e"
    using n verifyBTCPaySignature_iff [of mac secret sig body]
    by (cases "verifyBTCPaySignature mac secret sig body") auto
  then show "crypto_webhook_endpoint repo ''btcpay'' (btcpay_HandleWebhook mac parse fetch secret store sig body) s = (400, s)"
    by (simp add: btcpay_HandleWebhook_def crypto_webhook_endpoint_def IsWebhookClientError_def)
next
  assume "secret \<noteq> '''' \<and> (\<forall>b\<in>set (mac secret body). b < 256)"
  then have "btcpay_signed mac secret (''sha256='' @ computeHMACSHA256 mac secret body) body"
    by (simp add: btcpay_signed_def computeHMACSHA256_def hex_roundtrip)
  then show "verifyBTCPaySignature mac secret (''sha256='' @ computeHMACSHA256 mac secret body) body = Inr ()"
    by (simp add: verifyBTCPaySignature_iff)
qed

definition ex_mac :: "string \<Rightarrow> string \<Rightarrow> nat list" where
  "ex_mac k m = [length k, length m, 171]"

theorem btcpay_webhook_authentic_witness:
  "\<not> btcpay_signed ex_mac ''key'' ''sha256=0304'' ''body'' \<and>
   crypto_webhook_endpoint payment_repository ''btcpay''
     (btcpay_HandleWebhook ex_mac (\<lambda>_. Inl ErrDB) (\<lambda>_. Inl ErrDB) ''key'' ''st'' ''sha256=0304'' ''body'')
     (ex_pay_db []) = (400, ex_pay_db []) \<and>
   verifyBTCPaySignature ex_mac ''key'' ''sha256=0304ab'' ''body'' = Inr ()"
proof -
  have "verifyBTCPaySignature ex_mac ''key'' ''sha256=0304'' ''body'' \<noteq> Inr ()"
    "computeHMACSHA256 ex_mac ''key'' ''body'' = ''0304ab''" by code_simp+
  then show ?thesis
    using btcpay_webhook_authentic [of ex_mac "''key''" "''sha256=0304''" "''body''" payment_repository
        "\<lambda>_. Inl ErrDB" "\<lambda>_. Inl ErrDB" "''st''" "ex_pay_db []"]
    by (simp add: verifyBTCPaySignature_iff ex_mac_def)
qed

section \<open>Refunds\<close>

lemma keeps_tables_get:
  "tables (snd (payment_GetByID pid s)) = tables s"
proof -
  obtain r t where rt: "auto_stmt (select_payment (\<lambda>p. bp_ID p = pid)) s = (r, t)" by fastforce
  then have "tables t = tables s"
    by (cases rule: auto_stmt_cases) (auto simp: select_payment_def split: option.splits)
  then show ?thesis using rt by (simp add: payment_GetByID_def)
qed



end
