(* ===== verification/VM_Repo.thy ===== *)
theory VM_Repo
  imports Ledger Go_Stdlib
begin

text \<open>
  Virtual machines: \<^verbatim>\<open>models/vm.go\<close> (the record and its state machine) and
  \<^verbatim>\<open>repository/vm_repo.go\<close> (the table \<^verbatim>\<open>vms\<close>). A row is the struct \<open>VM\<close>; the table is the
  list of its rows in insertion order. The constraints the migrations put on the table are part
  of every statement that writes it: the primary key, the unique MAC address, the unique hostname
  and external service id among rows that are not deleted, the check on the status and the
  NOT NULL of \<^verbatim>\<open>storage_backend_id\<close> that migration 57 adds. A statement refused for another
  reason (a foreign key, an ill-formed UUID) is one the connection refuses.
\<close>

section \<open>The state machine\<close>

definition VMStatusProvisioning :: string where "VMStatusProvisioning = ''provisioning''"
definition VMStatusRunning :: string where "VMStatusRunning = ''running''"
definition VMStatusStopped :: string where "VMStatusStopped = ''stopped''"
definition VMStatusSuspended :: string where "VMStatusSuspended = ''suspended''"
definition VMStatusDeleting :: string where "VMStatusDeleting = ''deleting''"
definition VMStatusMigrating :: string where "VMStatusMigrating = ''migrating''"
definition VMStatusReinstalling :: string where "VMStatusReinstalling = ''reinstalling''"
definition VMStatusError :: string where "VMStatusError = ''error''"
definition VMStatusDeleted :: string where "VMStatusDeleted = ''deleted''"

lemmas VMStatus_defs = VMStatusProvisioning_def VMStatusRunning_def VMStatusStopped_def
  VMStatusSuspended_def VMStatusDeleting_def VMStatusMigrating_def VMStatusReinstalling_def
  VMStatusError_def VMStatusDeleted_def

definition ValidVMTransitions :: "(string \<times> string list) list" where
  "ValidVMTransitions =
    [(VMStatusProvisioning, [VMStatusRunning, VMStatusError]),
     (VMStatusRunning, [VMStatusStopped, VMStatusSuspended, VMStatusDeleting, VMStatusMigrating,
                        VMStatusReinstalling, VMStatusError]),
     (VMStatusStopped, [VMStatusRunning, VMStatusDeleting, VMStatusReinstalling, VMStatusMigrating,
                        VMStatusError]),
     (VMStatusSuspended, [VMStatusRunning, VMStatusStopped, VMStatusDeleting, VMStatusMigrating]),
     (VMStatusDeleting, [VMStatusDeleted, VMStatusError]),
     (VMStatusMigrating, [VMStatusRunning, VMStatusStopped, VMStatusSuspended, VMStatusError]),
     (VMStatusReinstalling, [VMStatusRunning, VMStatusError]),
     (VMStatusError, [VMStatusStopped, VMStatusDeleting])]"

definition ValidateVMTransition :: "string \<Rightarrow> string \<Rightarrow> error + unit" where
  "ValidateVMTransition from to =
     (case map_of ValidVMTransitions from of
        None \<Rightarrow> Inl ErrConflict
      | Some allowedTargets \<Rightarrow> if to \<notin> set allowedTargets then Inl ErrConflict else Inr ())"

section \<open>Rows and constraints\<close>

record VM =
  vm_ID :: string
  vm_CustomerID :: string
  vm_NodeID :: "string option"
  vm_PlanID :: string
  vm_Hostname :: string
  vm_Status :: string
  vm_VCPU :: int
  vm_MemoryMB :: int
  vm_DiskGB :: int
  vm_PortSpeedMbps :: int
  vm_BandwidthLimitGB :: int
  vm_BandwidthUsedBytes :: int64
  vm_BandwidthResetAt :: int
  vm_MACAddress :: string
  vm_TemplateID :: "string option"
  vm_LibvirtDomainName :: "string option"
  vm_RootPasswordEncrypted :: "string option"
  vm_ExternalServiceID :: "int option"
  vm_StorageBackend :: string
  vm_DiskPath :: "string option"
  vm_CephPool :: "string option"
  vm_RBDImage :: "string option"
  vm_StorageBackendID :: "string option"
  vm_AttachedISO :: "string option"
  vm_CreatedAt :: int
  vm_UpdatedAt :: int
  vm_DeletedAt :: "int option"

text \<open>\<open>backend_required\<close>: whether migration 57 has made \<^verbatim>\<open>storage_backend_id\<close> NOT NULL.
  \<open>billing_providers\<close> is the column \<^verbatim>\<open>customers.billing_provider\<close>.\<close>

record vm_db = ledger_db +
  vms :: "VM list"
  backend_required :: bool
  billing_providers :: "string \<rightharpoonup> string"

definition vm_statuses :: "string list" where
  "vm_statuses = [VMStatusProvisioning, VMStatusRunning, VMStatusStopped, VMStatusSuspended,
     VMStatusDeleting, VMStatusMigrating, VMStatusReinstalling, VMStatusError, VMStatusDeleted]"

definition active :: "VM \<Rightarrow> bool" where
  "active v \<longleftrightarrow> vm_DeletedAt v = None"

definition active_services :: "VM list \<Rightarrow> int list" where
  "active_services rows = List.map_filter vm_ExternalServiceID (filter active rows)"

text \<open>The first constraint a table content violates, as the error pgx reports; \<open>None\<close> if it
  violates none.\<close>

definition vm_violation :: "bool \<Rightarrow> VM list \<Rightarrow> error option" where
  "vm_violation required rows =
     (if required \<and> (\<exists>v\<in>set rows. vm_StorageBackendID v = None) then Some ErrDB
      else if \<not> (\<forall>v\<in>set rows. vm_Status v \<in> set vm_statuses) then Some ErrDB
      else if \<not> distinct (map vm_ID rows) then Some (ErrUniqueViolation ''vms_pkey'')
      else if \<not> distinct (map vm_MACAddress rows)
        then Some (ErrUniqueViolation ''vms_mac_address_key'')
      else if \<not> distinct (map vm_Hostname (filter active rows))
        then Some (ErrUniqueViolation ''uq_vms_hostname_active'')
      else if \<not> distinct (active_services rows)
        then Some (ErrUniqueViolation ''idx_vms_external_service_id_active_unique'')
      else None)"

text \<open>A statement writes the new rows if they violate nothing, and changes nothing otherwise.\<close>

definition write_vms :: "VM list \<Rightarrow> 'a \<Rightarrow> ('r vm_db_scheme, 'a) db_op" where
  "write_vms rows x s =
     (case vm_violation (backend_required s) rows of
        Some e \<Rightarrow> (Inl e, s)
      | None \<Rightarrow> (Inr x, s\<lparr>vms := rows\<rparr>))"

text \<open>\<open>UPDATE vms SET ... WHERE ...\<close>: the command tag is the number of rows that matched;
  \<open>NOW()\<close> is passed to the assignment.\<close>

definition update_rows :: "(VM \<Rightarrow> bool) \<Rightarrow> (int \<Rightarrow> VM \<Rightarrow> VM) \<Rightarrow> ('r vm_db_scheme, nat) db_op" where
  "update_rows P f =
     auto_stmt (\<lambda>s. write_vms (map (\<lambda>v. if P v then f (clock s) v else v) (vms s))
                      (length (filter P (vms s))) s)"

text \<open>\<open>UPDATE vms SET ..., updated_at = NOW() WHERE id = $n AND deleted_at IS NULL\<close>, the shape
  of the setters.\<close>

definition set_active :: "string \<Rightarrow> (VM \<Rightarrow> VM) \<Rightarrow> ('r vm_db_scheme, unit) db_op" where
  "set_active vmid f =
     require_affected ErrNoRowsAffected
       (update_rows (\<lambda>v. vm_ID v = vmid \<and> active v) (\<lambda>now v. (f v)\<lparr>vm_UpdatedAt := now\<rparr>))"

section \<open>Writing\<close>

definition isActiveExternalServiceDuplicate :: "error \<Rightarrow> bool" where
  "isActiveExternalServiceDuplicate e \<longleftrightarrow>
     e = ErrUniqueViolation ''idx_vms_external_service_id_active_unique''"

text \<open>The columns the INSERT names; the others take their defaults. \<^verbatim>\<open>storage_backend_id\<close> is not
  among them.\<close>

definition new_row :: "string \<Rightarrow> int \<Rightarrow> VM \<Rightarrow> VM" where
  "new_row vmid now vm =
     \<lparr>vm_ID = vmid, vm_CustomerID = vm_CustomerID vm, vm_NodeID = vm_NodeID vm,
      vm_PlanID = vm_PlanID vm, vm_Hostname = vm_Hostname vm, vm_Status = vm_Status vm,
      vm_VCPU = vm_VCPU vm, vm_MemoryMB = vm_MemoryMB vm, vm_DiskGB = vm_DiskGB vm,
      vm_PortSpeedMbps = vm_PortSpeedMbps vm, vm_BandwidthLimitGB = vm_BandwidthLimitGB vm,
      vm_BandwidthUsedBytes = 0, vm_BandwidthResetAt = now,
      vm_MACAddress = vm_MACAddress vm, vm_TemplateID = vm_TemplateID vm,
      vm_LibvirtDomainName = vm_LibvirtDomainName vm,
      vm_RootPasswordEncrypted = vm_RootPasswordEncrypted vm,
      vm_ExternalServiceID = vm_ExternalServiceID vm,
      vm_StorageBackend = vm_StorageBackend vm, vm_DiskPath = vm_DiskPath vm,
      vm_CephPool = Some ''vs-vms'', vm_RBDImage = None, vm_StorageBackendID = None,
      vm_AttachedISO = None, vm_CreatedAt = now, vm_UpdatedAt = now, vm_DeletedAt = None\<rparr>"

definition vm_Create :: "VM \<Rightarrow> ('r vm_db_scheme, VM) db_op" where
  "vm_Create vm s =
     (case auto_stmt (\<lambda>s.
        let row = new_row (gen_uuid s (next_id s)) (clock s) vm
        in write_vms (vms s @ [row]) row (s\<lparr>next_id := Suc (next_id s)\<rparr>)) s of
        (Inl e, s1) \<Rightarrow> (Inl (if isActiveExternalServiceDuplicate e then ErrConflict else e), s1)
      | (Inr created, s1) \<Rightarrow> (Inr created, s1))"

definition vm_UpdateStatus :: "string \<Rightarrow> string \<Rightarrow> ('r vm_db_scheme, unit) db_op" where
  "vm_UpdateStatus vmid status = set_active vmid (vm_Status_update (\<lambda>_. status))"

definition TransitionStatus :: "string \<Rightarrow> string \<Rightarrow> string \<Rightarrow> ('r vm_db_scheme, unit) db_op" where
  "TransitionStatus vmID fromStatus toStatus =
     bind_db (lift_db (ValidateVMTransition fromStatus toStatus)) (\<lambda>_.
       require_affected ErrConflict
         (update_rows (\<lambda>v. vm_ID v = vmID \<and> vm_Status v = fromStatus \<and> active v)
            (\<lambda>now v. v\<lparr>vm_Status := toStatus, vm_UpdatedAt := now\<rparr>)))"

definition UpdateNodeAssignment :: "string \<Rightarrow> string \<Rightarrow> ('r vm_db_scheme, unit) db_op" where
  "UpdateNodeAssignment vmID nodeID = set_active vmID (vm_NodeID_update (\<lambda>_. Some nodeID))"

definition UpdateResources :: "string \<Rightarrow> int \<Rightarrow> int \<Rightarrow> int \<Rightarrow> ('r vm_db_scheme, unit) db_op" where
  "UpdateResources vmid vcpu memoryMB diskGB =
     set_active vmid (\<lambda>v. v\<lparr>vm_VCPU := vcpu, vm_MemoryMB := memoryMB, vm_DiskGB := diskGB\<rparr>)"

definition UpdateBandwidthUsed :: "string \<Rightarrow> int64 \<Rightarrow> ('r vm_db_scheme, unit) db_op" where
  "UpdateBandwidthUsed vmid usedBytes =
     set_active vmid (vm_BandwidthUsedBytes_update (\<lambda>_. usedBytes))"

definition ResetBandwidth :: "string \<Rightarrow> ('r vm_db_scheme, unit) db_op" where
  "ResetBandwidth vmid =
     require_affected ErrNoRowsAffected
       (update_rows (\<lambda>v. vm_ID v = vmid \<and> active v)
          (\<lambda>now v. v\<lparr>vm_BandwidthUsedBytes := 0, vm_BandwidthResetAt := now, vm_UpdatedAt := now\<rparr>))"

definition SoftDelete :: "string \<Rightarrow> ('r vm_db_scheme, unit) db_op" where
  "SoftDelete vmid =
     require_affected ErrNoRowsAffected
       (update_rows (\<lambda>v. vm_ID v = vmid \<and> active v)
          (\<lambda>now v. v\<lparr>vm_DeletedAt := Some now, vm_Status := VMStatusDeleted, vm_UpdatedAt := now\<rparr>))"

definition RestoreSoftDelete :: "string \<Rightarrow> string \<Rightarrow> ('r vm_db_scheme, unit) db_op" where
  "RestoreSoftDelete vmid previousStatus =
     require_affected ErrNoRowsAffected
       (update_rows (\<lambda>v. vm_ID v = vmid \<and> \<not> active v)
          (\<lambda>now v. v\<lparr>vm_DeletedAt := None, vm_Status := previousStatus, vm_UpdatedAt := now\<rparr>))"

definition UpdateTemplateID :: "string \<Rightarrow> string \<Rightarrow> ('r vm_db_scheme, unit) db_op" where
  "UpdateTemplateID vmID templateID = set_active vmID (vm_TemplateID_update (\<lambda>_. Some templateID))"

definition UpdateMACAddress :: "string \<Rightarrow> string \<Rightarrow> ('r vm_db_scheme, unit) db_op" where
  "UpdateMACAddress vmID macAddress = set_active vmID (vm_MACAddress_update (\<lambda>_. macAddress))"

definition UpdatePassword :: "string \<Rightarrow> string \<Rightarrow> ('r vm_db_scheme, unit) db_op" where
  "UpdatePassword vmID encryptedPassword =
     set_active vmID (vm_RootPasswordEncrypted_update (\<lambda>_. Some encryptedPassword))"

definition UpdateHostname :: "string \<Rightarrow> string \<Rightarrow> ('r vm_db_scheme, unit) db_op" where
  "UpdateHostname vmID hostname = set_active vmID (vm_Hostname_update (\<lambda>_. hostname))"

definition UpdateNetworkLimits :: "string \<Rightarrow> int \<Rightarrow> int \<Rightarrow> ('r vm_db_scheme, unit) db_op" where
  "UpdateNetworkLimits vmID portSpeedMbps bandwidthLimitGB =
     set_active vmID (\<lambda>v. v\<lparr>vm_PortSpeedMbps := portSpeedMbps, vm_BandwidthLimitGB := bandwidthLimitGB\<rparr>)"

definition UpdateAttachedISO :: "string \<Rightarrow> string option \<Rightarrow> ('r vm_db_scheme, unit) db_op" where
  "UpdateAttachedISO vmID isoID = set_active vmID (vm_AttachedISO_update (\<lambda>_. isoID))"

definition UpdatePlanID :: "string \<Rightarrow> string \<Rightarrow> ('r vm_db_scheme, unit) db_op" where
  "UpdatePlanID vmID planID = set_active vmID (vm_PlanID_update (\<lambda>_. planID))"

section \<open>Reading\<close>

text \<open>\<open>vmSelectCols\<close> and \<open>scanVM\<close>: the select list has every column of the struct but
  \<^verbatim>\<open>storage_backend_id\<close>, so a VM read back never carries one.\<close>

definition vmSelectCols :: "string list" where
  "vmSelectCols =
    [''id'', ''customer_id'', ''node_id'', ''plan_id'', ''hostname'', ''status'', ''vcpu'',
     ''memory_mb'', ''disk_gb'', ''port_speed_mbps'', ''bandwidth_limit_gb'',
     ''bandwidth_used_bytes'', ''bandwidth_reset_at'', ''mac_address'', ''template_id'',
     ''libvirt_domain_name'', ''root_password_encrypted'', ''external_service_id'',
     ''attached_iso'', ''created_at'', ''updated_at'', ''deleted_at'', ''storage_backend'',
     ''disk_path'', ''ceph_pool'', ''rbd_image'']"

definition scanVM :: "VM \<Rightarrow> VM" where
  "scanVM row = row\<lparr>vm_StorageBackendID := None\<rparr>"

definition select_vm :: "(VM \<Rightarrow> bool) \<Rightarrow> ('r vm_db_scheme, VM) db_op" where
  "select_vm P =
     auto_stmt (\<lambda>s. case find P (vms s) of
         None \<Rightarrow> (Inl ErrNotFound, s)
       | Some v \<Rightarrow> (Inr (scanVM v), s))"

definition select_vms :: "(VM list \<Rightarrow> VM list) \<Rightarrow> ('r vm_db_scheme, VM list) db_op" where
  "select_vms q = auto_stmt (\<lambda>s. (Inr (map scanVM (q (vms s))), s))"

definition count_vms :: "(VM \<Rightarrow> bool) \<Rightarrow> ('r vm_db_scheme, nat) db_op" where
  "count_vms P = auto_stmt (\<lambda>s. (Inr (length (filter P (vms s))), s))"

definition vm_GetByID :: "string \<Rightarrow> ('r vm_db_scheme, VM) db_op" where
  "vm_GetByID vmid = select_vm (\<lambda>v. vm_ID v = vmid \<and> active v)"

definition GetByIDIncludingDeleted :: "string \<Rightarrow> ('r vm_db_scheme, VM) db_op" where
  "GetByIDIncludingDeleted vmid = select_vm (\<lambda>v. vm_ID v = vmid)"

text \<open>Row-level security hides rows from the transaction of a customer: \<open>visible\<close> is the policy
  in force.\<close>

definition GetByIDForCustomer ::
  "(VM \<Rightarrow> bool) \<Rightarrow> string \<Rightarrow> ('r vm_db_scheme, VM) db_op" where
  "GetByIDForCustomer visible vmid =
     tx_stmt (\<lambda>s. case find (\<lambda>v. visible v \<and> vm_ID v = vmid \<and> active v) (vms s) of
         None \<Rightarrow> (Inl ErrNotFound, s)
       | Some v \<Rightarrow> (Inr (scanVM v), s))"

record VMListFilter =
  vf_CustomerID :: "string option"
  vf_NodeID :: "string option"
  vf_Status :: "string option"
  vf_Search :: "string option"
  vf_VMIDs :: "string list"
  vf_PerPage :: nat
  vf_LastID :: string

definition cursorPageLimit :: "int \<Rightarrow> nat" where
  "cursorPageLimit perPage = (if perPage < 0 then 0 else nat perPage + 1)"

definition vm_list_where :: "VMListFilter \<Rightarrow> VM \<Rightarrow> bool" where
  "vm_list_where filt v \<longleftrightarrow>
     active v \<and>
     (case vf_CustomerID filt of None \<Rightarrow> True | Some c \<Rightarrow> vm_CustomerID v = c) \<and>
     (case vf_NodeID filt of None \<Rightarrow> True | Some n \<Rightarrow> vm_NodeID v = Some n) \<and>
     (case vf_Status filt of None \<Rightarrow> True | Some st \<Rightarrow> vm_Status v = st) \<and>
     (case vf_Search filt of None \<Rightarrow> True | Some q \<Rightarrow> ilike (''%'' @ q @ ''%'') (vm_Hostname v)) \<and>
     (vf_VMIDs filt \<noteq> [] \<longrightarrow> vm_ID v \<in> set (vf_VMIDs filt))"

definition vm_List :: "VMListFilter \<Rightarrow> ('r vm_db_scheme, VM list \<times> bool \<times> string) db_op" where
  "vm_List filt =
     bind_db
       (select_vms (\<lambda>rows.
          take (cursorPageLimit (int (vf_PerPage filt)))
            (id_desc vm_ID
               (filter (\<lambda>v. vf_LastID filt \<noteq> '''' \<longrightarrow> vm_ID v < vf_LastID filt)
                  (filter (vm_list_where filt) rows)))))
       (\<lambda>rows.
          let hasMore = length rows > vf_PerPage filt;
              page = (if hasMore then take (vf_PerPage filt) rows else rows);
              lastID = (if page \<noteq> [] then vm_ID (last page) else '''')
          in return_db (page, hasMore, lastID))"

definition vm_ListByCustomer ::
  "string \<Rightarrow> nat \<Rightarrow> string \<Rightarrow> ('r vm_db_scheme, VM list \<times> bool \<times> string) db_op" where
  "vm_ListByCustomer customerID perPage lastID =
     vm_List \<lparr>vf_CustomerID = Some customerID, vf_NodeID = None, vf_Status = None,
              vf_Search = None, vf_VMIDs = [], vf_PerPage = perPage, vf_LastID = lastID\<rparr>"

definition GetByExternalServiceID :: "int \<Rightarrow> ('r vm_db_scheme, VM) db_op" where
  "GetByExternalServiceID serviceID =
     select_vm (\<lambda>v. vm_ExternalServiceID v = Some serviceID \<and> active v)"

definition CountByNode :: "string \<Rightarrow> ('r vm_db_scheme, nat) db_op" where
  "CountByNode nodeID = count_vms (\<lambda>v. vm_NodeID v = Some nodeID \<and> active v)"

definition CountByStorageBackend :: "string \<Rightarrow> ('r vm_db_scheme, nat) db_op" where
  "CountByStorageBackend backendID =
     count_vms (\<lambda>v. vm_StorageBackendID v = Some backendID \<and> active v)"

definition ListAllActive :: "('r vm_db_scheme, VM list) db_op" where
  "ListAllActive = select_vms (filter (\<lambda>v. active v \<and> vm_NodeID v \<noteq> None))"

definition ListAllActiveCursor :: "string \<Rightarrow> nat \<Rightarrow> ('r vm_db_scheme, VM list) db_op" where
  "ListAllActiveCursor afterID limit =
     (if afterID = '''' then
        select_vms (\<lambda>rows. take limit (sort_key vm_ID
          (filter (\<lambda>v. active v \<and> vm_NodeID v \<noteq> None) rows)))
      else
        select_vms (\<lambda>rows. take limit (sort_key vm_ID
          (filter (\<lambda>v. active v \<and> vm_NodeID v \<noteq> None \<and> afterID < vm_ID v) rows))))"

definition ListAllActiveBatch :: "string \<Rightarrow> nat \<Rightarrow> ('r vm_db_scheme, VM list) db_op" where
  "ListAllActiveBatch afterID limit = ListAllActiveCursor afterID limit"

definition ListByNodeIDs :: "string list \<Rightarrow> ('r vm_db_scheme, VM list) db_op" where
  "ListByNodeIDs nodeIDs =
     (if nodeIDs = [] then return_db []
      else select_vms (filter (\<lambda>v. active v \<and> (\<exists>n\<in>set nodeIDs. vm_NodeID v = Some n))))"

definition ListByCustomerIDs :: "string list \<Rightarrow> ('r vm_db_scheme, VM list) db_op" where
  "ListByCustomerIDs customerIDs =
     (if customerIDs = [] then return_db []
      else select_vms (filter (\<lambda>v. active v \<and> vm_CustomerID v \<in> set customerIDs)))"

definition ListByPlanIDs :: "string list \<Rightarrow> ('r vm_db_scheme, VM list) db_op" where
  "ListByPlanIDs planIDs =
     (if planIDs = [] then return_db []
      else select_vms (filter (\<lambda>v. active v \<and> vm_PlanID v \<in> set planIDs)))"

record AdminBackupTargetFilter =
  bf_NodeIDs :: "string list"
  bf_CustomerIDs :: "string list"
  bf_PlanIDs :: "string list"

definition ListForAdminBackupTarget ::
  "AdminBackupTargetFilter \<Rightarrow> ('r vm_db_scheme, VM list) db_op" where
  "ListForAdminBackupTarget filt =
     (if bf_NodeIDs filt = [] \<and> bf_CustomerIDs filt = [] \<and> bf_PlanIDs filt = [] then ListAllActive
      else select_vms (filter (\<lambda>v.
        active v \<and> vm_NodeID v \<noteq> None \<and>
        (bf_NodeIDs filt \<noteq> [] \<longrightarrow> (\<exists>n\<in>set (bf_NodeIDs filt). vm_NodeID v = Some n)) \<and>
        (bf_CustomerIDs filt \<noteq> [] \<longrightarrow> vm_CustomerID v \<in> set (bf_CustomerIDs filt)) \<and>
        (bf_PlanIDs filt \<noteq> [] \<longrightarrow> vm_PlanID v \<in> set (bf_PlanIDs filt)))))"

text \<open>
  \<open>ListBillableVMs\<close> joins \<^verbatim>\<open>vms v\<close> with \<^verbatim>\<open>customers c\<close> and keeps the unqualified select list.
  SQL refuses a statement in which an unqualified column name belongs to two of the joined
  tables; the columns of \<^verbatim>\<open>customers\<close> are those of the migrations.
\<close>

definition customers_columns :: "string list" where
  "customers_columns =
    [''id'', ''email'', ''password_hash'', ''name'', ''whmcs_client_id'', ''totp_secret_encrypted'',
     ''totp_enabled'', ''totp_backup_codes_hash'', ''status'', ''created_at'', ''updated_at'',
     ''phone'', ''totp_backup_codes_shown'', ''billing_provider'', ''balance'', ''auth_provider'',
     ''external_client_id'']"

definition ambiguous_columns :: "string list \<Rightarrow> string list \<Rightarrow> string list" where
  "ambiguous_columns selected joined = filter (\<lambda>c. c \<in> set joined) selected"

definition ListBillableVMs :: "('r vm_db_scheme, VM list) db_op" where
  "ListBillableVMs =
     auto_stmt (\<lambda>s.
       if ambiguous_columns vmSelectCols customers_columns \<noteq> [] then (Inl ErrDB, s)
       else (Inr (map scanVM (sort_key vm_ID
              (filter (\<lambda>v. (vm_Status v = VMStatusRunning \<or> vm_Status v = VMStatusStopped) \<and>
                           active v \<and> billing_providers s (vm_CustomerID v) = Some ''native'')
                 (vms s)))), s))"

section \<open>What the statements do\<close>

lemma vm_tables [simp]:
  "vms (tables s) = vms s" "backend_required (tables s) = backend_required s"
  "billing_providers (tables s) = billing_providers s"
  by (simp_all add: tables_def)

lemma tables_vms_update [simp]: "tables (s\<lparr>vms := v\<rparr>) = (tables s)\<lparr>vms := v\<rparr>"
  by (simp add: tables_def)

lemma vm_tables_eqD:
  fixes s t :: "'r vm_db_scheme"
  assumes "tables s = tables t"
  shows "vms s = vms t" "backend_required s = backend_required t" "clock s = clock t"
    "billing_providers s = billing_providers t"
  using arg_cong [OF assms, of vms] arg_cong [OF assms, of backend_required]
    arg_cong [OF assms, of clock] arg_cong [OF assms, of billing_providers] by simp_all

definition updated :: "(VM \<Rightarrow> bool) \<Rightarrow> (int \<Rightarrow> VM \<Rightarrow> VM) \<Rightarrow> int \<Rightarrow> VM list \<Rightarrow> VM list" where
  "updated P f now rows = map (\<lambda>v. if P v then f now v else v) rows"

definition vms_ok :: "'r vm_db_scheme \<Rightarrow> bool" where
  "vms_ok s \<longleftrightarrow> vm_violation (backend_required s) (vms s) = None"

lemma env_free_vms_ok: "env_free vms_ok"
  by (simp add: env_free_def vms_ok_def)

lemma write_vms_cases:
  assumes "write_vms rows x s = (r, t)"
  obtains (violated) e where "r = Inl e" "t = s" "vm_violation (backend_required s) rows = Some e"
  | (written) "r = Inr x" "t = s\<lparr>vms := rows\<rparr>" "vm_violation (backend_required s) rows = None"
  using assms by (auto simp: write_vms_def split: option.splits)

lemma update_rows_cases:
  assumes "update_rows P f s = (r, t)"
  obtains (refused) e where "r = Inl e" "tables t = tables s"
  | (applied) "tables t = tables (s\<lparr>vms := updated P f (clock s) (vms s)\<rparr>)"
      "r = Inr (length (filter P (vms s))) \<or> r = Inl ErrDB"
      "vm_violation (backend_required s) (updated P f (clock s) (vms s)) = None"
  using assms unfolding update_rows_def updated_def [symmetric]
proof (cases rule: auto_stmt_cases)
  case 1
  then show ?thesis using refused by blast
next
  case (2 s1)
  from 2(2) show ?thesis
  proof (cases rule: write_vms_cases)
    case (violated e)
    with 2(1) show ?thesis by (intro refused) auto
  next
    case written
    with 2(1) show ?thesis
      by (intro applied) (simp_all add: vm_tables_eqD [OF 2(1)])
  qed
next
  case (3 s1 r1)
  from 3(2) show ?thesis
  proof (cases rule: write_vms_cases)
    case (violated e)
    with 3(1,3) show ?thesis by (intro refused) auto
  next
    case written
    with 3(1,3) show ?thesis
      by (intro applied) (simp_all add: vm_tables_eqD [OF 3(1)])
  qed
qed

lemma require_affected_cases:
  assumes "require_affected e (update_rows P f) s = (r, t)"
  obtains (refused) e' where "r = Inl e'" "tables t = tables s"
  | (none) "r = Inl e \<or> r = Inl ErrDB" "filter P (vms s) = []" "tables t = tables s"
  | (applied) "r = Inr () \<or> r = Inl ErrDB" "filter P (vms s) \<noteq> []"
      "tables t = tables (s\<lparr>vms := updated P f (clock s) (vms s)\<rparr>)"
      "vm_violation (backend_required s) (updated P f (clock s) (vms s)) = None"
proof -
  obtain r1 s1 where u: "update_rows P f s = (r1, s1)" by (cases "update_rows P f s")
  have t: "t = s1" and r: "r = (case r1 of Inl e' \<Rightarrow> Inl e' | Inr n \<Rightarrow> if n = 0 then Inl e else Inr ())"
    using assms u by (auto simp: require_affected_def db_simps split: sum.splits if_splits)
  from u show thesis
  proof (cases rule: update_rows_cases)
    case (refused e')
    then show thesis using t r that(1) by simp
  next
    case applied
    show thesis
    proof (cases "filter P (vms s) = []")
      case True
      then have "updated P f (clock s) (vms s) = vms s"
        by (auto simp: updated_def filter_empty_conv intro: map_idI)
      then have "tables t = tables s" using applied(1) t by (simp add: tables_def)
      then show thesis using that(2) True applied(2) r by auto
    next
      case False
      then show thesis using that(3) [OF _ False] applied t r by auto
    qed
  qed
qed

lemma updated_require_affected:
  assumes "faults s = []" "filter P (vms s) \<noteq> []"
    "vm_violation (backend_required s) (updated P f (clock s) (vms s)) = None"
  shows "require_affected e (update_rows P f) s = (Inr (), s\<lparr>vms := updated P f (clock s) (vms s)\<rparr>)"
  using assms
  by (simp add: require_affected_def update_rows_def write_vms_def db_simps updated_def)

section \<open>Histories of writes\<close>

datatype vm_cmd =
    VCreate VM
  | VUpdateStatus string string
  | VTransition string string string
  | VNode string string
  | VResources string int int int
  | VBandwidthUsed string int64
  | VResetBandwidth string
  | VSoftDelete string
  | VRestore string string
  | VTemplate string string
  | VMac string string
  | VPassword string string
  | VHostname string string
  | VNetworkLimits string int int
  | VISO string "string option"
  | VPlan string string

fun exec_vm :: "vm_cmd \<Rightarrow> ('r vm_db_scheme, unit) db_op" where
  "exec_vm (VCreate v) = bind_db (vm_Create v) (\<lambda>_. return_db ())"
| "exec_vm (VUpdateStatus i st) = vm_UpdateStatus i st"
| "exec_vm (VTransition i a b) = TransitionStatus i a b"
| "exec_vm (VNode i n) = UpdateNodeAssignment i n"
| "exec_vm (VResources i c m d) = UpdateResources i c m d"
| "exec_vm (VBandwidthUsed i b) = UpdateBandwidthUsed i b"
| "exec_vm (VResetBandwidth i) = ResetBandwidth i"
| "exec_vm (VSoftDelete i) = SoftDelete i"
| "exec_vm (VRestore i st) = RestoreSoftDelete i st"
| "exec_vm (VTemplate i t) = UpdateTemplateID i t"
| "exec_vm (VMac i m) = UpdateMACAddress i m"
| "exec_vm (VPassword i p) = UpdatePassword i p"
| "exec_vm (VHostname i h) = UpdateHostname i h"
| "exec_vm (VNetworkLimits i p b) = UpdateNetworkLimits i p b"
| "exec_vm (VISO i x) = UpdateAttachedISO i x"
| "exec_vm (VPlan i p) = UpdatePlanID i p"

fun run_vm :: "vm_cmd list \<Rightarrow> 'r vm_db_scheme \<Rightarrow> 'r vm_db_scheme" where
  "run_vm [] s = s"
| "run_vm (c # cs) s = run_vm cs (snd (exec_vm c s))"

text \<open>What each write may do to one row that was there before: \<open>row_step cmd v v'\<close>. The identity
  and the owner of a row never change.\<close>

definition valid_edge :: "string \<Rightarrow> string \<Rightarrow> bool" where
  "valid_edge a b \<longleftrightarrow> ValidateVMTransition a b = Inr ()"

definition status_step :: "vm_cmd \<Rightarrow> VM \<Rightarrow> VM \<Rightarrow> bool" where
  "status_step c v v' \<longleftrightarrow>
     (vm_Status v' = vm_Status v \<and> vm_DeletedAt v' = vm_DeletedAt v) \<or>
     (case c of
        VTransition i a b \<Rightarrow> active v \<and> active v' \<and> vm_Status v = a \<and> vm_Status v' = b \<and> valid_edge a b
      | VSoftDelete i \<Rightarrow> active v \<and> \<not> active v' \<and> vm_Status v' = VMStatusDeleted
      | VUpdateStatus i st \<Rightarrow> active v \<and> active v' \<and> vm_Status v' = st
      | VRestore i st \<Rightarrow> \<not> active v \<and> active v' \<and> vm_Status v' = st
      | _ \<Rightarrow> False)"

definition restores :: "vm_cmd \<Rightarrow> bool" where
  "restores c = (case c of VRestore _ _ \<Rightarrow> True | _ \<Rightarrow> False)"

definition row_step :: "vm_cmd \<Rightarrow> VM \<Rightarrow> VM \<Rightarrow> bool" where
  "row_step c v v' \<longleftrightarrow>
     vm_ID v' = vm_ID v \<and> vm_CustomerID v' = vm_CustomerID v \<and> vm_CreatedAt v' = vm_CreatedAt v \<and>
     status_step c v v' \<and> (\<not> active v \<and> \<not> restores c \<longrightarrow> v' = v)"

text \<open>A write changes the rows one by one by \<open>row_step\<close>, and only \<open>vm_Create\<close> adds a row.\<close>

definition vm_step :: "vm_cmd \<Rightarrow> VM list \<Rightarrow> VM list \<Rightarrow> bool" where
  "vm_step c rows rows' \<longleftrightarrow>
     list_all2 (row_step c) rows rows' \<or>
     (\<exists>vm vmid now. c = VCreate vm \<and> rows' = rows @ [new_row vmid now vm])"

lemma row_step_refl [simp]: "row_step c v v"
  by (simp add: row_step_def status_step_def)

lemma vm_step_refl [simp]: "vm_step c rows rows"
  by (simp add: vm_step_def list_all2_same)

text \<open>The contract of a write: the constraints hold, the rows moved by \<open>vm_step\<close>, and no other
  table changed.\<close>

definition vm_law :: "vm_cmd \<Rightarrow> 'r vm_db_scheme \<Rightarrow> 'r vm_db_scheme \<Rightarrow> bool" where
  "vm_law c s t \<longleftrightarrow>
     vms_ok t \<and> vm_step c (vms s) (vms t) \<and> tables t = tables (s\<lparr>vms := vms t\<rparr>)"

lemma tables_vms_same: "tables (s\<lparr>vms := vms s\<rparr>) = tables s"
  by simp

lemma vm_law_same:
  assumes "vms_ok s" "tables t = tables s"
  shows "vm_law c s t"
proof -
  have v: "vms t = vms s" "backend_required t = backend_required s"
    using vm_tables_eqD [OF assms(2)] by simp_all
  then have "tables t = tables (s\<lparr>vms := vms t\<rparr>)" using tables_vms_same [of s] assms(2) by simp
  with v show ?thesis using assms(1) by (simp add: vm_law_def vms_ok_def)
qed

lemma vm_law_written:
  assumes "tables t = tables (s\<lparr>vms := rows\<rparr>)" "vm_violation (backend_required s) rows = None"
    "vm_step c (vms s) rows"
  shows "vm_law c s t"
  using assms(2,3) vm_tables_eqD(1,2) [OF assms(1)] assms(1)
  by (simp add: vm_law_def vms_ok_def)

lemma require_affected_step:
  assumes "require_affected e (update_rows P f) s = (r, t)" "vms_ok s"
    and step: "\<And>v now. P v \<Longrightarrow> row_step c v (f now v)"
  shows "vm_law c s t"
  using assms(1)
proof (cases rule: require_affected_cases)
  case applied
  have "list_all2 (row_step c) (vms s) (updated P f (clock s) (vms s))"
    using step by (simp add: updated_def list_all2_map2 list_all2_same)
  then show ?thesis using vm_law_written [OF applied(3,4)] by (simp add: vm_step_def)
qed (use assms(2) vm_law_same in blast)+

lemma set_active_step:
  assumes "set_active i f s = (r, t)" "vms_ok s"
    and "\<And>v now. active v \<Longrightarrow> row_step c v ((f v)\<lparr>vm_UpdatedAt := now\<rparr>)"
  shows "vm_law c s t"
  using require_affected_step [OF assms(1) [unfolded set_active_def] assms(2)] assms(3) by blast

lemma vm_Create_step:
  assumes "vm_Create v s = (r, t)" "vms_ok s"
  shows "vm_law (VCreate v) s t"
proof -
  let ?f = "\<lambda>s. let row = new_row (gen_uuid s (next_id s)) (clock s) v
        in write_vms (vms s @ [row]) row (s\<lparr>next_id := Suc (next_id s)\<rparr>)"
  obtain r1 where a: "auto_stmt ?f s = (r1, t)"
    using assms(1) by (auto simp: vm_Create_def split: prod.splits sum.splits)
  have f: "vm_law (VCreate v) s t" if s1: "tables s1 = tables s" and run: "?f s1 = (r2, t)" for s1 r2
    using run unfolding Let_def
  proof (cases rule: write_vms_cases)
    case (violated e)
    then show ?thesis using s1 assms(2) by (intro vm_law_same) auto
  next
    case written
    with s1 vm_tables_eqD [OF s1] show ?thesis
      by (intro vm_law_written [of t "vms s @ [new_row (gen_uuid s1 (next_id s1)) (clock s) v]" s])
        (auto simp: vm_step_def)
  qed
  from a show ?thesis
  proof (cases rule: auto_stmt_cases)
    case 1
    then show ?thesis using assms(2) by (intro vm_law_same) auto
  qed (use f in blast)+
qed

lemmas row_step_defs = row_step_def status_step_def active_def restores_def

lemma exec_vm_law:
  assumes "vms_ok s" "exec_vm c s = (r, t)"
  shows "vm_law c s t"
proof (cases c)
  case (VCreate v)
  then obtain r1 where "vm_Create v s = (r1, t)"
    using assms(2) by (auto simp: db_simps split: prod.splits sum.splits)
  then show ?thesis using vm_Create_step assms(1) VCreate by blast
next
  case (VTransition i a b)
  show ?thesis
  proof (cases "ValidateVMTransition a b")
    case (Inl e)
    then have "t = s" using assms(2) VTransition by (simp add: TransitionStatus_def db_simps)
    then show ?thesis using vm_law_same [OF assms(1)] by blast
  next
    case (Inr u)
    then have run: "require_affected ErrConflict
         (update_rows (\<lambda>v. vm_ID v = i \<and> vm_Status v = a \<and> active v)
            (\<lambda>now v. v\<lparr>vm_Status := b, vm_UpdatedAt := now\<rparr>)) s = (r, t)"
      using assms(2) VTransition by (simp add: TransitionStatus_def bind_db_def lift_db_def)
    show ?thesis
      by (rule require_affected_step [OF run assms(1)])
        (use Inr VTransition in \<open>auto simp: row_step_defs valid_edge_def\<close>)
  qed
next
  case (VSoftDelete i)
  show ?thesis
    by (rule require_affected_step [OF assms(2) [unfolded VSoftDelete exec_vm.simps SoftDelete_def] assms(1)])
      (auto simp: VSoftDelete row_step_defs)
next
  case (VRestore i st)
  show ?thesis
    by (rule require_affected_step [OF assms(2) [unfolded VRestore exec_vm.simps RestoreSoftDelete_def] assms(1)])
      (auto simp: VRestore row_step_defs)
next
  case (VResetBandwidth i)
  show ?thesis
    by (rule require_affected_step [OF assms(2) [unfolded VResetBandwidth exec_vm.simps ResetBandwidth_def] assms(1)])
      (auto simp: VResetBandwidth row_step_defs)
next
  case (VUpdateStatus i st)
  show ?thesis
    by (rule set_active_step [OF assms(2) [unfolded VUpdateStatus exec_vm.simps vm_UpdateStatus_def] assms(1)])
      (auto simp: VUpdateStatus row_step_defs)
qed (rule set_active_step [OF _ assms(1)],
     use assms(2) in \<open>simp add: UpdateNodeAssignment_def UpdateResources_def UpdateBandwidthUsed_def
        UpdateTemplateID_def UpdateMACAddress_def UpdatePassword_def UpdateHostname_def
        UpdateNetworkLimits_def UpdateAttachedISO_def UpdatePlanID_def\<close>,
     simp add: row_step_defs)+

section \<open>The life of one row\<close>

text \<open>The rows before a write keep their places; the row at a place moves by \<open>row_step\<close>.\<close>

lemma vm_step_nth:
  assumes "vm_step c rows rows'" "i < length rows"
  shows "length rows \<le> length rows' \<and> row_step c (rows ! i) (rows' ! i)"
  using assms by (auto simp: vm_step_def list_all2_conv_all_nth nth_append)

text \<open>\<open>life restoring v v'\<close>: what a row may become. Without the unguarded writes, an active row
  moves along the state machine until it is deleted, and a deleted row is never touched.\<close>

definition guarded :: "vm_cmd \<Rightarrow> bool" where
  "guarded c = (case c of VUpdateStatus _ _ \<Rightarrow> False | VRestore _ _ \<Rightarrow> False | _ \<Rightarrow> True)"

definition life :: "VM \<Rightarrow> VM \<Rightarrow> bool" where
  "life v v' \<longleftrightarrow>
     (if active v then (if active v' then valid_edge\<^sup>*\<^sup>* (vm_Status v) (vm_Status v')
                        else vm_Status v' = VMStatusDeleted)
      else v' = v)"

lemma life_refl [simp]: "life v v"
  by (simp add: life_def)

lemma life_step:
  assumes "life u v" "row_step c v w" "guarded c"
  shows "life u w"
proof (cases "active v")
  case True
  from assms(2,3) True have "(vm_Status w = vm_Status v \<and> active w) \<or>
      (active w \<and> valid_edge (vm_Status v) (vm_Status w)) \<or> (\<not> active w \<and> vm_Status w = VMStatusDeleted)"
    by (auto simp: row_step_def status_step_def guarded_def active_def split: vm_cmd.splits)
  with True assms(1) show ?thesis
    by (auto simp: life_def split: if_splits intro: rtranclp.rtrancl_into_rtrancl)
next
  case False
  with assms(2,3) have "w = v" by (auto simp: row_step_def guarded_def restores_def split: vm_cmd.splits)
  with assms(1) show ?thesis by simp
qed

lemma run_vm_rows:
  assumes "vms_ok s"
  shows "vms_ok (run_vm cs s) \<and> tables (run_vm cs s) = tables (s\<lparr>vms := vms (run_vm cs s)\<rparr>) \<and>
    length (vms s) \<le> length (vms (run_vm cs s)) \<and>
    (\<forall>i<length (vms s).
       vm_ID (vms (run_vm cs s) ! i) = vm_ID (vms s ! i) \<and>
       vm_CustomerID (vms (run_vm cs s) ! i) = vm_CustomerID (vms s ! i) \<and>
       (list_all guarded cs \<longrightarrow> life (vms s ! i) (vms (run_vm cs s) ! i)))"
  using assms
proof (induction cs rule: rev_induct)
  case Nil
  then show ?case using tables_vms_same [of s] by simp
next
  case (snoc c cs)
  have run: "run_vm (cs @ [c]) s = snd (exec_vm c (run_vm cs s))" for cs and s :: "'a vm_db_scheme"
    by (induction cs arbitrary: s) auto
  let ?u = "run_vm cs s" and ?t = "run_vm (cs @ [c]) s"
  from snoc.IH [OF snoc.prems] have u: "vms_ok ?u" "tables ?u = tables (s\<lparr>vms := vms ?u\<rparr>)"
    "length (vms s) \<le> length (vms ?u)" by blast+
  obtain r where "exec_vm c ?u = (r, ?t)" using run [of cs s] by (metis prod.collapse)
  from exec_vm_law [OF u(1) this] have law: "vms_ok ?t" "vm_step c (vms ?u) (vms ?t)"
    "tables ?t = tables (?u\<lparr>vms := vms ?t\<rparr>)" by (simp_all add: vm_law_def)
  have tab: "tables ?t = tables (s\<lparr>vms := vms ?t\<rparr>)"
    using law(3) u(2) by (simp add: tables_vms_update [symmetric] del: tables_vms_update)
      (simp add: tables_vms_update)
  have len: "length (vms ?u) \<le> length (vms ?t)"
    using law(2) by (auto simp: vm_step_def list_all2_lengthD)
  have "vm_ID (vms ?t ! i) = vm_ID (vms s ! i) \<and> vm_CustomerID (vms ?t ! i) = vm_CustomerID (vms s ! i) \<and>
      (list_all guarded (cs @ [c]) \<longrightarrow> life (vms s ! i) (vms ?t ! i))" if i: "i < length (vms s)" for i
  proof -
    have st: "row_step c (vms ?u ! i) (vms ?t ! i)"
      using vm_step_nth [OF law(2)] i u(3) by auto
    with snoc.IH [OF snoc.prems] i show ?thesis
      using life_step [OF _ st] by (auto simp: row_step_def)
  qed
  with law(1) tab len u(3) show ?case by auto
qed

section \<open>Changes of status\<close>

lemma vm_statuses_closed:
  assumes "valid_edge a b"
  shows "b \<in> set vm_statuses \<and> a \<noteq> b"
proof -
  from assms obtain bs where bs: "map_of ValidVMTransitions a = Some bs" "b \<in> set bs"
    by (auto simp: valid_edge_def ValidateVMTransition_def split: option.splits if_splits)
  have "\<forall>(a, bs) \<in> set ValidVMTransitions. \<forall>b \<in> set bs. b \<in> set vm_statuses \<and> a \<noteq> b"
    by code_simp
  with map_of_SomeD [OF bs(1)] bs(2) show ?thesis by fastforce
qed

lemma valid_edge_deleted: "\<not> valid_edge VMStatusDeleted b"
proof -
  have "map_of ValidVMTransitions VMStatusDeleted = None" by code_simp
  then show ?thesis by (simp add: valid_edge_def ValidateVMTransition_def)
qed

lemma vm_violation_None:
  "vm_violation req rows = None \<longleftrightarrow>
     (req \<longrightarrow> (\<forall>v\<in>set rows. vm_StorageBackendID v \<noteq> None)) \<and>
     (\<forall>v\<in>set rows. vm_Status v \<in> set vm_statuses) \<and> distinct (map vm_ID rows) \<and>
     distinct (map vm_MACAddress rows) \<and> distinct (map vm_Hostname (filter active rows)) \<and>
     distinct (active_services rows)"
  by (auto simp: vm_violation_def)

text \<open>An update that leaves the constrained columns alone keeps the constraints.\<close>

lemma vm_violation_map:
  assumes "vm_violation req rows = None"
    and "\<And>v. v \<in> set rows \<Longrightarrow> vm_ID (g v) = vm_ID v \<and> vm_MACAddress (g v) = vm_MACAddress v \<and>
      vm_Hostname (g v) = vm_Hostname v \<and> vm_DeletedAt (g v) = vm_DeletedAt v \<and>
      vm_ExternalServiceID (g v) = vm_ExternalServiceID v \<and>
      vm_StorageBackendID (g v) = vm_StorageBackendID v \<and> vm_Status (g v) \<in> set vm_statuses"
  shows "vm_violation req (map g rows) = None"
proof -
  have act: "filter active (map g rows) = map g (filter active rows)"
    using assms(2) by (simp add: filter_map active_def o_def cong: filter_cong)
  have cols: "map vm_ID (map g rows) = map vm_ID rows"
    "map vm_MACAddress (map g rows) = map vm_MACAddress rows"
    "map vm_Hostname (filter active (map g rows)) = map vm_Hostname (filter active rows)"
    using assms(2) unfolding act by auto
  have svc: "active_services (map g rows) = active_services rows"
    unfolding active_services_def act
    using assms(2) by (induction rows) (auto simp: List.map_filter_simps active_def split: option.splits)
  show ?thesis
    using assms unfolding vm_violation_None cols svc by auto
qed

lemma TransitionStatus_applied:
  fixes s :: "'r vm_db_scheme"
  assumes "vms_ok s" "faults s = []" "valid_edge a b" "v \<in> set (vms s)" "vm_ID v = i" "active v" "vm_Status v = a"
  shows "TransitionStatus i a b s =
    (Inr (), s\<lparr>vms := updated (\<lambda>v. vm_ID v = i \<and> vm_Status v = a \<and> active v)
                        (\<lambda>now v. v\<lparr>vm_Status := b, vm_UpdatedAt := now\<rparr>) (clock s) (vms s)\<rparr>)"
proof -
  let ?P = "\<lambda>v. vm_ID v = i \<and> vm_Status v = a \<and> active v"
  let ?f = "\<lambda>now v. v\<lparr>vm_Status := b, vm_UpdatedAt := now\<rparr>"
  have "\<forall>v\<in>set (vms s). vm_Status v \<in> set vm_statuses"
    using assms(1) by (simp add: vms_ok_def vm_violation_def split: if_splits)
  then have "vm_violation (backend_required s) (updated ?P ?f (clock s) (vms s)) = None"
    unfolding updated_def using assms(1,3) vm_statuses_closed
    by (intro vm_violation_map) (auto simp: vms_ok_def)
  moreover have "filter ?P (vms s) \<noteq> []" using assms(4-) by (auto simp: filter_empty_conv)
  ultimately have "require_affected ErrConflict (update_rows ?P ?f) s
      = (Inr (), s\<lparr>vms := updated ?P ?f (clock s) (vms s)\<rparr>)"
    using updated_require_affected [OF assms(2)] by blast
  with assms(3) show ?thesis
    by (simp add: TransitionStatus_def valid_edge_def bind_db_def lift_db_def)
qed

lemma vms_ok_distinct: "vms_ok s \<Longrightarrow> distinct (map vm_ID (vms s))"
  by (simp add: vms_ok_def vm_violation_def split: if_splits)

lemma vms_ok_unique:
  assumes "vms_ok s" "v \<in> set (vms s)" "w \<in> set (vms s)" "vm_ID v = vm_ID w"
  shows "v = w"
  using vms_ok_distinct [OF assms(1)] assms(2-) by (auto simp: distinct_map inj_on_def)

text \<open>\<open>held i a s\<close>: the active VM \<open>i\<close> is in status \<open>a\<close>.\<close>

definition held :: "string \<Rightarrow> string \<Rightarrow> 'r vm_db_scheme \<Rightarrow> bool" where
  "held i a s \<longleftrightarrow> (\<exists>v\<in>set (vms s). vm_ID v = i \<and> active v \<and> vm_Status v = a)"

lemma TransitionStatus_held:
  fixes s :: "'r vm_db_scheme"
  assumes "vms_ok s" "TransitionStatus i a b s = (r, t)"
  shows "vms_ok t \<and> (r = Inr () \<longrightarrow> held i a s \<and> valid_edge a b \<and> \<not> held i a t \<and> held i b t) \<and>
    (held i a t \<longrightarrow> held i a s)"
proof (cases "valid_edge a b")
  case False
  then have "ValidateVMTransition a b \<noteq> Inr ()" by (simp add: valid_edge_def)
  then obtain e where "ValidateVMTransition a b = Inl e" by (cases "ValidateVMTransition a b") auto
  then have "r = Inl e" "t = s" using assms(2) by (auto simp: TransitionStatus_def bind_db_def lift_db_def)
  then show ?thesis using assms(1) by simp
next
  case True
  let ?P = "\<lambda>v. vm_ID v = i \<and> vm_Status v = a \<and> active v"
  let ?f = "\<lambda>now v. v\<lparr>vm_Status := b, vm_UpdatedAt := now\<rparr>"
  have ok: "vms_ok t"
    using exec_vm_law [OF assms(1), of "VTransition i a b"] assms(2) by (simp add: vm_law_def)
  have run: "require_affected ErrConflict (update_rows ?P ?f) s = (r, t)"
    using assms(2) True by (simp add: TransitionStatus_def bind_db_def lift_db_def valid_edge_def)
  from run show ?thesis
  proof (cases rule: require_affected_cases)
    case (refused e')
    then show ?thesis using ok vm_tables_eqD(1) [OF refused(2)] by (auto simp: held_def)
  next
    case none
    then show ?thesis using ok vm_tables_eqD(1) [OF none(3)] by (auto simp: held_def)
  next
    case applied
    from applied(2) obtain v where v: "v \<in> set (vms s)" "?P v" by (auto simp: filter_empty_conv)
    have t: "vms t = updated ?P ?f (clock s) (vms s)" using vm_tables_eqD(1) [OF applied(3)] by simp
    have "?f (clock s) v \<in> set (vms t)" using v unfolding t updated_def by (auto intro!: image_eqI)
    then have "held i b t" using v(2) unfolding held_def by (intro bexI) (auto simp: active_def)
    moreover have "\<not> held i a t"
      using vm_statuses_closed [OF True] vms_ok_unique [OF assms(1) v(1)] v(2)
      unfolding held_def t updated_def by (auto split: if_splits)
    ultimately show ?thesis using ok v True by (auto simp: held_def)
  qed
qed

section \<open>Listing\<close>

lemma scanVM_ID [simp]: "vm_ID (scanVM v) = vm_ID v"
  by (simp add: scanVM_def)

lemma vm_List_page:
  fixes s :: "'r vm_db_scheme"
  assumes "faults s = []"
  shows "vm_List (filt\<lparr>vf_LastID := cur\<rparr>) s =
    (Inr (keyset_page vm_ID (map scanVM (filter (vm_list_where filt) (vms s))) (vf_PerPage filt) cur), s)"
proof -
  let ?rows = "filter (vm_list_where filt) (vms s)"
  have w: "vm_list_where (filt\<lparr>vf_LastID := cur\<rparr>) = vm_list_where filt"
    by (simp add: vm_list_where_def fun_eq_iff)
  have sort: "id_desc vm_ID (map scanVM xs) = map scanVM (id_desc vm_ID xs)" for xs
    by (simp add: id_desc_def sort_key_map rev_map o_def)
  have "filter (\<lambda>v. cur \<noteq> '''' \<longrightarrow> vm_ID v < cur) (map scanVM ?rows)
      = map scanVM (filter (\<lambda>v. cur \<noteq> '''' \<longrightarrow> vm_ID v < cur) ?rows)"
    by (simp add: filter_map o_def)
  then show ?thesis
    using assms
    by (simp add: vm_List_def select_vms_def db_simps w keyset_page_def sort take_map
        cursorPageLimit_def TrimResults_def nat_add_distrib)
qed

section \<open>Competing transitions\<close>

text \<open>Callers that all read status \<open>a\<close> and ask for different targets; the statements reach the
  database in some order.\<close>

fun race :: "string \<Rightarrow> string \<Rightarrow> string list \<Rightarrow> 'r vm_db_scheme \<Rightarrow> (error + unit) list \<times> 'r vm_db_scheme" where
  "race i a [] s = ([], s)"
| "race i a (b # bs) s =
     (case TransitionStatus i a b s of (r, s1) \<Rightarrow>
      case race i a bs s1 of (rs, s2) \<Rightarrow> (r # rs, s2))"

lemma race_lost:
  assumes "vms_ok s" "\<not> held i a s"
  shows "Inr () \<notin> set (fst (race i a bs s))"
  using assms
proof (induction bs arbitrary: s)
  case (Cons b bs)
  obtain r s1 where 1: "TransitionStatus i a b s = (r, s1)" by (cases "TransitionStatus i a b s")
  from TransitionStatus_held [OF Cons.prems(1) 1] Cons.prems(2)
  have "vms_ok s1" "\<not> held i a s1" "r \<noteq> Inr ()" by auto
  with Cons.IH [of s1] 1 show ?case by (auto split: prod.splits)
qed simp

lemma race_one:
  assumes "vms_ok s"
  shows "length (filter (\<lambda>r. r = Inr ()) (fst (race i a bs s))) \<le> 1"
  using assms
proof (induction bs arbitrary: s)
  case (Cons b bs)
  obtain r s1 where 1: "TransitionStatus i a b s = (r, s1)" by (cases "TransitionStatus i a b s")
  note t = TransitionStatus_held [OF Cons.prems(1) 1]
  obtain rs s2 where 2: "race i a bs s1 = (rs, s2)" by (cases "race i a bs s1")
  show ?case
  proof (cases "r = Inr ()")
    case True
    with t have "Inr () \<notin> set rs" using race_lost [of s1 i a bs] 2 by auto
    then have "filter (\<lambda>r. r = Inr ()) rs = []" by (auto simp: filter_empty_conv)
    with 1 2 show ?thesis by simp
  next
    case False
    with Cons.IH [of s1] t 1 2 show ?thesis by simp
  qed
qed simp

text \<open>Without faults a lost race is reported as a conflict.\<close>

lemma TransitionStatus_conflict:
  assumes "faults s = []" "vms_ok s" "\<not> held i a s"
  shows "TransitionStatus i a b s = (Inl ErrConflict, s)"
proof (cases "ValidateVMTransition a b")
  case (Inl e)
  then have "e = ErrConflict"
    by (auto simp: ValidateVMTransition_def split: option.splits if_splits)
  with Inl show ?thesis by (simp add: TransitionStatus_def bind_db_def lift_db_def)
next
  case (Inr u)
  let ?P = "\<lambda>v. vm_ID v = i \<and> vm_Status v = a \<and> active v"
  have none: "\<forall>v\<in>set (vms s). \<not> ?P v" using assms(3) by (auto simp: held_def)
  then have "filter ?P (vms s) = []" by (auto simp: filter_empty_conv)
  moreover have "map (\<lambda>v. if ?P v then f v else v) (vms s) = vms s" for f
    by (rule map_idI) (use none in auto)
  ultimately show ?thesis using Inr assms(1,2)
    by (simp add: TransitionStatus_def require_affected_def update_rows_def write_vms_def
        vms_ok_def db_simps)
qed

lemma race_conflicts:
  assumes "faults s = []" "vms_ok s" "\<not> held i a s"
  shows "race i a bs s = (replicate (length bs) (Inl ErrConflict), s)"
  using assms by (induction bs) (simp_all add: TransitionStatus_conflict)

section \<open>Paths to deletion\<close>

definition exit_path :: "string \<Rightarrow> string list" where
  "exit_path st =
     (if st = VMStatusDeleting then [VMStatusDeleted]
      else if st = VMStatusRunning \<or> st = VMStatusStopped \<or> st = VMStatusSuspended \<or> st = VMStatusError
      then [VMStatusDeleting, VMStatusDeleted]
      else [VMStatusError, VMStatusDeleting, VMStatusDeleted])"

fun path_ok :: "string \<Rightarrow> string list \<Rightarrow> bool" where
  "path_ok a [] = (a = VMStatusDeleted)"
| "path_ok a (b # bs) = (ValidateVMTransition a b = Inr () \<and> path_ok b bs)"

lemma exit_path_ok: "st \<in> set vm_statuses \<Longrightarrow> st \<noteq> VMStatusDeleted \<Longrightarrow> path_ok st (exit_path st)"
proof -
  have "\<forall>st\<in>set vm_statuses. st = VMStatusDeleted \<or> path_ok st (exit_path st)" by code_simp
  then show "st \<in> set vm_statuses \<Longrightarrow> st \<noteq> VMStatusDeleted \<Longrightarrow> path_ok st (exit_path st)" by blast
qed

fun walk :: "string \<Rightarrow> string \<Rightarrow> string list \<Rightarrow> ('r vm_db_scheme, unit) db_op" where
  "walk i a [] = return_db ()"
| "walk i a (b # bs) = bind_db (TransitionStatus i a b) (\<lambda>_. walk i b bs)"

lemma walk_succeeds:
  fixes s :: "'r vm_db_scheme"
  assumes "path_ok a bs" "vms_ok s" "faults s = []" "held i a s"
  shows "\<exists>t. walk i a bs s = (Inr (), t) \<and> held i VMStatusDeleted t"
  using assms
proof (induction bs arbitrary: a s)
  case Nil
  then show ?case by (simp add: return_db_def)
next
  case (Cons b bs)
  from Cons.prems(4) obtain v where v: "v \<in> set (vms s)" "vm_ID v = i" "active v" "vm_Status v = a"
    by (auto simp: held_def)
  have e: "valid_edge a b" using Cons.prems(1) by (simp add: valid_edge_def)
  obtain t where t: "TransitionStatus i a b s = (Inr (), t)" "faults t = []"
    using TransitionStatus_applied [OF Cons.prems(2,3) e v] Cons.prems(3) by simp
  from TransitionStatus_held [OF Cons.prems(2) t(1)] have "vms_ok t" "held i b t" by auto
  with Cons.IH [of b t] Cons.prems(1) t show ?case by (simp add: bind_db_def)
qed

section \<open>Properties\<close>

definition ex_vm :: "string \<Rightarrow> string \<Rightarrow> string \<Rightarrow> VM" where
  "ex_vm i c st =
     \<lparr>vm_ID = i, vm_CustomerID = c, vm_NodeID = Some ''n1'', vm_PlanID = ''p1'',
      vm_Hostname = ''host-'' @ i, vm_Status = st, vm_VCPU = 1, vm_MemoryMB = 1024, vm_DiskGB = 10,
      vm_PortSpeedMbps = 100, vm_BandwidthLimitGB = 0, vm_BandwidthUsedBytes = 0,
      vm_BandwidthResetAt = 0, vm_MACAddress = ''mac-'' @ i, vm_TemplateID = None,
      vm_LibvirtDomainName = None, vm_RootPasswordEncrypted = None, vm_ExternalServiceID = None,
      vm_StorageBackend = ''ceph'', vm_DiskPath = None, vm_CephPool = None, vm_RBDImage = None,
      vm_StorageBackendID = Some ''b1'', vm_AttachedISO = None, vm_CreatedAt = 0, vm_UpdatedAt = 0,
      vm_DeletedAt = None\<rparr>"

definition ex_vm_db :: "fault list \<Rightarrow> VM list \<Rightarrow> vm_db" where
  "ex_vm_db fs rows =
     \<lparr>faults = fs, next_id = 0, gen_uuid = (\<lambda>n. replicate n (CHR ''a'')), clock = 7,
      balances = [''c1'' \<mapsto> 0], ledger = [],
      vms = rows, backend_required = True, billing_providers = [''c1'' \<mapsto> ''native'']\<rparr>"



text \<open>C17. As long as no caller uses the deprecated unconditional status write or restores a deleted
  VM, the status of a VM moves only along the transitions of the state machine: an active VM that
  is still active has followed valid transitions, one that is not active any more is in status
  deleted, and a deleted VM is never modified again.\<close>

theorem vm_lifecycle:
  assumes "vms_ok s" and "list_all guarded cmds" and "v \<in> set (vms s)"
    and "v' \<in> set (vms (run_vm cmds s))" and "vm_ID v' = vm_ID v"
  shows "if active v then (if active v' then valid_edge\<^sup>*\<^sup>* (vm_Status v) (vm_Status v')
                          else vm_Status v' = VMStatusDeleted)
         else v' = v"
proof -
  note r = run_vm_rows [OF assms(1), of cmds]
  obtain i where i: "i < length (vms s)" "v = vms s ! i" using assms(3) by (auto simp: in_set_conv_nth)
  with r assms(2) have l: "life v (vms (run_vm cmds s) ! i)"
    and eq: "vm_ID (vms (run_vm cmds s) ! i) = vm_ID v" and len: "i < length (vms (run_vm cmds s))" by auto
  have "v' = vms (run_vm cmds s) ! i"
    using vms_ok_unique [of "run_vm cmds s"] r assms(4,5) eq len by auto
  with l show ?thesis by (simp add: life_def)
qed

theorem vm_lifecycle_witness:
  "valid_edge\<^sup>*\<^sup>* ''provisioning'' ''stopped'' \<and>
   map vm_Status (vms (run_vm [VTransition ''v1'' ''provisioning'' ''running'', VTransition ''v1'' ''provisioning'' ''stopped'',
       VTransition ''v1'' ''running'' ''stopped''] (ex_vm_db [] [ex_vm ''v1'' ''c1'' ''provisioning'']))) = [''stopped'']"
proof
  let ?s = "ex_vm_db [] [ex_vm ''v1'' ''c1'' ''provisioning'']"
  let ?cs = "[VTransition ''v1'' ''provisioning'' ''running'', VTransition ''v1'' ''provisioning'' ''stopped'',
       VTransition ''v1'' ''running'' ''stopped'']"
  let ?v = "ex_vm ''v1'' ''c1'' ''provisioning''" and ?v' = "hd (vms (run_vm ?cs ?s))"
  show "map vm_Status (vms (run_vm ?cs ?s)) = [''stopped'']" by code_simp
  have "vms_ok ?s" "list_all guarded ?cs" "?v \<in> set (vms ?s)" "?v' \<in> set (vms (run_vm ?cs ?s))"
    "vm_ID ?v' = vm_ID ?v" by code_simp+
  from vm_lifecycle [OF this] have "if active ?v then (if active ?v' then valid_edge\<^sup>*\<^sup>* (vm_Status ?v) (vm_Status ?v')
                          else vm_Status ?v' = VMStatusDeleted) else ?v' = ?v" .
  moreover have "active ?v" "active ?v'" "vm_Status ?v = ''provisioning''" "vm_Status ?v' = ''stopped''"
    by code_simp+
  ultimately show "valid_edge\<^sup>*\<^sup>* ''provisioning'' ''stopped''" by simp
qed

text \<open>C18. Of any number of callers that read the same status and ask for transitions out of it, at
  most one is told it succeeded, whatever the connection does; without faults, if the first one
  asks for a valid transition it wins and every other one gets a conflict.\<close>

theorem transition_exclusive:
  assumes "vms_ok s"
  shows "length (filter (\<lambda>r. r = Inr ()) (fst (race i a bs s))) \<le> 1 \<and>
    (faults s = [] \<and> held i a s \<and> valid_edge a b \<longrightarrow>
       fst (race i a (b # bs) s) = Inr () # replicate (length bs) (Inl ErrConflict))"
proof (intro conjI impI)
  show "length (filter (\<lambda>r. r = Inr ()) (fst (race i a bs s))) \<le> 1" by (rule race_one [OF assms])
  assume h: "faults s = [] \<and> held i a s \<and> valid_edge a b"
  then obtain v where v: "v \<in> set (vms s)" "vm_ID v = i" "active v" "vm_Status v = a"
    by (auto simp: held_def)
  obtain t where t: "TransitionStatus i a b s = (Inr (), t)" "faults t = []"
    using TransitionStatus_applied [OF assms _ _ v] h by simp
  from TransitionStatus_held [OF assms t(1)] have "vms_ok t" "\<not> held i a t" by auto
  with race_conflicts [OF t(2)] t(1)
  show "fst (race i a (b # bs) s) = Inr () # replicate (length bs) (Inl ErrConflict)" by simp
qed

theorem transition_exclusive_witness:
  "fst (race ''v1'' ''running'' [''migrating'', ''deleting'', ''stopped'']
     (ex_vm_db [] [ex_vm ''v1'' ''c1'' ''running''])) = [Inr (), Inl ErrConflict, Inl ErrConflict]"
proof -
  have "vms_ok (ex_vm_db [] [ex_vm ''v1'' ''c1'' ''running''])"
    "faults (ex_vm_db [] [ex_vm ''v1'' ''c1'' ''running'']) = []"
    "held ''v1'' ''running'' (ex_vm_db [] [ex_vm ''v1'' ''c1'' ''running''])"
    "valid_edge ''running'' ''migrating''" by code_simp+
  then show ?thesis
    using transition_exclusive [of "ex_vm_db [] [ex_vm ''v1'' ''c1'' ''running'']" "''v1''" "''running''"
        "[''deleting'', ''stopped'']" "''migrating''"] by (simp add: numeral_2_eq_2)
qed

text \<open>No VM is stuck: an active VM in any status but deleted reaches deleted by transitions the
  repository accepts, and deleted is final.\<close>

theorem vm_not_stuck:
  assumes "vms_ok s" and "faults s = []" and "v \<in> set (vms s)" and "active v"
    and "vm_Status v \<noteq> VMStatusDeleted"
  shows "(\<exists>t. walk (vm_ID v) (vm_Status v) (exit_path (vm_Status v)) s = (Inr (), t) \<and>
      held (vm_ID v) VMStatusDeleted t) \<and>
    (\<forall>b. ValidateVMTransition VMStatusDeleted b = Inl ErrConflict)"
proof
  have "vm_Status v \<in> set vm_statuses" using assms(1,3) by (auto simp: vms_ok_def vm_violation_None)
  with assms show "\<exists>t. walk (vm_ID v) (vm_Status v) (exit_path (vm_Status v)) s = (Inr (), t) \<and>
      held (vm_ID v) VMStatusDeleted t"
    by (intro walk_succeeds exit_path_ok) (auto simp: held_def)
  have "map_of ValidVMTransitions VMStatusDeleted = None" by code_simp
  then show "\<forall>b. ValidateVMTransition VMStatusDeleted b = Inl ErrConflict"
    by (simp add: ValidateVMTransition_def)
qed

theorem vm_not_stuck_witness:
  "\<exists>t. walk ''v1'' ''migrating'' [''error'', ''deleting'', ''deleted'']
      (ex_vm_db [] [ex_vm ''v1'' ''c1'' ''migrating'']) = (Inr (), t) \<and> held ''v1'' ''deleted'' t"
proof -
  let ?v = "ex_vm ''v1'' ''c1'' ''migrating''"
  have "vms_ok (ex_vm_db [] [?v])" "faults (ex_vm_db [] [?v]) = []" "?v \<in> set (vms (ex_vm_db [] [?v]))"
    "active ?v" "vm_Status ?v \<noteq> VMStatusDeleted" by code_simp+
  note p = vm_not_stuck [OF this]
  have "vm_ID ?v = ''v1''" "vm_Status ?v = ''migrating''" "VMStatusDeleted = ''deleted''"
    "exit_path (vm_Status ?v) = [''error'', ''deleting'', ''deleted'']" by code_simp+
  with p show ?thesis by simp
qed

text \<open>C20. A client that follows the cursors of the VM listing sees every VM that matches its filter
  exactly once, newest id first, and never needs more pages than there are rows plus one.\<close>

theorem vm_list_complete:
  fixes s :: "'r vm_db_scheme"
  assumes "vms_ok s" and "faults s = []" and "0 < vf_PerPage filt" and "\<forall>v\<in>set (vms s). vm_ID v \<noteq> ''''"
    and page: "\<And>cur. vm_List (filt\<lparr>vf_LastID := cur\<rparr>) s = (Inr (pg cur), s)"
  shows "follow_cursors pg (Suc (length (vms s))) '''' =
    Some (id_desc vm_ID (map scanVM (filter (vm_list_where filt) (vms s))))"
proof -
  let ?rows = "map scanVM (filter (vm_list_where filt) (vms s))"
  have "pg = keyset_page vm_ID ?rows (vf_PerPage filt)"
    using page vm_List_page [OF assms(2), where filt = filt] by (auto simp: fun_eq_iff)
  moreover have "distinct (map vm_ID ?rows)"
    using vms_ok_distinct [OF assms(1)] by (simp add: o_def distinct_map_filter)
  moreover have "length ?rows < Suc (length (vms s))" by (simp add: less_Suc_eq_le)
  moreover have "\<forall>v\<in>set ?rows. vm_ID v \<noteq> ''''" using assms(4) by auto
  ultimately show ?thesis using follow_cursors_all [OF _ _ assms(3)] by blast
qed

theorem vm_list_complete_witness:
  "follow_cursors (\<lambda>cur. projr (fst (vm_ListByCustomer ''c1'' 1 cur
      (ex_vm_db [] [ex_vm ''v1'' ''c1'' ''running'', ex_vm ''v2'' ''c2'' ''running'', ex_vm ''v3'' ''c1'' ''stopped'']))))
     4 '''' = Some (map scanVM [ex_vm ''v3'' ''c1'' ''stopped'', ex_vm ''v1'' ''c1'' ''running''])"
proof -
  let ?s = "ex_vm_db [] [ex_vm ''v1'' ''c1'' ''running'', ex_vm ''v2'' ''c2'' ''running'', ex_vm ''v3'' ''c1'' ''stopped'']"
  let ?f = "\<lparr>vf_CustomerID = Some ''c1'', vf_NodeID = None, vf_Status = None, vf_Search = None,
             vf_VMIDs = [], vf_PerPage = 1, vf_LastID = ''''\<rparr>"
  let ?pg = "\<lambda>cur. projr (fst (vm_ListByCustomer ''c1'' 1 cur ?s))"
  have h: "vms_ok ?s" "faults ?s = []" "0 < vf_PerPage ?f" "\<forall>v\<in>set (vms ?s). vm_ID v \<noteq> ''''"
    by code_simp+
  have "vm_List (?f\<lparr>vf_LastID := cur\<rparr>) ?s = (Inr (?pg cur), ?s)" for cur
    using vm_List_page [OF h(2), of cur ?f] by (simp add: vm_ListByCustomer_def)
  from vm_list_complete [OF h this]
  have "follow_cursors ?pg (Suc (length (vms ?s))) '''' =
    Some (id_desc vm_ID (map scanVM (filter (vm_list_where ?f) (vms ?s))))" .
  moreover have "Suc (length (vms ?s)) = 4"
    "id_desc vm_ID (map scanVM (filter (vm_list_where ?f) (vms ?s)))
      = map scanVM [ex_vm ''v3'' ''c1'' ''stopped'', ex_vm ''v1'' ''c1'' ''running'']" by code_simp+
  ultimately show ?thesis by simp
qed

text \<open>C21. Once migration 57 has made \<^verbatim>\<open>storage_backend_id\<close> NOT NULL, no VM can be created: the
  INSERT of \<open>Create\<close> does not name that column, so it is refused and changes nothing.\<close>

theorem vm_create_refused:
  fixes s :: "'r vm_db_scheme"
  assumes "backend_required s"
  shows "\<exists>e t. vm_Create vm s = (Inl e, t) \<and> tables t = tables s"
proof -
  have v: "vm_violation True (rows @ [new_row i now vm]) = Some ErrDB" for rows i now
    by (simp add: vm_violation_def new_row_def)
  show ?thesis
    using assms
    by (cases "next_fault s")
      (simp_all add: vm_Create_def auto_stmt_def write_vms_def v pop_fault_def tables_def)
qed

theorem vm_create_refused_witness:
  "backend_required (ex_vm_db [] []) \<and> vms (snd (vm_Create (ex_vm ''v1'' ''c1'' ''provisioning'') (ex_vm_db [] []))) = []"
proof
  show b: "backend_required (ex_vm_db [] [])" by code_simp
  have "vms (ex_vm_db [] []) = []" by code_simp
  then show "vms (snd (vm_Create (ex_vm ''v1'' ''c1'' ''provisioning'') (ex_vm_db [] []))) = []"
    using vm_create_refused [OF b, of "ex_vm ''v1'' ''c1'' ''provisioning''"] vm_tables_eqD(1) by force
qed

end
