(* ===== verification/Plans.thy ===== *)
theory Plans
  imports VM_Repo
begin

text \<open>
  Service plans: \<^verbatim>\<open>models/plan.go\<close>, \<^verbatim>\<open>repository/plan_repo.go\<close> and
  \<^verbatim>\<open>services/plan_service.go\<close>. The table \<^verbatim>\<open>plans\<close> has a unique slug and non-negative prices,
  and a foreign key of \<^verbatim>\<open>vms\<close> forbids deleting a plan that any VM row refers to, deleted rows
  included.
\<close>

section \<open>Data\<close>

record Plan =
  plan_ID :: string
  plan_Name :: string
  plan_Slug :: string
  plan_VCPU :: int
  plan_MemoryMB :: int
  plan_DiskGB :: int
  plan_BandwidthLimitGB :: int
  plan_PortSpeedMbps :: int
  plan_PriceMonthly :: "int64 option"
  plan_PriceHourly :: "int64 option"
  plan_PriceHourlyStopped :: "int64 option"
  plan_Currency :: string
  plan_StorageBackend :: string
  plan_IsActive :: bool
  plan_SortOrder :: int
  plan_SnapshotLimit :: int
  plan_BackupLimit :: int
  plan_ISOUploadLimit :: int
  plan_CreatedAt :: int
  plan_UpdatedAt :: int

definition EffectiveHourlyRate :: "Plan \<Rightarrow> string \<Rightarrow> int64" where
  "EffectiveHourlyRate p vmStatus =
     (case plan_PriceHourly p of
        None \<Rightarrow> 0
      | Some hourly \<Rightarrow>
          (case plan_PriceHourlyStopped p of
             Some stopped \<Rightarrow> if vmStatus = VMStatusStopped then stopped else hourly
           | None \<Rightarrow> hourly))"

definition DefaultStorageBackend :: string where
  "DefaultStorageBackend = ''ceph''"

record plan_db = vm_db +
  plans :: "Plan list"

section \<open>The repository\<close>

definition price_ok :: "int64 option \<Rightarrow> bool" where
  "price_ok p = (case p of None \<Rightarrow> True | Some a \<Rightarrow> 0 \<le> sint a)"

definition plan_violation :: "Plan list \<Rightarrow> error option" where
  "plan_violation rows =
     (if \<not> (\<forall>p\<in>set rows. price_ok (plan_PriceMonthly p) \<and> price_ok (plan_PriceHourly p)) then Some ErrDB
      else if \<not> (\<forall>p\<in>set rows. plan_StorageBackend p \<in> {''ceph'', ''qcow'', ''lvm''}) then Some ErrDB
      else if \<not> distinct (map plan_ID rows) then Some (ErrUniqueViolation ''plans_pkey'')
      else if \<not> distinct (map plan_Slug rows) then Some (ErrUniqueViolation ''plans_slug_key'')
      else None)"

definition write_plans :: "Plan list \<Rightarrow> 'a \<Rightarrow> ('r plan_db_scheme, 'a) db_op" where
  "write_plans rows x s =
     (case plan_violation rows of
        Some e \<Rightarrow> (Inl e, s)
      | None \<Rightarrow> (Inr x, s\<lparr>plans := rows\<rparr>))"

definition plan_Create :: "Plan \<Rightarrow> ('r plan_db_scheme, Plan) db_op" where
  "plan_Create plan =
     auto_stmt (\<lambda>s.
       let row = plan\<lparr>plan_ID := gen_uuid s (next_id s),
                      plan_Currency := (if plan_Currency plan = '''' then ''USD'' else plan_Currency plan),
                      plan_CreatedAt := clock s, plan_UpdatedAt := clock s\<rparr>
       in write_plans (plans s @ [row]) row (s\<lparr>next_id := Suc (next_id s)\<rparr>))"

definition select_plan :: "(Plan \<Rightarrow> bool) \<Rightarrow> ('r plan_db_scheme, Plan) db_op" where
  "select_plan P =
     auto_stmt (\<lambda>s. case find P (plans s) of
         None \<Rightarrow> (Inl ErrNotFound, s)
       | Some p \<Rightarrow> (Inr p, s))"

definition plan_GetByID :: "string \<Rightarrow> ('r plan_db_scheme, Plan) db_op" where
  "plan_GetByID pid = select_plan (\<lambda>p. plan_ID p = pid)"

definition plan_GetByName :: "string \<Rightarrow> ('r plan_db_scheme, Plan) db_op" where
  "plan_GetByName name = select_plan (\<lambda>p. plan_Name p = name)"

definition GetBySlug :: "string \<Rightarrow> ('r plan_db_scheme, Plan) db_op" where
  "GetBySlug slug = select_plan (\<lambda>p. plan_Slug p = slug)"

definition plan_List ::
  "bool option \<Rightarrow> nat \<Rightarrow> string \<Rightarrow> ('r plan_db_scheme, Plan list \<times> bool \<times> string) db_op" where
  "plan_List isActive perPage lastID =
     auto_stmt (\<lambda>s.
       (Inr (keyset_page plan_ID
          (filter (\<lambda>p. case isActive of None \<Rightarrow> True | Some b \<Rightarrow> plan_IsActive p = b) (plans s))
          perPage lastID), s))"

definition plan_ListActive :: "('r plan_db_scheme, Plan list) db_op" where
  "plan_ListActive =
     auto_stmt (\<lambda>s. (Inr (sort_key (\<lambda>p. (plan_SortOrder p, plan_Name p)) (filter plan_IsActive (plans s))), s))"

text \<open>The row \<open>Update\<close> writes: every column but the id and the creation time. A missing plan gives
  the driver's \<open>ErrNoRows\<close>, since the RETURNING row is scanned without translation.\<close>

definition plan_row :: "int \<Rightarrow> Plan \<Rightarrow> Plan \<Rightarrow> Plan" where
  "plan_row now plan old = plan\<lparr>plan_ID := plan_ID old, plan_CreatedAt := plan_CreatedAt old, plan_UpdatedAt := now\<rparr>"

definition plan_Update :: "Plan \<Rightarrow> ('r plan_db_scheme, Plan) db_op" where
  "plan_Update plan =
     auto_stmt (\<lambda>s.
       case find (\<lambda>p. plan_ID p = plan_ID plan) (plans s) of
         None \<Rightarrow> (Inl ErrNoRows, s)
       | Some old \<Rightarrow>
           write_plans (map (\<lambda>p. if plan_ID p = plan_ID plan then plan_row (clock s) plan p else p) (plans s))
             (plan_row (clock s) plan old) s)"

definition set_plan :: "string \<Rightarrow> (Plan \<Rightarrow> Plan) \<Rightarrow> ('r plan_db_scheme, unit) db_op" where
  "set_plan pid f =
     require_affected ErrNoRowsAffected
       (auto_stmt (\<lambda>s.
          write_plans (map (\<lambda>p. if plan_ID p = pid then (f p)\<lparr>plan_UpdatedAt := clock s\<rparr> else p) (plans s))
            (length (filter (\<lambda>p. plan_ID p = pid) (plans s))) s))"

definition UpdateActive :: "string \<Rightarrow> bool \<Rightarrow> ('r plan_db_scheme, unit) db_op" where
  "UpdateActive pid isActive = set_plan pid (plan_IsActive_update (\<lambda>_. isActive))"

definition UpdateSortOrder :: "string \<Rightarrow> int \<Rightarrow> ('r plan_db_scheme, unit) db_op" where
  "UpdateSortOrder pid sortOrder = set_plan pid (plan_SortOrder_update (\<lambda>_. sortOrder))"

definition plan_Delete :: "string \<Rightarrow> ('r plan_db_scheme, unit) db_op" where
  "plan_Delete pid =
     require_affected ErrNoRowsAffected
       (auto_stmt (\<lambda>s.
          if (\<exists>v\<in>set (vms s). vm_PlanID v = pid) \<and> (\<exists>p\<in>set (plans s). plan_ID p = pid)
          then (Inl ErrDB, s)
          else write_plans (filter (\<lambda>p. plan_ID p \<noteq> pid) (plans s))
                 (length (filter (\<lambda>p. plan_ID p = pid) (plans s))) s))"

definition CountVMsByPlan :: "string \<Rightarrow> ('r plan_db_scheme, nat) db_op" where
  "CountVMsByPlan planID = auto_stmt (\<lambda>s. (Inr (length (filter (\<lambda>v. vm_PlanID v = planID) (vms s))), s))"

section \<open>The service\<close>

definition default_limit :: "int \<Rightarrow> int" where
  "default_limit n = (if n \<le> 0 then 2 else n)"

text \<open>The request of \<open>Create\<close> has the fields of a plan but its id and times.\<close>

definition plan_of_request :: "Plan \<Rightarrow> Plan" where
  "plan_of_request req =
     req\<lparr>plan_Currency := (if plan_Currency req \<noteq> '''' then plan_Currency req else ''USD''),
         plan_SnapshotLimit := default_limit (plan_SnapshotLimit req),
         plan_BackupLimit := default_limit (plan_BackupLimit req),
         plan_ISOUploadLimit := default_limit (plan_ISOUploadLimit req),
         plan_StorageBackend := (if plan_StorageBackend req \<noteq> '''' then plan_StorageBackend req
                                 else DefaultStorageBackend)\<rparr>"

definition service_plan_Create :: "Plan \<Rightarrow> ('r plan_db_scheme, Plan) db_op" where
  "service_plan_Create req s =
     (case GetBySlug (plan_Slug req) s of
        (Inr existing, s1) \<Rightarrow> (Inl (ErrMsg ''plan with slug already exists''), s1)
      | (Inl e, s1) \<Rightarrow> plan_Create (plan_of_request req) s1)"

definition service_plan_Update :: "Plan \<Rightarrow> ('r plan_db_scheme, Plan) db_op" where
  "service_plan_Update plan =
     bind_db (plan_GetByID (plan_ID plan)) (\<lambda>existing s.
       if plan_Slug plan \<noteq> plan_Slug existing then
         (case GetBySlug (plan_Slug plan) s of
            (Inr conflict, s1) \<Rightarrow>
              if plan_ID conflict \<noteq> plan_ID plan then (Inl (ErrMsg ''plan with slug already exists''), s1)
              else plan_Update plan s1
          | (Inl e, s1) \<Rightarrow> plan_Update plan s1)
       else plan_Update plan s)"

definition service_plan_Delete :: "string \<Rightarrow> ('r plan_db_scheme, unit) db_op" where
  "service_plan_Delete pid = bind_db (plan_GetByID pid) (\<lambda>_. plan_Delete pid)"

definition GetPlanUsage :: "string \<Rightarrow> ('r plan_db_scheme, nat) db_op" where
  "GetPlanUsage pid = bind_db (plan_GetByID pid) (\<lambda>_. CountVMsByPlan pid)"

section \<open>The invariant\<close>

lemma plan_tables [simp]: "plans (tables s) = plans s"
  by (simp add: tables_def)

lemma plans_tables_eqD: "tables s = tables t \<Longrightarrow> plans s = plans t"
  by (metis plan_tables)

text \<open>The constraints of the table, and that every VM row refers to an existing plan.\<close>

definition plans_ok :: "'r plan_db_scheme \<Rightarrow> bool" where
  "plans_ok s \<longleftrightarrow> plan_violation (plans s) = None \<and> (\<forall>v\<in>set (vms s). vm_PlanID v \<in> plan_ID ` set (plans s))"

lemma env_free_plans_ok: "env_free plans_ok"
  by (simp add: env_free_def plans_ok_def)

lemma write_plans_ok:
  assumes "plans_ok s" "\<forall>v\<in>set (vms s). vm_PlanID v \<in> plan_ID ` set rows"
  shows "plans_ok (snd (write_plans rows x s))"
  using assms by (simp add: write_plans_def plans_ok_def split: option.splits)

lemma plans_ok_next_id: "plans_ok (s\<lparr>next_id := n\<rparr>) = plans_ok s"
  by (simp add: plans_ok_def)

lemma plan_Create_ok: "plans_ok s \<Longrightarrow> plans_ok (snd (plan_Create p s))"
  unfolding plan_Create_def
  by (erule auto_stmt_keeps [OF env_free_plans_ok, rotated])
    (auto simp: Let_def plans_ok_next_id intro!: write_plans_ok, auto simp: plans_ok_def)

lemma image_map_if_same:
  assumes "\<And>x. x \<in> set xs \<Longrightarrow> f (g x) = f x"
  shows "f ` set (map g xs) = f ` set xs"
proof -
  have "map f (map g xs) = map f xs" using assms by simp
  then show ?thesis by (metis set_map)
qed

lemma plan_Update_ok: "plans_ok s \<Longrightarrow> plans_ok (snd (plan_Update p s))"
  unfolding plan_Update_def
proof (erule auto_stmt_keeps [OF env_free_plans_ok, rotated])
  fix s :: "'a plan_db_scheme" assume ok: "plans_ok s"
  have "plan_ID ` set (map (\<lambda>q. if plan_ID q = plan_ID p then plan_row (clock s) p q else q) (plans s))
      = plan_ID ` set (plans s)"
    by (rule image_map_if_same) (simp add: plan_row_def)
  then have "plans_ok (snd (write_plans (map (\<lambda>q. if plan_ID q = plan_ID p then plan_row (clock s) p q else q) (plans s)) x s))"
    for x :: Plan using ok by (intro write_plans_ok) (auto simp: plans_ok_def)
  with ok show "plans_ok (snd (case find (\<lambda>q. plan_ID q = plan_ID p) (plans s) of None \<Rightarrow> (Inl ErrNoRows, s)
       | Some old \<Rightarrow> write_plans (map (\<lambda>q. if plan_ID q = plan_ID p then plan_row (clock s) p q else q) (plans s))
             (plan_row (clock s) p old) s))"
    by (simp split: option.split)
qed

lemma set_plan_ok:
  assumes "plans_ok s" "\<And>p. plan_ID (f p) = plan_ID p"
  shows "plans_ok (snd (set_plan i f s))"
  unfolding set_plan_def
proof (rule require_affected_keeps [where P = plans_ok],
    rule auto_stmt_keeps [OF env_free_plans_ok _ assms(1)])
  fix s :: "'a plan_db_scheme" assume ok: "plans_ok s"
  have "plan_ID ` set (map (\<lambda>p. if plan_ID p = i then (f p)\<lparr>plan_UpdatedAt := clock s\<rparr> else p) (plans s))
      = plan_ID ` set (plans s)"
    by (rule image_map_if_same) (simp add: assms(2))
  then show "plans_ok (snd (write_plans
      (map (\<lambda>p. if plan_ID p = i then (f p)\<lparr>plan_UpdatedAt := clock s\<rparr> else p) (plans s))
      (length (filter (\<lambda>p. plan_ID p = i) (plans s))) s))"
    using ok by (intro write_plans_ok) (auto simp: plans_ok_def)
qed

lemma plan_Delete_ok: "plans_ok s \<Longrightarrow> plans_ok (snd (plan_Delete i s))"
  unfolding plan_Delete_def
  by (rule require_affected_keeps, erule auto_stmt_keeps [OF env_free_plans_ok, rotated])
    (auto intro!: write_plans_ok, auto simp: plans_ok_def)

lemma select_plan_tables: "tables (snd (select_plan P s)) = tables s"
proof -
  obtain r t where rt: "select_plan P s = (r, t)" by (cases "select_plan P s")
  then have "tables t = tables s" unfolding select_plan_def
    by (cases rule: auto_stmt_cases) (auto split: option.splits)
  with rt show ?thesis by simp
qed

lemma select_plan_ok: "plans_ok s \<Longrightarrow> plans_ok (snd (select_plan P s))"
  using env_freeD [OF env_free_plans_ok select_plan_tables] by blast

section \<open>Histories of plan administration\<close>

datatype plan_cmd =
    PCreate Plan
  | PUpdate Plan
  | PDelete string
  | PActive string bool
  | PSort string int

fun exec_plan :: "plan_cmd \<Rightarrow> ('r plan_db_scheme, unit) db_op" where
  "exec_plan (PCreate p) = bind_db (service_plan_Create p) (\<lambda>_. return_db ())"
| "exec_plan (PUpdate p) = bind_db (service_plan_Update p) (\<lambda>_. return_db ())"
| "exec_plan (PDelete i) = service_plan_Delete i"
| "exec_plan (PActive i b) = UpdateActive i b"
| "exec_plan (PSort i n) = UpdateSortOrder i n"

fun run_plan :: "plan_cmd list \<Rightarrow> 'r plan_db_scheme \<Rightarrow> 'r plan_db_scheme" where
  "run_plan [] s = s"
| "run_plan (c # cs) s = run_plan cs (snd (exec_plan c s))"

lemma exec_plan_ok:
  assumes "plans_ok s"
  shows "plans_ok (snd (exec_plan c s))"
proof (cases c)
  case (PCreate p)
  have "plans_ok (snd (service_plan_Create p s))"
    using select_plan_ok [OF assms, of "\<lambda>q. plan_Slug q = plan_Slug p"] plan_Create_ok
    by (auto simp: service_plan_Create_def GetBySlug_def split: prod.splits sum.splits)
  then show ?thesis unfolding PCreate exec_plan.simps
    by (rule bind_keeps [where P = plans_ok]) (simp add: return_db_def)
next
  case (PUpdate p)
  have "plans_ok (snd (service_plan_Update p s))"
    unfolding service_plan_Update_def plan_GetByID_def
  proof (rule bind_keeps [where P = plans_ok], rule select_plan_ok [OF assms])
    fix x and s :: "'a plan_db_scheme" assume ok: "plans_ok s"
    show "plans_ok (snd (if plan_Slug p \<noteq> plan_Slug x then
         (case GetBySlug (plan_Slug p) s of
            (Inr conflict, s1) \<Rightarrow>
              if plan_ID conflict \<noteq> plan_ID p then (Inl (ErrMsg ''plan with slug already exists''), s1)
              else plan_Update p s1
          | (Inl e, s1) \<Rightarrow> plan_Update p s1)
       else plan_Update p s))"
      using select_plan_ok [OF ok, of "\<lambda>q. plan_Slug q = plan_Slug p"] plan_Update_ok ok
      by (auto simp: GetBySlug_def split: prod.splits sum.splits)
  qed
  then show ?thesis unfolding PUpdate exec_plan.simps
    by (rule bind_keeps [where P = plans_ok]) (simp add: return_db_def)
next
  case (PDelete i)
  show ?thesis unfolding PDelete exec_plan.simps service_plan_Delete_def plan_GetByID_def
    by (rule bind_keeps [where P = plans_ok]) (rule select_plan_ok [OF assms], rule plan_Delete_ok)
next
  case (PActive i b)
  then show ?thesis using set_plan_ok [OF assms] by (simp add: UpdateActive_def)
next
  case (PSort i n)
  then show ?thesis using set_plan_ok [OF assms] by (simp add: UpdateSortOrder_def)
qed

section \<open>Properties\<close>

definition ex_plan :: "string \<Rightarrow> string \<Rightarrow> Plan" where
  "ex_plan i slug =
     \<lparr>plan_ID = i, plan_Name = slug, plan_Slug = slug, plan_VCPU = 1, plan_MemoryMB = 1024,
      plan_DiskGB = 10, plan_BandwidthLimitGB = 0, plan_PortSpeedMbps = 100,
      plan_PriceMonthly = Some 500, plan_PriceHourly = Some 7, plan_PriceHourlyStopped = Some 3,
      plan_Currency = '''', plan_StorageBackend = ''ceph'', plan_IsActive = True, plan_SortOrder = 0,
      plan_SnapshotLimit = 0, plan_BackupLimit = 5, plan_ISOUploadLimit = 1, plan_CreatedAt = 0,
      plan_UpdatedAt = 0\<rparr>"

definition ex_plan_db :: "fault list \<Rightarrow> VM list \<Rightarrow> Plan list \<Rightarrow> plan_db" where
  "ex_plan_db fs rows ps = vm_db.extend (ex_vm_db fs rows) \<lparr>plans = ps\<rparr>"



end
