(* ===== verification/Calendar.thy ===== *)
theory Calendar
  imports Go_Stdlib
begin

text \<open>
  The part of Go's package \<^verbatim>\<open>time\<close> the billing code relies on: the civil date of a UTC instant
  and the layouts \<^verbatim>\<open>2006-01-02T15\<close> and \<^verbatim>\<open>2006-01-02\<close>. An instant is a number of seconds
  since 1970; the calendar is the Gregorian one, computed year by year and month by month. The
  layouts lose nothing above their precision: different hours print differently.
\<close>

section \<open>Dates\<close>

definition leap_year :: "nat \<Rightarrow> bool" where
  "leap_year y \<longleftrightarrow> (4 dvd y \<and> \<not> 100 dvd y) \<or> 400 dvd y"

definition days_in_year :: "nat \<Rightarrow> nat" where
  "days_in_year y = (if leap_year y then 366 else 365)"

definition days_in_month :: "nat \<Rightarrow> nat \<Rightarrow> nat" where
  "days_in_month y m =
     (if m = 2 then (if leap_year y then 29 else 28)
      else if m = 4 \<or> m = 6 \<or> m = 9 \<or> m = 11 then 30 else 31)"

text \<open>The year of day \<open>d\<close> counted from the first of January of \<open>y\<close>, and the day within it.\<close>

function civil_year :: "nat \<Rightarrow> nat \<Rightarrow> nat \<times> nat" where
  "civil_year y d = (if d < days_in_year y then (y, d) else civil_year (Suc y) (d - days_in_year y))"
  by pat_completeness auto
termination
  by (relation "measure snd") (auto simp: days_in_year_def)

function civil_month :: "nat \<Rightarrow> nat \<Rightarrow> nat \<Rightarrow> nat \<times> nat" where
  "civil_month y m d =
     (if 12 \<le> m \<or> d < days_in_month y m then (m, d) else civil_month y (Suc m) (d - days_in_month y m))"
  by pat_completeness auto
termination
  by (relation "measure (\<lambda>(y, m, d). 12 - m)") auto

declare civil_year.simps [simp del] civil_month.simps [simp del]

text \<open>Year, month and day of the month (from 1) of a day since 1970.\<close>

definition civil_date :: "nat \<Rightarrow> nat \<times> nat \<times> nat" where
  "civil_date n = (case civil_year 1970 n of (y, d) \<Rightarrow> case civil_month y 1 d of (m, k) \<Rightarrow> (y, m, Suc k))"

section \<open>Layouts\<close>

definition pad :: "nat \<Rightarrow> nat \<Rightarrow> string" where
  "pad k n = replicate (k - length (nat_digits n)) (digit_char 0) @ nat_digits n"

definition format_date :: "nat \<Rightarrow> string" where
  "format_date n = (case civil_date n of (y, m, d) \<Rightarrow> pad 4 y @ ''-'' @ pad 2 m @ ''-'' @ pad 2 d)"

text \<open>\<^verbatim>\<open>t.Format("2006-01-02T15")\<close> of the hour \<open>h\<close> since 1970.\<close>

definition format_hour :: "nat \<Rightarrow> string" where
  "format_hour h = format_date (h div 24) @ ''T'' @ pad 2 (h mod 24)"

text \<open>\<^verbatim>\<open>t.UTC().Truncate(time.Hour)\<close>, as an hour since 1970.\<close>

definition hour_of :: "int \<Rightarrow> nat" where
  "hour_of t = nat (t div 3600)"

section \<open>Nothing is lost\<close>

lemma civil_year_inv:
  "civil_year y d = (y', r) \<Longrightarrow> y \<le> y' \<and> d = (\<Sum>i\<in>{y..<y'}. days_in_year i) + r"
proof (induction y d arbitrary: y' r rule: civil_year.induct)
  case (1 y d)
  show ?case
  proof (cases "d < days_in_year y")
    case True
    with 1(2) show ?thesis by (simp add: civil_year.simps [of y d])
  next
    case False
    with 1(2) have "civil_year (Suc y) (d - days_in_year y) = (y', r)"
      by (simp add: civil_year.simps [of y d])
    from 1(1) [OF False this] have "Suc y \<le> y'"
      "d - days_in_year y = (\<Sum>i\<in>{Suc y..<y'}. days_in_year i) + r" by auto
    then show ?thesis using False sum.atLeast_Suc_lessThan [of y y' days_in_year] by simp
  qed
qed

lemma civil_month_inv:
  "civil_month y m d = (m', r) \<Longrightarrow> m \<le> m' \<and> d = (\<Sum>i\<in>{m..<m'}. days_in_month y i) + r"
proof (induction y m d arbitrary: m' r rule: civil_month.induct)
  case (1 y m d)
  show ?case
  proof (cases "12 \<le> m \<or> d < days_in_month y m")
    case True
    with 1(2) show ?thesis by (auto simp: civil_month.simps [of y m d])
  next
    case False
    with 1(2) have "civil_month y (Suc m) (d - days_in_month y m) = (m', r)"
      by (simp add: civil_month.simps [of y m d])
    from 1(1) [OF False this] have "Suc m \<le> m'"
      "d - days_in_month y m = (\<Sum>i\<in>{Suc m..<m'}. days_in_month y i) + r" by auto
    then show ?thesis using False sum.atLeast_Suc_lessThan [of m m' "days_in_month y"] by auto
  qed
qed

lemma civil_date_inj: "civil_date a = civil_date b \<Longrightarrow> a = b"
  by (auto simp: civil_date_def split: prod.splits dest!: civil_year_inv civil_month_inv)

lemma digits_val_zeros: "digits_val (replicate k (digit_char 0) @ ds) = digits_val ds"
  by (induction k) (simp_all add: digits_val_def digit_char_less)

lemma pad_inj: "pad k a = pad k b \<Longrightarrow> a = b"
  by (metis digits_val_nat_digits digits_val_zeros pad_def)

lemma pad_all:
  assumes "\<And>d. d < 10 \<Longrightarrow> P (digit_char d)"
  shows "\<forall>c\<in>set (pad k n). P c"
  using nat_digits_all [of P n] assms by (auto simp: pad_def list_all_iff)

lemma append_sep_inj:
  fixes c :: char
  assumes "a @ c # b = a' @ c # b'" "c \<notin> set a" "c \<notin> set a'"
  shows "a = a' \<and> b = b'"
proof -
  have "(a, Some b) = SplitN2 c (a @ c # b)" using SplitN2_sep(1) [OF assms(2)] by simp
  also have "\<dots> = (a', Some b')" unfolding assms(1) by (rule SplitN2_sep(1) [OF assms(3)])
  finally show ?thesis by simp
qed

lemma pad_clean: "CHR ''-'' \<notin> set (pad k n)" "CHR ''T'' \<notin> set (pad k n)" "CHR '':'' \<notin> set (pad k n)"
  using pad_all [of "\<lambda>c. c \<noteq> CHR ''-''" k n, OF digit_char_less(3)]
    pad_all [of "\<lambda>c. c \<noteq> CHR ''T''" k n, OF digit_char_less(8)]
    pad_all [of "\<lambda>c. c \<noteq> CHR '':''" k n, OF digit_char_less(7)] by auto

lemma format_date_clean: "CHR ''T'' \<notin> set (format_date n)" "CHR '':'' \<notin> set (format_date n)"
  using pad_clean by (auto simp: format_date_def split: prod.splits)

lemma format_hour_clean: "CHR '':'' \<notin> set (format_hour h)"
  using pad_clean format_date_clean by (auto simp: format_hour_def)

lemma format_date_inj: "format_date a = format_date b \<Longrightarrow> a = b"
proof -
  assume eq: "format_date a = format_date b"
  obtain y m d where a: "civil_date a = (y, m, d)" by (metis prod_cases3)
  obtain y' m' d' where b: "civil_date b = (y', m', d')" by (metis prod_cases3)
  have "pad 4 y @ CHR ''-'' # pad 2 m @ CHR ''-'' # pad 2 d =
      pad 4 y' @ CHR ''-'' # pad 2 m' @ CHR ''-'' # pad 2 d'"
    using eq a b by (simp add: format_date_def)
  from append_sep_inj [OF this pad_clean(1) pad_clean(1)] have "pad 4 y = pad 4 y'"
    and rest: "pad 2 m @ CHR ''-'' # pad 2 d = pad 2 m' @ CHR ''-'' # pad 2 d'" by auto
  from append_sep_inj [OF rest pad_clean(1) pad_clean(1)] have "pad 2 m = pad 2 m'" "pad 2 d = pad 2 d'" by auto
  from this [THEN pad_inj] pad_inj [OF \<open>pad 4 y = pad 4 y'\<close>] a b
  have "civil_date a = civil_date b" by simp
  then show "a = b" by (rule civil_date_inj)
qed

lemma format_hour_inj: "format_hour a = format_hour b \<Longrightarrow> a = b"
proof -
  assume "format_hour a = format_hour b"
  then have "format_date (a div 24) @ CHR ''T'' # pad 2 (a mod 24) =
      format_date (b div 24) @ CHR ''T'' # pad 2 (b mod 24)" by (simp add: format_hour_def)
  from append_sep_inj [OF this format_date_clean(1) format_date_clean(1)]
  have "a div 24 = b div 24" "a mod 24 = b mod 24" using format_date_inj pad_inj by blast+
  then show "a = b" by (metis mult_div_mod_eq)
qed



end
