(* ===== verification/Billing_Scheduler.thy ===== *)
theory Billing_Scheduler
  imports Plans Calendar
begin

text \<open>
  Hourly billing: \<^verbatim>\<open>services/billing_scheduler.go\<close>, \<^verbatim>\<open>repository/billing_checkpoint_repo.go\<close>
  and \<^verbatim>\<open>repository/advisory_lock.go\<close>. A cycle lists the billable VMs and charges each of them for
  the current hour: it looks for the hour's checkpoint, debits the account under the key
  \<^verbatim>\<open>hourly:<vm>:<hour>\<close> and records the checkpoint. The three steps are separate statements, so a
  cycle can fail between any two of them and several controllers can be in a cycle at once; what
  keeps the charge single is the ledger's idempotency key.
\<close>

section \<open>Checkpoints and the advisory lock\<close>

record BillingCheckpoint =
  cp_VMID :: string
  cp_ChargeHour :: nat
  cp_Amount :: int64
  cp_TransactionID :: "string option"

text \<open>\<open>lock_session\<close>: the session that holds the advisory lock of the scheduler and how often it
  has taken it.\<close>

record sched_db = plan_db +
  checkpoints :: "BillingCheckpoint list"
  lock_session :: "(nat \<times> nat) option"

definition at_hour :: "string \<Rightarrow> nat \<Rightarrow> BillingCheckpoint \<Rightarrow> bool" where
  "at_hour vmID chargeHour c \<longleftrightarrow> cp_VMID c = vmID \<and> cp_ChargeHour c = chargeHour"

definition RecordCheckpoint ::
  "string \<Rightarrow> nat \<Rightarrow> int64 \<Rightarrow> string option \<Rightarrow> ('r sched_db_scheme, unit) db_op" where
  "RecordCheckpoint vmID chargeHour amount transactionID =
     auto_stmt (\<lambda>s.
       if list_ex (at_hour vmID chargeHour) (checkpoints s) then (Inr (), s)
       else if vmID \<notin> vm_ID ` set (vms s) \<or>
               (case transactionID of None \<Rightarrow> False | Some t \<Rightarrow> t \<notin> bt_ID ` set (ledger s))
       then (Inl ErrDB, s)
       else (Inr (), s\<lparr>checkpoints := checkpoints s @
               [\<lparr>cp_VMID = vmID, cp_ChargeHour = chargeHour, cp_Amount = amount,
                 cp_TransactionID = transactionID\<rparr>]\<rparr>))"

definition ExistsForHour :: "string \<Rightarrow> nat \<Rightarrow> ('r sched_db_scheme, bool) db_op" where
  "ExistsForHour vmID chargeHour =
     auto_stmt (\<lambda>s. (Inr (list_ex (at_hour vmID chargeHour) (checkpoints s)), s))"

text \<open>\<open>session\<close> is the connection the controller pins; PostgreSQL counts repeated acquisitions by
  one session.\<close>

definition TryAdvisoryLock :: "nat \<Rightarrow> ('r sched_db_scheme, bool) db_op" where
  "TryAdvisoryLock session =
     auto_stmt (\<lambda>s. case lock_session s of
         None \<Rightarrow> (Inr True, s\<lparr>lock_session := Some (session, 1)\<rparr>)
       | Some (holder, n) \<Rightarrow>
           if holder = session then (Inr True, s\<lparr>lock_session := Some (session, Suc n)\<rparr>)
           else (Inr False, s))"

definition ReleaseAdvisoryLock :: "nat \<Rightarrow> ('r sched_db_scheme, unit) db_op" where
  "ReleaseAdvisoryLock session =
     auto_stmt (\<lambda>s. case lock_session s of
         None \<Rightarrow> (Inr (), s)
       | Some (holder, n) \<Rightarrow>
           if holder \<noteq> session then (Inr (), s)
           else if n \<le> 1 then (Inr (), s\<lparr>lock_session := None\<rparr>)
           else (Inr (), s\<lparr>lock_session := Some (session, n - 1)\<rparr>))"

section \<open>The scheduler\<close>

text \<open>\<open>BillingSchedulerConfig\<close>: what the scheduler calls, as the methods of its dependencies.\<close>

record 's BillingSchedulerConfig =
  cfg_TryLock :: "('s, bool) db_op"
  cfg_ReleaseLock :: "('s, unit) db_op"
  cfg_ListBillableVMs :: "('s, VM list) db_op"
  cfg_PlanGetByID :: "string \<Rightarrow> ('s, Plan) db_op"
  cfg_ExistsForHour :: "string \<Rightarrow> nat \<Rightarrow> ('s, bool) db_op"
  cfg_RecordCheckpoint :: "string \<Rightarrow> nat \<Rightarrow> int64 \<Rightarrow> string option \<Rightarrow> ('s, unit) db_op"
  cfg_DebitAccount :: "string \<Rightarrow> int64 \<Rightarrow> string \<Rightarrow> string option \<Rightarrow> string option \<Rightarrow> string option
    \<Rightarrow> ('s, BillingTransaction) db_op"
  cfg_GetBalance :: "string \<Rightarrow> ('s, int64) db_op"
  cfg_Now :: "'s \<Rightarrow> int"

definition hourly_key :: "string \<Rightarrow> nat \<Rightarrow> string" where
  "hourly_key vmID chargeHour = ''hourly:'' @ vmID @ '':'' @ format_hour chargeHour"

definition chargeVM :: "'s BillingSchedulerConfig \<Rightarrow> VM \<Rightarrow> nat \<Rightarrow> ('s, bool) db_op" where
  "chargeVM cfg vm chargeHour =
     bind_db (cfg_ExistsForHour cfg (vm_ID vm) chargeHour) (\<lambda>exists.
       if exists then return_db False
       else if vm_Status vm \<noteq> VMStatusRunning \<and> vm_Status vm \<noteq> VMStatusStopped then return_db False
       else
         bind_db (cfg_PlanGetByID cfg (vm_PlanID vm)) (\<lambda>plan.
           let amount = EffectiveHourlyRate plan (vm_Status vm) in
           if amount = 0 then return_db False
           else
             bind_db
               (ledger_DebitAccount (cfg_DebitAccount cfg) (vm_CustomerID vm) amount
                  (''Hourly charge: '' @ vm_Hostname vm @ '' ('' @ plan_Name plan @ '')'')
                  (Some BillingRefTypeVMUsage) (Some (vm_ID vm))
                  (Some (hourly_key (vm_ID vm) chargeHour))) (\<lambda>bt.
             bind_db (cfg_RecordCheckpoint cfg (vm_ID vm) chargeHour amount (Some (bt_ID bt))) (\<lambda>_.
             return_db True))))"

fun charge_all :: "'s BillingSchedulerConfig \<Rightarrow> nat \<Rightarrow> VM list \<Rightarrow> 's \<Rightarrow> (nat \<times> nat \<times> nat) \<times> 's" where
  "charge_all cfg chargeHour [] s = ((0, 0, 0), s)"
| "charge_all cfg chargeHour (vm # rest) s =
     (case chargeVM cfg vm chargeHour s of (r, s1) \<Rightarrow>
      case charge_all cfg chargeHour rest s1 of ((charged, skipped, failed), s2) \<Rightarrow>
        (case r of
           Inl e \<Rightarrow> (charged, skipped, Suc failed)
         | Inr didCharge \<Rightarrow>
             if didCharge then (Suc charged, skipped, failed) else (charged, Suc skipped, failed), s2))"

text \<open>The customers the low-balance warnings name; \<open>checked\<close> are those already looked at.\<close>

fun checkLowBalances ::
  "'s BillingSchedulerConfig \<Rightarrow> string list \<Rightarrow> VM list \<Rightarrow> 's \<Rightarrow> string list \<times> 's" where
  "checkLowBalances cfg checked [] s = ([], s)"
| "checkLowBalances cfg checked (vm # rest) s =
     (let cid = vm_CustomerID vm in
      if cid \<in> set checked then checkLowBalances cfg checked rest s
      else
        (case ledger_GetBalance (cfg_GetBalance cfg) cid s of
           (Inl e, s1) \<Rightarrow> checkLowBalances cfg (cid # checked) rest s1
         | (Inr balance, s1) \<Rightarrow>
             (case checkLowBalances cfg (cid # checked) rest s1 of (warned, s2) \<Rightarrow>
                (if sint balance \<le> 0 then cid # warned else warned, s2))))"

text \<open>What a cycle logs.\<close>

datatype cycle_report =
    LockError
  | LockHeld
  | ListError
  | Completed nat nat nat "string list"

definition RunBillingCycle :: "'s BillingSchedulerConfig \<Rightarrow> 's \<Rightarrow> cycle_report \<times> 's" where
  "RunBillingCycle cfg s =
     (case cfg_TryLock cfg s of
        (Inl e, s1) \<Rightarrow> (LockError, s1)
      | (Inr acquired, s1) \<Rightarrow>
          if \<not> acquired then (LockHeld, s1)
          else
            (let chargeHour = hour_of (cfg_Now cfg s1) in
             case cfg_ListBillableVMs cfg s1 of
               (Inl e, s2) \<Rightarrow> (ListError, snd (cfg_ReleaseLock cfg s2))
             | (Inr rows, s2) \<Rightarrow>
                 (case charge_all cfg chargeHour rows s2 of ((charged, skipped, failed), s3) \<Rightarrow>
                  case checkLowBalances cfg [] rows s3 of (warned, s4) \<Rightarrow>
                    (Completed charged skipped failed warned, snd (cfg_ReleaseLock cfg s4)))))"

text \<open>The wiring of \<^verbatim>\<open>dependencies.go\<close>: every dependency is the repository's, on the connection
  \<open>session\<close>; the VM listing is an argument.\<close>

definition scheduler_config ::
  "('r sched_db_scheme, VM list) db_op \<Rightarrow> nat \<Rightarrow> 'r sched_db_scheme BillingSchedulerConfig" where
  "scheduler_config listing session =
     \<lparr>cfg_TryLock = TryAdvisoryLock session, cfg_ReleaseLock = ReleaseAdvisoryLock session,
      cfg_ListBillableVMs = listing, cfg_PlanGetByID = plan_GetByID,
      cfg_ExistsForHour = ExistsForHour, cfg_RecordCheckpoint = RecordCheckpoint,
      cfg_DebitAccount = DebitAccount, cfg_GetBalance = repo_GetBalance, cfg_Now = clock\<rparr>"

section \<open>One call at a time\<close>

text \<open>The same charge as a machine that makes one call to the database per step, so that the
  charges of several controllers can be interleaved.\<close>

datatype charge_pc =
    AtCheck
  | AtPlan
  | AtDebit Plan
  | AtRecord int64 BillingTransaction
  | Finished "error + bool"

fun charge_step ::
  "'s BillingSchedulerConfig \<Rightarrow> VM \<Rightarrow> nat \<Rightarrow> charge_pc \<Rightarrow> 's \<Rightarrow> charge_pc \<times> 's" where
  "charge_step cfg vm h AtCheck s =
     (case cfg_ExistsForHour cfg (vm_ID vm) h s of
        (Inl e, s1) \<Rightarrow> (Finished (Inl e), s1)
      | (Inr exists, s1) \<Rightarrow>
          (if exists \<or> (vm_Status vm \<noteq> VMStatusRunning \<and> vm_Status vm \<noteq> VMStatusStopped)
           then Finished (Inr False) else AtPlan, s1))"
| "charge_step cfg vm h AtPlan s =
     (case cfg_PlanGetByID cfg (vm_PlanID vm) s of
        (Inl e, s1) \<Rightarrow> (Finished (Inl e), s1)
      | (Inr plan, s1) \<Rightarrow>
          (if EffectiveHourlyRate plan (vm_Status vm) = 0 then Finished (Inr False) else AtDebit plan, s1))"
| "charge_step cfg vm h (AtDebit plan) s =
     (case ledger_DebitAccount (cfg_DebitAccount cfg) (vm_CustomerID vm)
             (EffectiveHourlyRate plan (vm_Status vm))
             (''Hourly charge: '' @ vm_Hostname vm @ '' ('' @ plan_Name plan @ '')'')
             (Some BillingRefTypeVMUsage) (Some (vm_ID vm)) (Some (hourly_key (vm_ID vm) h)) s of
        (Inl e, s1) \<Rightarrow> (Finished (Inl e), s1)
      | (Inr bt, s1) \<Rightarrow> (AtRecord (EffectiveHourlyRate plan (vm_Status vm)) bt, s1))"
| "charge_step cfg vm h (AtRecord amount bt) s =
     (case cfg_RecordCheckpoint cfg (vm_ID vm) h amount (Some (bt_ID bt)) s of
        (Inl e, s1) \<Rightarrow> (Finished (Inl e), s1)
      | (Inr _, s1) \<Rightarrow> (Finished (Inr True), s1))"
| "charge_step cfg vm h (Finished r) s = (Finished r, s)"

fun charge_steps ::
  "'s BillingSchedulerConfig \<Rightarrow> VM \<Rightarrow> nat \<Rightarrow> nat \<Rightarrow> charge_pc \<Rightarrow> 's \<Rightarrow> charge_pc \<times> 's" where
  "charge_steps cfg vm h 0 pc s = (pc, s)"
| "charge_steps cfg vm h (Suc n) pc s =
     (case charge_step cfg vm h pc s of (pc1, s1) \<Rightarrow> charge_steps cfg vm h n pc1 s1)"

text \<open>Four calls are enough, and they are the function.\<close>

lemma charge_steps_chargeVM:
  assumes "chargeVM cfg vm h s = (r, t)"
  shows "charge_steps cfg vm h 4 AtCheck s = (Finished r, t)"
  using assms
  by (auto simp: chargeVM_def eval_nat_numeral bind_db_def return_db_def Let_def
      split: prod.splits sum.splits if_splits)

text \<open>A charge under way: a VM, an hour and where its controller is. \<open>interleave\<close> lets the charges
  take steps in the order of the schedule.\<close>

type_synonym charge = "VM \<times> nat \<times> charge_pc"

fun step_nth ::
  "'s BillingSchedulerConfig \<Rightarrow> nat \<Rightarrow> charge list \<Rightarrow> 's \<Rightarrow> charge list \<times> 's" where
  "step_nth cfg i cs s =
     (if i < length cs then
        (case cs ! i of (vm, h, pc) \<Rightarrow>
         case charge_step cfg vm h pc s of (pc1, s1) \<Rightarrow> (cs[i := (vm, h, pc1)], s1))
      else (cs, s))"

fun interleave ::
  "'s BillingSchedulerConfig \<Rightarrow> nat list \<Rightarrow> charge list \<Rightarrow> 's \<Rightarrow> charge list \<times> 's" where
  "interleave cfg [] cs s = (cs, s)"
| "interleave cfg (i # js) cs s =
     (case step_nth cfg i cs s of (cs1, s1) \<Rightarrow> interleave cfg js cs1 s1)"

section \<open>What the scheduler needs of its dependencies\<close>

text \<open>The entry of one hour of one VM.\<close>

definition hourly_entry :: "string \<Rightarrow> BillingTransaction \<Rightarrow> bool" where
  "hourly_entry vmID bt \<longleftrightarrow>
     bt_Type bt = BillingTxTypeDebit \<and> bt_ReferenceType bt = Some BillingRefTypeVMUsage \<and>
     bt_ReferenceID bt = Some vmID \<and> 0 < sint (bt_Amount bt)"

lemma hourly_key_inj:
  assumes "hourly_key v h = hourly_key v' h'"
  shows "v = v' \<and> h = h'"
proof -
  have "rev (format_hour h) @ CHR '':'' # rev v = rev (format_hour h') @ CHR '':'' # rev v'"
    using arg_cong [OF assms, of rev] by (simp add: hourly_key_def)
  from append_sep_inj [OF this] have "rev (format_hour h) = rev (format_hour h')" "rev v = rev v'"
    using format_hour_clean by auto
  then show ?thesis using format_hour_inj by simp
qed

locale hourly_billing = ledger_repo credit debit entries balance inv
  for credit :: "string \<Rightarrow> int64 \<Rightarrow> string \<Rightarrow> string option \<Rightarrow> ('s, BillingTransaction) db_op"
    and debit and entries and balance and inv +
  fixes cfg :: "'s BillingSchedulerConfig"
    and charged :: "'s \<Rightarrow> (string \<times> nat) set"
    and owner :: "'s \<Rightarrow> string \<rightharpoonup> string"
    and plan_of :: "'s \<Rightarrow> string \<rightharpoonup> Plan"
    and listed :: "'s \<Rightarrow> VM set"
    and same :: "'s \<Rightarrow> 's \<Rightarrow> bool"
  assumes same_def: "same s t \<longleftrightarrow> entries t = entries s \<and> charged t = charged s \<and> owner t = owner s \<and>
      plan_of t = plan_of s \<and> listed t = listed s \<and> cfg_Now cfg t = cfg_Now cfg s"
    and debit_is: "cfg_DebitAccount cfg = debit"
    and debit_frame: "debit c a ds rt ri k s = (r, t) \<Longrightarrow>
      charged t = charged s \<and> owner t = owner s \<and> plan_of t = plan_of s"
    and lock_law: "inv s \<Longrightarrow> cfg_TryLock cfg s = (b, t) \<Longrightarrow> inv t \<and> same s t"
    and release_law: "inv s \<Longrightarrow> cfg_ReleaseLock cfg s = (u, t) \<Longrightarrow> inv t \<and> same s t"
    and list_law: "inv s \<Longrightarrow> cfg_ListBillableVMs cfg s = (l, t) \<Longrightarrow> inv t \<and> same s t \<and>
      (\<forall>rows. l = Inr rows \<longrightarrow> set rows = listed s)"
    and listed_owner: "inv s \<Longrightarrow> vm \<in> listed s \<Longrightarrow> owner s (vm_ID vm) = Some (vm_CustomerID vm)"
    and exists_law: "inv s \<Longrightarrow> cfg_ExistsForHour cfg v h s = (b, t) \<Longrightarrow> inv t \<and> same s t \<and>
      (\<forall>x. b = Inr x \<longrightarrow> x = ((v, h) \<in> charged s))"
    and plan_law: "inv s \<Longrightarrow> cfg_PlanGetByID cfg i s = (p, t) \<Longrightarrow> inv t \<and> same s t \<and>
      (\<forall>x. p = Inr x \<longrightarrow> plan_of s i = Some x)"
    and record_law: "inv s \<Longrightarrow> cfg_RecordCheckpoint cfg v h a x s = (u, t) \<Longrightarrow>
      inv t \<and> entries t = entries s \<and> owner t = owner s \<and> plan_of t = plan_of s \<and>
      (charged t = charged s \<or> charged t = insert (v, h) (charged s)) \<and>
      (u = Inr () \<longrightarrow> (v, h) \<in> charged t)"
    and balance_law: "inv s \<Longrightarrow> cfg_GetBalance cfg c s = (m, t) \<Longrightarrow> inv t \<and> same s t"
begin

text \<open>Every checkpoint is backed by the debit of its hour on the owner's account.\<close>

definition backed :: "'s \<Rightarrow> string \<Rightarrow> nat \<Rightarrow> bool" where
  "backed s v h \<longleftrightarrow> (\<exists>c. owner s v = Some c \<and>
     (\<exists>bt\<in>set (entries s). has_key c (hourly_key v h) bt \<and> hourly_entry v bt))"

definition billing_ok :: "'s \<Rightarrow> bool" where
  "billing_ok s \<longleftrightarrow> inv s \<and> (\<forall>(v, h)\<in>charged s. backed s v h)"

definition exempt :: "'s \<Rightarrow> VM \<Rightarrow> bool" where
  "exempt s vm \<longleftrightarrow> (vm_Status vm \<noteq> VMStatusRunning \<and> vm_Status vm \<noteq> VMStatusStopped) \<or>
     (\<exists>p. plan_of s (vm_PlanID vm) = Some p \<and> EffectiveHourlyRate p (vm_Status vm) = 0)"

definition grows :: "'s \<Rightarrow> 's \<Rightarrow> bool" where
  "grows s t \<longleftrightarrow> (\<exists>new. entries t = entries s @ new \<and>
       (\<forall>bt\<in>set new. \<exists>v h. owner s v = Some (bt_CustomerID bt) \<and> hourly_entry v bt \<and>
          bt_IdempotencyKey bt = Some (hourly_key v h))) \<and>
     charged s \<subseteq> charged t \<and> owner t = owner s \<and> plan_of t = plan_of s"

fun charge_ok :: "'s \<Rightarrow> charge \<Rightarrow> bool" where
  "charge_ok s (vm, h, pc) \<longleftrightarrow> owner s (vm_ID vm) = Some (vm_CustomerID vm) \<and>
     (case pc of
        AtRecord a bt \<Rightarrow> bt \<in> set (entries s) \<and> has_key (vm_CustomerID vm) (hourly_key (vm_ID vm) h) bt \<and>
          hourly_entry (vm_ID vm) bt
      | Finished (Inr b) \<Rightarrow> (vm_ID vm, h) \<in> charged s \<or> (\<not> b \<and> exempt s vm)
      | _ \<Rightarrow> True)"

lemma grows_same: "same s t \<Longrightarrow> grows s t"
  by (simp add: grows_def same_def)

lemma grows_trans:
  assumes "grows s t" "grows t u"
  shows "grows s u"
proof -
  from assms(1) obtain new1 where 1: "entries t = entries s @ new1"
    "\<forall>bt\<in>set new1. \<exists>v h. owner s v = Some (bt_CustomerID bt) \<and> hourly_entry v bt \<and>
          bt_IdempotencyKey bt = Some (hourly_key v h)"
    "charged s \<subseteq> charged t" "owner t = owner s" "plan_of t = plan_of s" unfolding grows_def by blast
  from assms(2) obtain new2 where 2: "entries u = entries t @ new2"
    "\<forall>bt\<in>set new2. \<exists>v h. owner t v = Some (bt_CustomerID bt) \<and> hourly_entry v bt \<and>
          bt_IdempotencyKey bt = Some (hourly_key v h)"
    "charged t \<subseteq> charged u" "owner u = owner t" "plan_of u = plan_of t" unfolding grows_def by blast
  have "entries u = entries s @ (new1 @ new2)" using 1 2 by simp
  moreover have "\<forall>bt\<in>set (new1 @ new2). \<exists>v h. owner s v = Some (bt_CustomerID bt) \<and> hourly_entry v bt \<and>
          bt_IdempotencyKey bt = Some (hourly_key v h)" using 1 2 by auto
  ultimately show ?thesis using 1(3-) 2(3-) unfolding grows_def by auto
qed

lemma backed_grows: "grows s t \<Longrightarrow> backed s v h \<Longrightarrow> backed t v h"
  by (auto simp: grows_def backed_def)

lemma charge_ok_grows:
  assumes "grows s t" "charge_ok s c"
  shows "charge_ok t c"
proof -
  obtain vm h pc where c: "c = (vm, h, pc)" by (cases c)
  from assms show ?thesis
    by (auto simp: c grows_def exempt_def split: charge_pc.splits sum.splits)
qed

lemma billing_ok_same: "billing_ok s \<Longrightarrow> inv t \<Longrightarrow> same s t \<Longrightarrow> billing_ok t"
  using backed_grows [OF grows_same] by (force simp: billing_ok_def same_def)

lemma debit_step:
  assumes "billing_ok s" "owner s (vm_ID vm) = Some (vm_CustomerID vm)"
    and run: "ledger_DebitAccount debit (vm_CustomerID vm) a ds
      (Some BillingRefTypeVMUsage) (Some (vm_ID vm)) (Some (hourly_key (vm_ID vm) h)) s = (r, t)"
  shows "billing_ok t \<and> grows s t \<and> (\<forall>bt. r = Inr bt \<longrightarrow> bt \<in> set (entries t) \<and>
      has_key (vm_CustomerID vm) (hourly_key (vm_ID vm) h) bt \<and> hourly_entry (vm_ID vm) bt)"
proof -
  have inv: "inv s" using assms(1) by (simp add: billing_ok_def)
  from ledger_DebitAccount_law [OF inv run] have t: "inv t"
    and con: "posting_contract entries balance (vm_CustomerID vm) BillingTxTypeDebit a
      (Some BillingRefTypeVMUsage) (Some (vm_ID vm)) (Some (hourly_key (vm_ID vm) h)) s r t" by blast+
  have frame: "charged t = charged s" "owner t = owner s" "plan_of t = plan_of s"
    using run debit_frame by (auto simp: ledger_DebitAccount_def throw_db_def split: if_splits)
  have pos: "0 < sint a \<or> (t = s \<and> (\<exists>e. r = Inl e))"
    using run by (auto simp: ledger_DebitAccount_def throw_db_def split: if_splits)
  have m: "hourly_entry (vm_ID vm) bt"
    if "billingTxMatches bt BillingTxTypeDebit a (Some BillingRefTypeVMUsage) (Some (vm_ID vm))" "0 < sint a" for bt
    using that by (simp add: billingTxMatches_def hourly_entry_def)
  from con have "grows s t \<and> (\<forall>bt. r = Inr bt \<longrightarrow> bt \<in> set (entries t) \<and>
      has_key (vm_CustomerID vm) (hourly_key (vm_ID vm) h) bt \<and> hourly_entry (vm_ID vm) bt)"
  proof (cases rule: posting_contractE)
    case kept
    then show ?thesis using frame m pos by (auto simp: grows_def)
  next
    case (appended bt b)
    then have "0 < sint a" using pos by auto
    then have e: "hourly_entry (vm_ID vm) bt" "has_key (vm_CustomerID vm) (hourly_key (vm_ID vm) h) bt"
      using m [OF appended(6)] appended(4,5) by (auto simp: has_key_def)
    have "grows s t" unfolding grows_def
      using appended(1,4,5) e(1) assms(2) frame by (intro conjI exI [of _ "[bt]"]) auto
    then show ?thesis using appended(1,8) e by auto
  qed
  moreover have "billing_ok t"
    using t assms(1) frame calculation backed_grows [of s t] by (force simp: billing_ok_def)
  ultimately show ?thesis by blast
qed

lemma record_step:
  assumes "billing_ok s" "backed s v h" "cfg_RecordCheckpoint cfg v h a x s = (u, t)"
  shows "billing_ok t \<and> grows s t \<and> (u = Inr () \<longrightarrow> (v, h) \<in> charged t)"
proof -
  from record_law [OF _ assms(3)] assms(1) have r: "inv t" "entries t = entries s" "owner t = owner s"
    "plan_of t = plan_of s" "charged t = charged s \<or> charged t = insert (v, h) (charged s)"
    "u = Inr () \<longrightarrow> (v, h) \<in> charged t" by (auto simp: billing_ok_def)
  have g: "grows s t" using r(2-5) by (auto simp: grows_def)
  have "backed t v' h'" if "(v', h') \<in> charged t" for v' h'
  proof -
    have "backed s v' h'" using that r(5) assms(1,2) by (auto simp: billing_ok_def)
    then show ?thesis by (rule backed_grows [OF g])
  qed
  with r g show ?thesis by (auto simp: billing_ok_def)
qed

lemma charge_step_law:
  assumes ok: "billing_ok s" and c: "charge_ok s (vm, h, pc)"
    and run: "charge_step cfg vm h pc s = (pc', t)"
  shows "billing_ok t \<and> grows s t \<and> charge_ok t (vm, h, pc')"
proof -
  have inv: "inv s" using ok by (simp add: billing_ok_def)
  have own: "owner s (vm_ID vm) = Some (vm_CustomerID vm)" using c by simp
  show ?thesis
  proof (cases pc)
    case AtCheck
    obtain b where e: "cfg_ExistsForHour cfg (vm_ID vm) h s = (b, t)"
      and pc': "pc' = (case b of Inl e \<Rightarrow> Finished (Inl e) | Inr x \<Rightarrow>
         if x \<or> (vm_Status vm \<noteq> VMStatusRunning \<and> vm_Status vm \<noteq> VMStatusStopped)
         then Finished (Inr False) else AtPlan)"
      using run AtCheck by (auto split: prod.splits sum.splits)
    from exists_law [OF inv e] have t: "inv t" "same s t" "\<forall>x. b = Inr x \<longrightarrow> x = ((vm_ID vm, h) \<in> charged s)"
      by blast+
    have "charge_ok t (vm, h, pc')"
      using own t(2,3) pc' by (auto simp: same_def exempt_def split: sum.splits)
    then show ?thesis using billing_ok_same [OF ok t(1,2)] grows_same [OF t(2)] by blast
  next
    case AtPlan
    obtain p where e: "cfg_PlanGetByID cfg (vm_PlanID vm) s = (p, t)"
      and pc': "pc' = (case p of Inl e \<Rightarrow> Finished (Inl e) | Inr x \<Rightarrow>
         if EffectiveHourlyRate x (vm_Status vm) = 0 then Finished (Inr False) else AtDebit x)"
      using run AtPlan by (auto split: prod.splits sum.splits)
    from plan_law [OF inv e] have t: "inv t" "same s t" "\<forall>x. p = Inr x \<longrightarrow> plan_of s (vm_PlanID vm) = Some x"
      by blast+
    have "charge_ok t (vm, h, pc')"
      using own t(2,3) pc' by (auto simp: same_def exempt_def split: sum.splits)
    then show ?thesis using billing_ok_same [OF ok t(1,2)] grows_same [OF t(2)] by blast
  next
    case (AtDebit plan)
    obtain r where e: "ledger_DebitAccount debit (vm_CustomerID vm)
             (EffectiveHourlyRate plan (vm_Status vm))
             (''Hourly charge: '' @ vm_Hostname vm @ '' ('' @ plan_Name plan @ '')'')
             (Some BillingRefTypeVMUsage) (Some (vm_ID vm)) (Some (hourly_key (vm_ID vm) h)) s = (r, t)"
      and pc': "pc' = (case r of Inl e \<Rightarrow> Finished (Inl e) | Inr bt \<Rightarrow>
         AtRecord (EffectiveHourlyRate plan (vm_Status vm)) bt)"
      using run AtDebit debit_is by (auto split: prod.splits sum.splits)
    from debit_step [OF ok own e] show ?thesis
      using own pc' by (auto simp: grows_def split: sum.splits)
  next
    case (AtRecord a bt)
    obtain u where e: "cfg_RecordCheckpoint cfg (vm_ID vm) h a (Some (bt_ID bt)) s = (u, t)"
      and pc': "pc' = (case u of Inl e \<Rightarrow> Finished (Inl e) | Inr _ \<Rightarrow> Finished (Inr True))"
      using run AtRecord by (auto split: prod.splits sum.splits)
    have "backed s (vm_ID vm) h" using c AtRecord by (auto simp: backed_def)
    from record_step [OF ok this e] show ?thesis
      using own pc' by (auto simp: grows_def split: sum.splits)
  next
    case (Finished r)
    then show ?thesis using run ok c by (auto simp: grows_def)
  qed
qed

text \<open>Any interleaving of any number of charges.\<close>

lemma interleave_law:
  assumes "billing_ok s" "\<forall>c\<in>set cs. charge_ok s c" "interleave cfg sched cs s = (cs', t)"
  shows "billing_ok t \<and> grows s t \<and> (\<forall>c\<in>set cs'. charge_ok t c)"
  using assms
proof (induction sched arbitrary: cs s)
  case Nil
  then show ?case by (auto simp: grows_def)
next
  case (Cons i js)
  obtain cs1 s1 where 1: "step_nth cfg i cs s = (cs1, s1)" and 2: "interleave cfg js cs1 s1 = (cs', t)"
    using Cons.prems(3) by (auto split: prod.splits)
  have "billing_ok s1 \<and> grows s s1 \<and> (\<forall>c\<in>set cs1. charge_ok s1 c)"
  proof (cases "i < length cs")
    case False
    then show ?thesis using 1 Cons.prems by (auto simp: grows_def)
  next
    case True
    obtain vm h pc where c: "cs ! i = (vm, h, pc)" by (cases "cs ! i")
    obtain pc1 where st: "charge_step cfg vm h pc s = (pc1, s1)" and cs1: "cs1 = cs[i := (vm, h, pc1)]"
      using 1 True c by (auto split: prod.splits)
    have "charge_ok s (vm, h, pc)" using Cons.prems(2) True c by (metis nth_mem)
    from charge_step_law [OF Cons.prems(1) this st]
    have ok: "billing_ok s1" "grows s s1" "charge_ok s1 (vm, h, pc1)" by blast+
    have "charge_ok s1 x" if "x \<in> set cs1" for x
    proof -
      from that have "x \<in> set cs \<or> x = (vm, h, pc1)"
        unfolding cs1 using set_update_subset_insert [of cs i "(vm, h, pc1)"] by auto
      then show ?thesis using charge_ok_grows [OF ok(2)] Cons.prems(2) ok(3) by blast
    qed
    with ok show ?thesis by blast
  qed
  with Cons.IH [OF _ _ 2] grows_trans show ?case by blast
qed

lemma charge_steps_law:
  assumes "billing_ok s" "charge_ok s (vm, h, pc)" "charge_steps cfg vm h n pc s = (pc', t)"
  shows "billing_ok t \<and> grows s t \<and> charge_ok t (vm, h, pc')"
  using assms
proof (induction n arbitrary: pc s)
  case 0
  then show ?case by (auto simp: grows_def)
next
  case (Suc n)
  obtain pc1 s1 where 1: "charge_step cfg vm h pc s = (pc1, s1)" "charge_steps cfg vm h n pc1 s1 = (pc', t)"
    using Suc.prems(3) by (auto split: prod.splits)
  from charge_step_law [OF Suc.prems(1,2) 1(1)] have "billing_ok s1" "grows s s1" "charge_ok s1 (vm, h, pc1)"
    by blast+
  with Suc.IH [OF _ _ 1(2)] grows_trans show ?case by blast
qed

lemma chargeVM_law:
  assumes "billing_ok s" "owner s (vm_ID vm) = Some (vm_CustomerID vm)" "chargeVM cfg vm h s = (r, t)"
  shows "billing_ok t \<and> grows s t \<and>
    (\<forall>b. r = Inr b \<longrightarrow> (vm_ID vm, h) \<in> charged t \<or> (\<not> b \<and> exempt t vm))"
  using charge_steps_law [OF assms(1) _ charge_steps_chargeVM [OF assms(3)]] assms(2) by auto

lemma charge_all_law:
  assumes "billing_ok s" "\<forall>v\<in>set rows. owner s (vm_ID v) = Some (vm_CustomerID v)"
    "charge_all cfg h rows s = ((ch, sk, failed), t)"
  shows "billing_ok t \<and> grows s t \<and>
    (failed = 0 \<longrightarrow> (\<forall>v\<in>set rows. (vm_ID v, h) \<in> charged t \<or> exempt t v))"
  using assms
proof (induction rows arbitrary: s ch sk failed)
  case Nil
  then show ?case by (auto simp: grows_def)
next
  case (Cons v rows)
  obtain r s1 where 1: "chargeVM cfg v h s = (r, s1)" by (cases "chargeVM cfg v h s")
  obtain c' k' f' s2 where 2: "charge_all cfg h rows s1 = ((c', k', f'), s2)" by (metis prod_cases3 surj_pair)
  have s2: "s2 = t" and failed: "failed = 0 \<Longrightarrow> f' = 0 \<and> (\<exists>b. r = Inr b)"
    using Cons.prems(3) 1 2 by (auto split: sum.splits if_splits)
  from chargeVM_law [OF Cons.prems(1) _ 1] Cons.prems(2)
  have s1: "billing_ok s1" "grows s s1" "\<forall>b. r = Inr b \<longrightarrow> (vm_ID v, h) \<in> charged s1 \<or> exempt s1 v" by auto
  have own: "\<forall>v\<in>set rows. owner s1 (vm_ID v) = Some (vm_CustomerID v)"
    using Cons.prems(2) s1(2) by (simp add: grows_def)
  from Cons.IH [OF s1(1) own 2 [unfolded s2]] have t: "billing_ok t" "grows s1 t"
    "f' = 0 \<longrightarrow> (\<forall>v\<in>set rows. (vm_ID v, h) \<in> charged t \<or> exempt t v)" by auto
  have "(vm_ID v, h) \<in> charged t \<or> exempt t v" if "failed = 0"
    using failed [OF that] s1(3) t(2) by (auto simp: grows_def exempt_def)
  with t failed show ?case using grows_trans [OF s1(2) t(2)] by auto
qed

lemma checkLowBalances_law:
  assumes "billing_ok s" "checkLowBalances cfg seen rows s = (w, t)"
  shows "billing_ok t \<and> same s t"
  using assms
proof (induction rows arbitrary: seen s w)
  case Nil
  then show ?case by (simp add: same_def)
next
  case (Cons v rows)
  show ?case
  proof (cases "vm_CustomerID v \<in> set seen")
    case True
    then show ?thesis using Cons by simp
  next
    case False
    obtain b s1 where b: "cfg_GetBalance cfg (vm_CustomerID v) s = (b, s1)"
      by (cases "cfg_GetBalance cfg (vm_CustomerID v) s")
    then obtain w' where w: "checkLowBalances cfg (vm_CustomerID v # seen) rows s1 = (w', t)"
      using Cons.prems(2) False by (auto simp: ledger_GetBalance_def Let_def split: prod.splits sum.splits)
    from balance_law [OF _ b] Cons.prems(1) have s1: "inv s1" "same s s1" by (auto simp: billing_ok_def)
    from Cons.IH [OF billing_ok_same [OF Cons.prems(1) s1] w] s1(2) show ?thesis by (simp add: same_def)
  qed
qed

text \<open>A cycle keeps the invariant, adds hourly debits only, and if it reports no failure every VM it
  listed has been charged for the hour or is free.\<close>

lemma cycle_law:
  assumes "billing_ok s" "RunBillingCycle cfg s = (rep, t)"
  shows "billing_ok t \<and> grows s t \<and>
    (\<forall>ch sk w. rep = Completed ch sk 0 w \<longrightarrow>
       (\<forall>v\<in>listed s. owner t (vm_ID v) = Some (vm_CustomerID v) \<and>
          ((vm_ID v, hour_of (cfg_Now cfg s)) \<in> charged t \<or> exempt t v)))"
proof -
  obtain b s1 where l: "cfg_TryLock cfg s = (b, s1)" by (cases "cfg_TryLock cfg s")
  from lock_law [OF _ l] assms(1) have s1: "inv s1" "same s s1" by (auto simp: billing_ok_def)
  note ok1 = billing_ok_same [OF assms(1) s1]
  have rel: "billing_ok (snd (cfg_ReleaseLock cfg u)) \<and> same u (snd (cfg_ReleaseLock cfg u))"
    if "billing_ok u" for u
    using release_law [of u] that billing_ok_same [OF that]
    by (cases "cfg_ReleaseLock cfg u") (auto simp: billing_ok_def)
  show ?thesis
  proof (cases "b = Inr True")
    case False
    then have "t = s1" "\<forall>ch sk f w. rep \<noteq> Completed ch sk f w"
      using assms(2) l by (auto simp: RunBillingCycle_def split: sum.splits if_splits)
    then show ?thesis using ok1 grows_same [OF s1(2)] by auto
  next
    case True
    obtain lst s2 where ls: "cfg_ListBillableVMs cfg s1 = (lst, s2)" by (cases "cfg_ListBillableVMs cfg s1")
    from list_law [OF s1(1) ls] have s2: "inv s2" "same s1 s2"
      and all: "\<forall>rows. lst = Inr rows \<longrightarrow> set rows = listed s1" by blast+
    note ok2 = billing_ok_same [OF ok1 s2]
    have g2: "grows s s2" using grows_trans grows_same s1(2) s2(2) by blast
    show ?thesis
    proof (cases lst)
      case (Inl e)
      then have "t = snd (cfg_ReleaseLock cfg s2)" "rep = ListError"
        using assms(2) l True ls by (auto simp: RunBillingCycle_def Let_def)
      then show ?thesis using rel [OF ok2] grows_trans [OF g2 grows_same] by auto
    next
      case (Inr rows)
      let ?h = "hour_of (cfg_Now cfg s1)"
      obtain ch sk f s3 where c: "charge_all cfg ?h rows s2 = ((ch, sk, f), s3)" by (metis prod_cases3 surj_pair)
      obtain w s4 where w: "checkLowBalances cfg [] rows s3 = (w, s4)"
        by (cases "checkLowBalances cfg [] rows s3")
      have rt: "rep = Completed ch sk f w" "t = snd (cfg_ReleaseLock cfg s4)"
        using assms(2) l True ls Inr c w by (auto simp: RunBillingCycle_def Let_def)
      have own2: "\<forall>v\<in>set rows. owner s2 (vm_ID v) = Some (vm_CustomerID v)"
        using all listed_owner [OF s1(1)] Inr s2(2) by (simp add: same_def)
      from charge_all_law [OF ok2 own2 c] have s3: "billing_ok s3" "grows s2 s3"
        "f = 0 \<longrightarrow> (\<forall>v\<in>set rows. (vm_ID v, ?h) \<in> charged s3 \<or> exempt s3 v)" by blast+
      from checkLowBalances_law [OF s3(1) w] have s4: "billing_ok s4" "same s3 s4" by blast+
      from rel [OF s4(1)] rt have t: "billing_ok t" "same s4 t" by auto
      have "grows s t"
        using grows_trans [OF grows_trans [OF g2 s3(2)]] grows_trans [OF grows_same [OF s4(2)] grows_same [OF t(2)]]
        by blast
      moreover have "owner t = owner s2" "charged t = charged s3" "plan_of t = plan_of s3"
        using s3(2) s4(2) t(2) by (auto simp: same_def grows_def)
      ultimately show ?thesis
        using t(1) rt s1(2) all Inr own2 s3(3) by (auto simp: exempt_def same_def)
    qed
  qed
qed

end

section \<open>The repositories provide it\<close>

definition charged_hours :: "'r sched_db_scheme \<Rightarrow> (string \<times> nat) set" where
  "charged_hours s = (\<lambda>c. (cp_VMID c, cp_ChargeHour c)) ` set (checkpoints s)"

definition vm_owner :: "'r sched_db_scheme \<Rightarrow> string \<rightharpoonup> string" where
  "vm_owner s i = map_option vm_CustomerID (find (\<lambda>v. vm_ID v = i) (vms s))"

definition plan_row_of :: "'r sched_db_scheme \<Rightarrow> string \<rightharpoonup> Plan" where
  "plan_row_of s i = find (\<lambda>p. plan_ID p = i) (plans s)"

text \<open>The VMs \<open>ListBillableVMs\<close> is documented to return: running or stopped, not deleted, of a
  customer billed natively.\<close>

definition billable :: "'r sched_db_scheme \<Rightarrow> VM \<Rightarrow> bool" where
  "billable s v \<longleftrightarrow> (vm_Status v = VMStatusRunning \<or> vm_Status v = VMStatusStopped) \<and> active v \<and>
     billing_providers s (vm_CustomerID v) = Some ''native''"

definition billable_rows :: "'r sched_db_scheme \<Rightarrow> VM set" where
  "billable_rows s = scanVM ` {v \<in> set (vms s). billable s v}"

definition lists_billable :: "('r sched_db_scheme, VM list) db_op \<Rightarrow> bool" where
  "lists_billable listing \<longleftrightarrow> (\<forall>s l t. listing s = (l, t) \<longrightarrow>
     tables t = tables s \<and> (\<forall>rows. l = Inr rows \<longrightarrow> set rows = billable_rows s))"

definition sched_inv :: "'r sched_db_scheme \<Rightarrow> bool" where
  "sched_inv s \<longleftrightarrow> ledger_inv s \<and> vms_ok s"

definition sched_same :: "'r sched_db_scheme \<Rightarrow> 'r sched_db_scheme \<Rightarrow> bool" where
  "sched_same s t \<longleftrightarrow> ledger t = ledger s \<and> charged_hours t = charged_hours s \<and> vm_owner t = vm_owner s \<and>
     plan_row_of t = plan_row_of s \<and> billable_rows t = billable_rows s \<and> clock t = clock s"

lemma sched_tables [simp]:
  "checkpoints (tables s) = checkpoints s" "lock_session (tables s) = lock_session s"
  by (simp_all add: tables_def)

lemma sched_tables_eqD:
  fixes s t :: "'r sched_db_scheme"
  assumes "tables s = tables t"
  shows "checkpoints s = checkpoints t" "plans s = plans t" "vms s = vms t" "ledger s = ledger t"
    "billing_providers s = billing_providers t" "clock s = clock t"
  using arg_cong [OF assms, of checkpoints] arg_cong [OF assms, of plans] arg_cong [OF assms, of vms]
    arg_cong [OF assms, of ledger] arg_cong [OF assms, of billing_providers]
    arg_cong [OF assms, of clock] by simp_all

lemma env_free_sched_inv: "env_free sched_inv"
  unfolding env_free_def sched_inv_def
proof
  fix s :: "'a sched_db_scheme"
  show "(ledger_inv (tables s) \<and> vms_ok (tables s)) = (ledger_inv s \<and> vms_ok s)"
    using env_freeD [OF env_free_ledger_inv, of "tables s" s] env_freeD [OF env_free_vms_ok, of "tables s" s]
    by simp
qed

lemma sched_inv_cong:
  fixes s t :: "'r sched_db_scheme"
  assumes "ledger t = ledger s" "balances t = balances s" "vms t = vms s" "backend_required t = backend_required s"
  shows "sched_inv t = sched_inv s"
  using assms by (simp add: sched_inv_def ledger_inv_def vms_ok_def)

lemma sched_same_cong:
  fixes s t :: "'r sched_db_scheme"
  assumes "ledger t = ledger s" "checkpoints t = checkpoints s" "plans t = plans s" "vms t = vms s"
    "billing_providers t = billing_providers s" "clock t = clock s"
  shows "sched_same s t"
  using assms
  by (simp add: sched_same_def charged_hours_def vm_owner_def plan_row_of_def billable_rows_def
      billable_def fun_eq_iff)

lemma sched_unchanged:
  fixes s t :: "'r sched_db_scheme"
  assumes "tables t = tables s"
  shows "sched_inv t = sched_inv s" "sched_same s t"
  using env_freeD [OF env_free_sched_inv assms] sched_same_cong sched_tables_eqD [OF assms] by blast+

text \<open>A read-only statement.\<close>

lemma auto_read:
  fixes s t :: "'r db_env_scheme"
  assumes "auto_stmt (\<lambda>s. (q s, s)) s = (r, t)" "\<And>u v. tables u = tables v \<Longrightarrow> q u = q v"
  shows "tables t = tables s \<and> (\<forall>x. r = Inr x \<longrightarrow> q s = Inr x)"
  using assms(1)
proof (cases rule: auto_stmt_cases)
  case (2 s1)
  then show ?thesis using assms(2) [of s1 s] by auto
qed auto

lemma ExistsForHour_law:
  assumes "ExistsForHour v h s = (b, t)"
  shows "tables t = tables s \<and> (\<forall>x. b = Inr x \<longrightarrow> x = ((v, h) \<in> charged_hours s))"
proof -
  have "tables t = tables s \<and> (\<forall>x. b = Inr x \<longrightarrow>
      (Inr (list_ex (at_hour v h) (checkpoints s)) :: error + bool) = Inr x)"
    by (rule auto_read [OF assms [unfolded ExistsForHour_def]]) (drule sched_tables_eqD(1), simp)
  then show ?thesis by (auto simp: charged_hours_def list_ex_iff at_hour_def)
qed

lemma plan_GetByID_law:
  assumes "plan_GetByID i s = (p, t)"
  shows "tables t = tables s \<and> (\<forall>x. p = Inr x \<longrightarrow> plan_row_of s i = Some x)"
  using assms unfolding plan_GetByID_def select_plan_def
proof (cases rule: auto_stmt_cases)
  case (2 s1)
  then show ?thesis using sched_tables_eqD(2) [OF 2(1)]
    by (auto simp: plan_row_of_def split: option.splits)
qed (auto split: option.splits)

lemma repo_GetBalance_tables:
  assumes "repo_GetBalance c s = (m, t)"
  shows "tables t = tables s"
  using assms unfolding repo_GetBalance_def
  by (cases rule: auto_stmt_cases) (auto split: option.splits)

lemma RecordCheckpoint_law:
  fixes s :: "'r sched_db_scheme"
  assumes "RecordCheckpoint v h a x s = (u, t)"
  shows "sched_inv t = sched_inv s \<and> ledger t = ledger s \<and> vm_owner t = vm_owner s \<and> plan_row_of t = plan_row_of s \<and>
    (charged_hours t = charged_hours s \<or> charged_hours t = insert (v, h) (charged_hours s)) \<and>
    (u = Inr () \<longrightarrow> (v, h) \<in> charged_hours t)"
proof -
  let ?f = "\<lambda>s. if list_ex (at_hour v h) (checkpoints s) then (Inr (), s)
       else if v \<notin> vm_ID ` set (vms s) \<or>
               (case x of None \<Rightarrow> False | Some t \<Rightarrow> t \<notin> bt_ID ` set (ledger s))
       then (Inl ErrDB, s)
       else (Inr (), s\<lparr>checkpoints := checkpoints s @
               [\<lparr>cp_VMID = v, cp_ChargeHour = h, cp_Amount = a, cp_TransactionID = x\<rparr>]\<rparr>)"
  have same: "sched_inv t = sched_inv s \<and> ledger t = ledger s \<and> vm_owner t = vm_owner s \<and>
      plan_row_of t = plan_row_of s \<and> charged_hours t = charged_hours s" if "tables t = tables s"
    using sched_unchanged [OF that] by (auto simp: sched_same_def)
  have f: "sched_inv t = sched_inv s \<and> ledger t = ledger s \<and> vm_owner t = vm_owner s \<and> plan_row_of t = plan_row_of s \<and>
    (charged_hours t = charged_hours s \<or> charged_hours t = insert (v, h) (charged_hours s)) \<and>
    (w = Inr () \<longrightarrow> (v, h) \<in> charged_hours t)" if s1: "tables s1 = tables s" and run: "?f s1 = (w, t)" for s1 w
  proof -
    from sched_unchanged [OF s1] have eq: "sched_inv s1 = sched_inv s" "ledger s1 = ledger s"
      "vm_owner s1 = vm_owner s" "plan_row_of s1 = plan_row_of s" "charged_hours s1 = charged_hours s"
      by (auto simp: sched_same_def)
    show ?thesis
    proof (cases "list_ex (at_hour v h) (checkpoints s1)")
      case True
      then have "(v, h) \<in> charged_hours s1" by (auto simp: charged_hours_def list_ex_iff at_hour_def)
      then show ?thesis using True run eq by auto
    next
      case False
      then have "(t = s1 \<and> w = Inl ErrDB) \<or> t = s1\<lparr>checkpoints := checkpoints s1 @
               [\<lparr>cp_VMID = v, cp_ChargeHour = h, cp_Amount = a, cp_TransactionID = x\<rparr>]\<rparr>"
        using run by (auto split: if_splits)
      then show ?thesis
      proof
        assume t: "t = s1\<lparr>checkpoints := checkpoints s1 @
               [\<lparr>cp_VMID = v, cp_ChargeHour = h, cp_Amount = a, cp_TransactionID = x\<rparr>]\<rparr>"
        then have "sched_inv t = sched_inv s1" by (intro sched_inv_cong) simp_all
        moreover have "charged_hours t = insert (v, h) (charged_hours s1)"
          "vm_owner t = vm_owner s1" "plan_row_of t = plan_row_of s1" "ledger t = ledger s1"
          using t by (auto simp: charged_hours_def vm_owner_def plan_row_of_def fun_eq_iff)
        ultimately show ?thesis using eq by auto
      qed (use eq in auto)
    qed
  qed
  from assms show ?thesis unfolding RecordCheckpoint_def
  proof (cases rule: auto_stmt_cases)
    case 1
    then show ?thesis using same by auto
  next
    case (2 s1)
    then show ?thesis by (rule f)
  next
    case (3 s1 r1)
    then show ?thesis using f [OF 3(1,2)] by auto
  qed
qed

lemma lock_same:
  fixes s :: "'r sched_db_scheme"
  shows "sched_inv (s\<lparr>lock_session := l\<rparr>) = sched_inv s" "sched_same s (s\<lparr>lock_session := l\<rparr>)"
  by (intro sched_inv_cong; simp) (intro sched_same_cong; simp)

lemma sched_same_trans: "sched_same s t \<Longrightarrow> sched_same t u \<Longrightarrow> sched_same s u"
  by (simp add: sched_same_def)

lemma lock_stmt_law:
  fixes s :: "'r sched_db_scheme"
  assumes "auto_stmt f s = (b, t)" and "\<And>u. \<exists>x l. f u = (Inr x, u\<lparr>lock_session := l\<rparr>)"
  shows "sched_inv t = sched_inv s \<and> sched_same s t"
proof -
  have f: "sched_inv t = sched_inv s \<and> sched_same s t" if s1: "tables s1 = tables s" "f s1 = (w, t)" for s1 w
  proof -
    obtain l where "t = s1\<lparr>lock_session := l\<rparr>" using assms(2) [of s1] s1(2) by auto
    then show ?thesis
      using lock_same [where s = s1] sched_unchanged [OF s1(1)] sched_same_trans [of s s1 t] by simp
  qed
  from assms(1) show ?thesis
  proof (cases rule: auto_stmt_cases)
    case 1
    then show ?thesis using sched_unchanged by blast
  qed (use f in blast)+
qed

lemma lock_laws:
  fixes s :: "'r sched_db_scheme"
  shows "TryAdvisoryLock n s = (b, t) \<Longrightarrow> sched_inv t = sched_inv s \<and> sched_same s t"
    and "ReleaseAdvisoryLock n s = (u, t) \<Longrightarrow> sched_inv t = sched_inv s \<and> sched_same s t"
proof -
  have id: "u = u\<lparr>lock_session := lock_session u\<rparr>" for u :: "'r sched_db_scheme" by simp
  show "TryAdvisoryLock n s = (b, t) \<Longrightarrow> sched_inv t = sched_inv s \<and> sched_same s t"
    unfolding TryAdvisoryLock_def
    by (erule lock_stmt_law) (auto split: option.split prod.split intro: id)
  show "ReleaseAdvisoryLock n s = (u, t) \<Longrightarrow> sched_inv t = sched_inv s \<and> sched_same s t"
    unfolding ReleaseAdvisoryLock_def
    by (erule lock_stmt_law) (auto split: option.split prod.split intro: id)
qed

lemma posting_frame:
  fixes s :: "'r sched_db_scheme"
  assumes "transaction (post_body c ty a d ds rt ri k) s = (r, t)"
  shows "charged_hours t = charged_hours s \<and> vm_owner t = vm_owner s \<and> plan_row_of t = plan_row_of s \<and>
    vms_ok t = vms_ok s"
proof -
  obtain b l where "tables t = tables (s\<lparr>balances := b, ledger := l\<rparr>)" using post_frame [OF assms] by blast
  note t = sched_tables_eqD [OF this] vm_tables_eqD(2) [OF this]
  show ?thesis using t
    by (simp add: charged_hours_def vm_owner_def plan_row_of_def vms_ok_def fun_eq_iff)
qed

lemma find_unique:
  assumes "distinct (map f xs)" "x \<in> set xs"
  shows "find (\<lambda>y. f y = f x) xs = Some x"
  using assms by (induction xs) auto

lemma vm_owner_row:
  assumes "vms_ok s" "v \<in> set (vms s)"
  shows "vm_owner s (vm_ID v) = Some (vm_CustomerID v)"
  using find_unique [OF vms_ok_distinct [OF assms(1)] assms(2)] by (simp add: vm_owner_def)

lemma hourly_billing_config:
  fixes listing :: "('r sched_db_scheme, VM list) db_op"
  assumes "lists_billable listing"
  shows "hourly_billing CreditAccount DebitAccount ledger balances sched_inv
    (scheduler_config listing session) charged_hours vm_owner plan_row_of billable_rows sched_same"
proof (unfold_locales, goal_cases)
  case (1 s c a ds key r t)
  then show ?case
    using lr.credit_law [of s c a ds key r t] posting_frame [of c BillingTxTypeCredit a a ds None None key s r t]
    by (simp add: sched_inv_def CreditAccount_post)
next
  case (2 s c a ds rt ri key r t)
  then show ?case
    using lr.debit_law [of s c a ds rt ri key r t] posting_frame [of c BillingTxTypeDebit a "- a" ds rt ri key s r t]
    by (simp add: sched_inv_def DebitAccount_post)
next
  case (3 s)
  then show ?case by (simp add: sched_inv_def lr.keys_unique)
next
  case (4 s t)
  then show ?case by (auto simp: sched_same_def scheduler_config_def)
next
  case 5
  then show ?case by (simp add: scheduler_config_def)
next
  case (6 c a ds rt ri k s r t)
  then show ?case using posting_frame [OF 6 [unfolded DebitAccount_post]] by blast
next
  case (7 s b t)
  then show ?case using lock_laws(1) [of session s b t] by (simp add: scheduler_config_def)
next
  case (8 s u t)
  then show ?case using lock_laws(2) [of session s u t] by (simp add: scheduler_config_def)
next
  case (9 s l t)
  then have "tables t = tables s \<and> (\<forall>rows. l = Inr rows \<longrightarrow> set rows = billable_rows s)"
    using assms by (simp add: lists_billable_def scheduler_config_def)
  then show ?case using 9(1) sched_unchanged by blast
next
  case (10 s vm)
  then show ?case using vm_owner_row by (auto simp: billable_rows_def sched_inv_def scanVM_def)
next
  case (11 s v h b t)
  then have "tables t = tables s \<and> (\<forall>x. b = Inr x \<longrightarrow> x = ((v, h) \<in> charged_hours s))"
    using ExistsForHour_law by (simp add: scheduler_config_def)
  then show ?case using 11(1) sched_unchanged by blast
next
  case (12 s i p t)
  then have "tables t = tables s \<and> (\<forall>x. p = Inr x \<longrightarrow> plan_row_of s i = Some x)"
    using plan_GetByID_law by (simp add: scheduler_config_def)
  then show ?case using 12(1) sched_unchanged by blast
next
  case (13 s v h a x u t)
  then show ?case using RecordCheckpoint_law [of v h a x s u t] by (simp add: scheduler_config_def)
next
  case (14 s c m t)
  then have "tables t = tables s" using repo_GetBalance_tables by (simp add: scheduler_config_def)
  then show ?case using 14(1) sched_unchanged by blast
qed

text \<open>The listing of the repository has an ambiguous select list, so it never returns rows.\<close>

lemma ListBillableVMs_error: "ListBillableVMs s = (Inl ErrDB, pop_fault s)"
proof -
  have "ambiguous_columns vmSelectCols customers_columns \<noteq> []" by code_simp
  then show ?thesis by (simp add: ListBillableVMs_def auto_stmt_def Let_def split: fault.split)
qed

lemma lists_billable_repo: "lists_billable ListBillableVMs"
  by (simp add: lists_billable_def ListBillableVMs_error)

text \<open>The listing its comment describes.\<close>

definition documented_listing :: "('r sched_db_scheme, VM list) db_op" where
  "documented_listing =
     auto_stmt (\<lambda>s. (Inr (map scanVM (sort_key vm_ID (filter (billable s) (vms s)))), s))"

lemma lists_billable_documented: "lists_billable (documented_listing :: ('r sched_db_scheme, VM list) db_op)"
  unfolding lists_billable_def
proof (intro allI impI)
  fix s t :: "'r sched_db_scheme" and l assume "documented_listing s = (l, t)"
  note run = this [unfolded documented_listing_def]
  have "tables t = tables s \<and> (\<forall>x. l = Inr x \<longrightarrow>
      Inr (map scanVM (sort_key vm_ID (filter (billable s) (vms s)))) = (Inr x :: error + VM list))"
  proof (rule auto_read [OF run])
    fix u v :: "'r sched_db_scheme" assume "tables u = tables v"
    note eq = sched_tables_eqD(3,5) [OF this]
    have "billable u = billable v" using eq by (intro ext) (simp add: billable_def)
    then show "Inr (map scanVM (sort_key vm_ID (filter (billable u) (vms u)))) =
        (Inr (map scanVM (sort_key vm_ID (filter (billable v) (vms v)))) :: error + VM list)"
      unfolding eq by simp
  qed
  moreover have "set (map scanVM (sort_key vm_ID (filter (billable s) (vms s)))) = billable_rows s"
    by (auto simp: billable_rows_def)
  ultimately show "tables t = tables s \<and> (\<forall>rows. l = Inr rows \<longrightarrow> set rows = billable_rows s)"
    by (metis Inr_inject)
qed

interpretation hb: hourly_billing CreditAccount DebitAccount ledger balances sched_inv
    "scheduler_config ListBillableVMs session" charged_hours vm_owner plan_row_of billable_rows sched_same
  for session
  by (rule hourly_billing_config [OF lists_billable_repo])

interpretation hdoc: hourly_billing CreditAccount DebitAccount ledger balances sched_inv
    "scheduler_config documented_listing session" charged_hours vm_owner plan_row_of billable_rows sched_same
  for session
  by (rule hourly_billing_config [OF lists_billable_documented])

section \<open>Histories\<close>

definition billing_inv :: "'r sched_db_scheme \<Rightarrow> bool" where
  "billing_inv s \<longleftrightarrow> sched_inv s \<and>
     (\<forall>(v, h)\<in>charged_hours s. \<exists>c. vm_owner s v = Some c \<and>
        (\<exists>bt\<in>set (ledger s). has_key c (hourly_key v h) bt \<and> hourly_entry v bt))"

text \<open>A controller runs a cycle, VMs and plans are administered, the ledger is used by others, time
  passes.\<close>

datatype sched_cmd =
    SCycle nat
  | SVm vm_cmd
  | SPlan plan_cmd
  | SLedger ledger_cmd
  | STick nat

fun exec_sched ::
  "('r sched_db_scheme, VM list) db_op \<Rightarrow> sched_cmd \<Rightarrow> 'r sched_db_scheme \<Rightarrow> 'r sched_db_scheme" where
  "exec_sched listing (SCycle session) s = snd (RunBillingCycle (scheduler_config listing session) s)"
| "exec_sched listing (SVm c) s = snd (exec_vm c s)"
| "exec_sched listing (SPlan c) s = snd (exec_plan c s)"
| "exec_sched listing (SLedger c) s = snd (exec_cmd c s)"
| "exec_sched listing (STick n) s = s\<lparr>clock := clock s + int n\<rparr>"

fun run_sched ::
  "('r sched_db_scheme, VM list) db_op \<Rightarrow> sched_cmd list \<Rightarrow> 'r sched_db_scheme \<Rightarrow> 'r sched_db_scheme" where
  "run_sched listing [] s = s"
| "run_sched listing (c # cs) s = run_sched listing cs (exec_sched listing c s)"

lemma billing_invI:
  assumes "billing_inv s" "sched_inv t" "charged_hours t = charged_hours s"
    "\<And>v c. vm_owner s v = Some c \<Longrightarrow> vm_owner t v = Some c" "set (ledger s) \<subseteq> set (ledger t)"
  shows "billing_inv t"
  unfolding billing_inv_def
proof (intro conjI ballI)
  fix x assume "x \<in> charged_hours t"
  then obtain v h where x: "x = (v, h)" "(v, h) \<in> charged_hours s" using assms(3) by (cases x) auto
  then have "\<exists>c. vm_owner s v = Some c \<and>
        (\<exists>bt\<in>set (ledger s). has_key c (hourly_key v h) bt \<and> hourly_entry v bt)"
    using assms(1) unfolding billing_inv_def by blast
  then show "case x of (v, h) \<Rightarrow> \<exists>c. vm_owner t v = Some c \<and>
        (\<exists>bt\<in>set (ledger t). has_key c (hourly_key v h) bt \<and> hourly_entry v bt)"
    using assms(4,5) x(1) by blast
qed (rule assms(2))

text \<open>The owner of a VM does not change.\<close>

lemma vm_owner_step:
  fixes s t :: "'r sched_db_scheme"
  assumes "vms_ok s" "vm_law c s t" "vm_owner s i = Some w"
  shows "vm_owner t i = Some w"
proof -
  from assms(3) obtain v where "find (\<lambda>v. vm_ID v = i) (vms s) = Some v" "vm_CustomerID v = w"
    by (auto simp: vm_owner_def)
  then obtain n where n: "n < length (vms s)" "vm_ID (vms s ! n) = i" "vm_CustomerID (vms s ! n) = w"
    by (auto simp: find_Some_iff)
  from vm_step_nth [OF _ n(1)] assms(2) have "n < length (vms t)" "row_step c (vms s ! n) (vms t ! n)"
    using n(1) by (auto simp: vm_law_def dest: vm_step_nth)
  then have "vms t ! n \<in> set (vms t)" "vm_ID (vms t ! n) = i" "vm_CustomerID (vms t ! n) = w"
    using n by (auto simp: row_step_def)
  then show ?thesis using vm_owner_row [of t "vms t ! n"] assms(2) by (simp add: vm_law_def)
qed

lemma vm_law_frame:
  fixes s t :: "'r sched_db_scheme"
  assumes "vm_law c s t"
  shows "ledger t = ledger s" "checkpoints t = checkpoints s" "balances t = balances s"
proof -
  have "tables t = tables (s\<lparr>vms := vms t\<rparr>)" using assms by (simp add: vm_law_def)
  from arg_cong [OF this, of ledger] arg_cong [OF this, of checkpoints] arg_cong [OF this, of balances]
  show "ledger t = ledger s" "checkpoints t = checkpoints s" "balances t = balances s" by simp_all
qed

text \<open>The plan statements leave the other tables alone.\<close>

definition plan_frame :: "'r sched_db_scheme \<Rightarrow> 'r sched_db_scheme \<Rightarrow> bool" where
  "plan_frame s t \<longleftrightarrow> (\<exists>ps. tables t = tables (s\<lparr>plans := ps\<rparr>))"

lemma tables_plans_update: "tables (s\<lparr>plans := ps\<rparr>) = (tables s)\<lparr>plans := ps\<rparr>"
  by (simp add: tables_def)

lemma plan_frame_same: "tables t = tables s \<Longrightarrow> plan_frame s t"
  unfolding plan_frame_def by (rule exI [of _ "plans s"]) simp

lemma plan_frame_trans: "plan_frame s t \<Longrightarrow> plan_frame t u \<Longrightarrow> plan_frame s u"
  by (auto simp: plan_frame_def tables_plans_update)

lemma plan_frame_next_id: "plan_frame s (s\<lparr>next_id := n\<rparr>)"
  by (rule plan_frame_same) simp

lemma write_plans_frame: "plan_frame s (snd (write_plans rows x s))"
  by (auto simp: write_plans_def plan_frame_def intro: plan_frame_same [unfolded plan_frame_def] split: option.split)

lemma auto_stmt_plan_frame:
  fixes s :: "'r sched_db_scheme"
  assumes "\<And>u :: 'r sched_db_scheme. plan_frame u (snd (f u))"
  shows "plan_frame s (snd (auto_stmt f s))"
proof -
  obtain r t where rt: "auto_stmt f s = (r, t)" by (cases "auto_stmt f s")
  from rt have "plan_frame s t"
  proof (cases rule: auto_stmt_cases)
    case 1
    then show ?thesis by (intro plan_frame_same)
  next
    case (2 s1)
    then show ?thesis using assms [of s1] plan_frame_trans [OF plan_frame_same] by auto
  next
    case (3 s1 r1)
    then show ?thesis using assms [of s1] plan_frame_trans [OF plan_frame_same] by auto
  qed
  with rt show ?thesis by simp
qed

lemma plan_op_frames:
  fixes s :: "'r sched_db_scheme"
  shows "plan_frame s (snd (plan_Create p s))" "plan_frame s (snd (plan_Update p s))"
    "plan_frame s (snd (set_plan i f s))" "plan_frame s (snd (plan_Delete i s))"
    "plan_frame s (snd (select_plan P s))"
proof -
  show "plan_frame s (snd (plan_Create p s))" unfolding plan_Create_def
    by (rule auto_stmt_plan_frame)
      (auto simp: Let_def intro: plan_frame_trans [OF plan_frame_next_id write_plans_frame])
  show "plan_frame s (snd (plan_Update p s))" unfolding plan_Update_def
    by (rule auto_stmt_plan_frame) (auto split: option.split intro: write_plans_frame plan_frame_same)
  show "plan_frame s (snd (set_plan i f s))" unfolding set_plan_def
    by (rule require_affected_keeps [where P = "plan_frame s"], rule auto_stmt_plan_frame) (rule write_plans_frame)
  show "plan_frame s (snd (plan_Delete i s))" unfolding plan_Delete_def
    by (rule require_affected_keeps [where P = "plan_frame s"], rule auto_stmt_plan_frame)
      (auto intro: write_plans_frame plan_frame_same)
  show "plan_frame s (snd (select_plan P s))"
    by (rule plan_frame_same) (rule select_plan_tables)
qed

lemma bind_plan_frame:
  assumes "plan_frame s (snd (m s))" "\<And>x u. plan_frame u (snd (f x u))"
  shows "plan_frame s (snd (bind_db m f s))"
  using assms plan_frame_trans by (cases "m s"; cases "fst (m s)") (force simp: bind_db_def)+

lemma exec_plan_frame:
  fixes s :: "'r sched_db_scheme"
  shows "plan_frame s (snd (exec_plan c s))"
proof -
  have slug: "plan_frame u (snd (GetBySlug x u))" for x and u :: "'r sched_db_scheme"
    by (simp add: GetBySlug_def plan_op_frames)
  have ret: "plan_frame u (snd (return_db () u))" for u :: "'r sched_db_scheme"
    by (rule plan_frame_same) (simp add: return_db_def)
  have cr: "plan_frame u (snd (service_plan_Create p u))" for p and u :: "'r sched_db_scheme"
    using slug [of u "plan_Slug p"] plan_op_frames(1) plan_frame_trans
    by (force simp: service_plan_Create_def split: prod.splits sum.splits)
  have up: "plan_frame u (snd (service_plan_Update p u))" for p and u :: "'r sched_db_scheme"
    unfolding service_plan_Update_def plan_GetByID_def
  proof (rule bind_plan_frame [OF plan_op_frames(5)])
    fix x and u :: "'r sched_db_scheme"
    show "plan_frame u (snd (if plan_Slug p \<noteq> plan_Slug x then
         (case GetBySlug (plan_Slug p) u of
            (Inr conflict, s1) \<Rightarrow>
              if plan_ID conflict \<noteq> plan_ID p then (Inl (ErrMsg ''plan with slug already exists''), s1)
              else plan_Update p s1
          | (Inl e, s1) \<Rightarrow> plan_Update p s1)
       else plan_Update p u))"
      using slug [of u "plan_Slug p"] plan_op_frames(2) plan_frame_trans
      by (force split: prod.splits sum.splits)
  qed
  show ?thesis
  proof (cases c)
    case (PCreate p)
    show ?thesis unfolding PCreate exec_plan.simps by (rule bind_plan_frame) (rule cr ret)+
  next
    case (PUpdate p)
    show ?thesis unfolding PUpdate exec_plan.simps by (rule bind_plan_frame) (rule up ret)+
  next
    case (PDelete i)
    show ?thesis unfolding PDelete exec_plan.simps service_plan_Delete_def plan_GetByID_def
      by (rule bind_plan_frame) (rule plan_op_frames)+
  qed (simp_all add: UpdateActive_def UpdateSortOrder_def plan_op_frames)
qed

lemma cycle_inv:
  fixes s :: "'r sched_db_scheme"
  assumes "lists_billable listing" "billing_inv s" "RunBillingCycle (scheduler_config listing session) s = (rep, t)"
  shows "billing_inv t"
proof -
  note cfg = hourly_billing_config [OF assms(1), of session]
  have "hourly_billing.billing_ok ledger sched_inv charged_hours vm_owner s"
    using assms(2) by (simp add: hourly_billing.billing_ok_def [OF cfg] hourly_billing.backed_def [OF cfg] billing_inv_def)
  from hourly_billing.cycle_law [OF cfg this assms(3)] show ?thesis
    by (simp add: hourly_billing.billing_ok_def [OF cfg] hourly_billing.backed_def [OF cfg] billing_inv_def)
qed

lemma exec_sched_inv:
  fixes s :: "'r sched_db_scheme"
  assumes "lists_billable listing" "billing_inv s"
  shows "billing_inv (exec_sched listing c s)"
proof (cases c)
  case (SCycle session)
  then show ?thesis using cycle_inv [OF assms] by (metis exec_sched.simps(1) prod.collapse)
next
  case (SVm x)
  have ok: "sched_inv s" using assms(2) by (simp add: billing_inv_def)
  have law: "vm_law x s (snd (exec_vm x s))"
    using exec_vm_law [of s x] ok by (metis prod.collapse sched_inv_def)
  note fr = vm_law_frame [OF law]
  have "sched_inv (snd (exec_vm x s))"
    using ok law fr by (simp add: sched_inv_def ledger_inv_def vm_law_def)
  moreover have "charged_hours (snd (exec_vm x s)) = charged_hours s" using fr by (simp add: charged_hours_def)
  ultimately show ?thesis unfolding SVm exec_sched.simps
    using ok fr by (intro billing_invI [OF assms(2)] vm_owner_step [OF _ law]) (auto simp: sched_inv_def)
next
  case (SPlan x)
  obtain ps where "tables (snd (exec_plan x s)) = tables (s\<lparr>plans := ps\<rparr>)"
    using exec_plan_frame [of s x] by (auto simp: plan_frame_def)
  note eq = sched_tables_eqD [OF this] vm_tables_eqD(2) [OF this] tables_eqD(1) [OF this]
  have "sched_inv (snd (exec_plan x s))" using sched_inv_cong [of "snd (exec_plan x s)" s] eq assms(2)
    by (simp add: billing_inv_def)
  moreover have "charged_hours (snd (exec_plan x s)) = charged_hours s"
    "vm_owner (snd (exec_plan x s)) = vm_owner s" "ledger (snd (exec_plan x s)) = ledger s"
    using eq by (simp_all add: charged_hours_def vm_owner_def fun_eq_iff)
  ultimately show ?thesis unfolding SPlan exec_sched.simps
    by (intro billing_invI [OF assms(2)]) simp_all
next
  case (SLedger x)
  have ok: "ledger_inv s" "vms_ok s" using assms(2) by (simp_all add: billing_inv_def sched_inv_def)
  from exec_cmd_step [OF ok(1), of x] obtain new where n: "ledger_inv (snd (exec_cmd x s))"
    "ledger (snd (exec_cmd x s)) = ledger s @ new" by blast
  have "charged_hours (snd (exec_cmd x s)) = charged_hours s \<and> vm_owner (snd (exec_cmd x s)) = vm_owner s \<and>
      vms_ok (snd (exec_cmd x s)) = vms_ok s"
    using posting_frame [of _ _ _ _ _ _ _ _ s "fst (exec_cmd x s)" "snd (exec_cmd x s)"]
    by (cases x) (auto simp: ledger_CreditAccount_def ledger_DebitAccount_def CreditAccount_post
        DebitAccount_post throw_db_def)
  then show ?thesis unfolding SLedger exec_sched.simps
    using n ok by (intro billing_invI [OF assms(2)]) (auto simp: sched_inv_def)
next
  case (STick n)
  have "sched_inv (s\<lparr>clock := clock s + int n\<rparr>)" using assms(2) sched_inv_cong [of "s\<lparr>clock := clock s + int n\<rparr>" s]
    by (simp add: billing_inv_def)
  then show ?thesis unfolding STick exec_sched.simps
    by (intro billing_invI [OF assms(2)]) (simp_all add: charged_hours_def vm_owner_def)
qed

section \<open>Properties\<close>

lemma hourly_entry_unique:
  fixes t :: "'r sched_db_scheme"
  assumes "billing_inv t" "(v, h) \<in> charged_hours t" "vm_owner t v = Some c"
  shows "\<exists>!bt. bt \<in> set (ledger t) \<and> has_key c (hourly_key v h) bt \<and> hourly_entry v bt"
proof -
  have d: "distinct (ledger_keys (ledger t))"
    using assms(1) by (simp add: billing_inv_def sched_inv_def ledger_inv_def)
  obtain bt where "bt \<in> set (ledger t)" "has_key c (hourly_key v h) bt" "hourly_entry v bt"
    using assms unfolding billing_inv_def by fastforce
  then show ?thesis using ledger_keys_inj [OF d] by blast
qed

definition ex_sched_db :: "fault list \<Rightarrow> sched_db" where
  "ex_sched_db fs =
     plan_db.extend (ex_plan_db fs [ex_vm ''v1'' ''c1'' ''running''] [ex_plan ''p1'' ''small''])
       \<lparr>checkpoints = [], lock_session = None\<rparr>"

lemma ex_sched_db_sel:
  "ledger (ex_sched_db fs) = []" "balances (ex_sched_db fs) = [''c1'' \<mapsto> 0]" "checkpoints (ex_sched_db fs) = []"
  "vms (ex_sched_db fs) = [ex_vm ''v1'' ''c1'' ''running'']" "backend_required (ex_sched_db fs)"
  "plans (ex_sched_db fs) = [ex_plan ''p1'' ''small'']" "faults (ex_sched_db fs) = fs" "clock (ex_sched_db fs) = 7"
  "billing_providers (ex_sched_db fs) = [''c1'' \<mapsto> ''native'']"
  by (simp_all add: ex_sched_db_def ex_plan_db_def ex_vm_db_def plan_db.defs vm_db.defs)

lemma ex_vm_sel:
  "vm_ID (ex_vm i c st) = i" "vm_CustomerID (ex_vm i c st) = c" "vm_Status (ex_vm i c st) = st"
  "vm_PlanID (ex_vm i c st) = ''p1''" "active (ex_vm i c st)"
  by (simp_all add: ex_vm_def active_def)

lemma ex_rate: "EffectiveHourlyRate (ex_plan i n) ''running'' = 7"
  by (simp add: EffectiveHourlyRate_def ex_plan_def VMStatusStopped_def)

lemmas ex_sched = ex_sched_db_sel ex_vm_sel ex_rate charged_hours_def plan_row_of_def vm_owner_def
  billable_def VMStatusRunning_def

lemma ex_sched_db_inv: "billing_inv (ex_sched_db fs)"
proof -
  have "vm_violation True [ex_vm ''v1'' ''c1'' ''running''] = None" by code_simp
  then show ?thesis
    by (simp add: billing_inv_def sched_inv_def vms_ok_def ledger_inv_def balances_ok_def entries_ok_def
        ledger_keys_def List.map_filter_def ex_sched)
qed



text \<open>C14. Over any history of billing cycles by any controllers, VM and plan administration, other
  ledger traffic and passing time, with any faults, every checkpoint is backed by the debit of its VM
  and hour on the owner's account, and the ledger and VM invariants hold. Keys of different VMs or
  hours never coincide, so no charge stands for two.\<close>

theorem billing_history_sound:
  fixes s :: "'r sched_db_scheme"
  assumes "billing_inv s" and "lists_billable listing"
  shows "billing_inv (run_sched listing cmds s) \<and>
    (\<forall>v h v' h'. hourly_key v h = hourly_key v' h' \<longrightarrow> v = v' \<and> h = h')"
proof
  show "billing_inv (run_sched listing cmds s)"
    using assms(1) by (induction cmds arbitrary: s) (simp_all add: exec_sched_inv [OF assms(2)])
qed (use hourly_key_inj in blast)

text \<open>A charge that fails at its checkpoint, an hour, a change of status, another controller.\<close>

theorem billing_history_sound_witness:
  "billing_inv (run_sched documented_listing
      [SCycle 1, STick 3600, SVm (VTransition ''v1'' ''running'' ''stopped''), SCycle 2, SPlan (PDelete ''p1'')]
      (ex_sched_db (replicate 10 NoFault @ [StmtFails])))"
  using billing_history_sound [OF ex_sched_db_inv lists_billable_documented] by blast

text \<open>C13. However the database calls of any number of controllers charging VMs at the same time are
  interleaved, and whatever faults they meet, every charge that reports success has exactly one
  debit for its VM and hour, only such debits are added, and the invariant holds.\<close>

theorem concurrent_charges_once:
  fixes s :: "'r sched_db_scheme"
  assumes "billing_inv s" and "lists_billable listing"
    and "\<forall>(vm, h, pc)\<in>set cs. pc = AtCheck \<and> vm_owner s (vm_ID vm) = Some (vm_CustomerID vm)"
    and "interleave (scheduler_config listing session) sched cs s = (cs', t)"
  shows "billing_inv t \<and>
    (\<forall>(vm, h, pc)\<in>set cs'. pc = Finished (Inr True) \<longrightarrow>
       (\<exists>!bt. bt \<in> set (ledger t) \<and> has_key (vm_CustomerID vm) (hourly_key (vm_ID vm) h) bt \<and>
              hourly_entry (vm_ID vm) bt)) \<and>
    (\<exists>new. ledger t = ledger s @ new \<and> (\<forall>bt\<in>set new. \<exists>v h. hourly_entry v bt \<and>
       bt_IdempotencyKey bt = Some (hourly_key v h)))"
proof -
  note cfg = hourly_billing_config [OF assms(2), of session]
  note defs = hourly_billing.billing_ok_def [OF cfg] hourly_billing.backed_def [OF cfg] billing_inv_def
  have ok: "hourly_billing.billing_ok ledger sched_inv charged_hours vm_owner s"
    using assms(1) by (simp add: defs)
  have "\<forall>c\<in>set cs. hourly_billing.charge_ok ledger charged_hours vm_owner plan_row_of s c"
    using assms(3) by (auto simp: hourly_billing.charge_ok.simps [OF cfg])
  from hourly_billing.interleave_law [OF cfg ok this assms(4)]
  have t: "hourly_billing.billing_ok ledger sched_inv charged_hours vm_owner t"
    and g: "hourly_billing.grows ledger charged_hours vm_owner plan_row_of s t"
    and fin: "\<forall>c\<in>set cs'. hourly_billing.charge_ok ledger charged_hours vm_owner plan_row_of t c" by blast+
  have inv: "billing_inv t" using t by (simp add: defs)
  have "\<exists>!bt. bt \<in> set (ledger t) \<and> has_key (vm_CustomerID vm) (hourly_key (vm_ID vm) h) bt \<and> hourly_entry (vm_ID vm) bt"
    if "(vm, h, Finished (Inr True)) \<in> set cs'" for vm h
  proof -
    from fin that have "hourly_billing.charge_ok ledger charged_hours vm_owner plan_row_of t (vm, h, Finished (Inr True))"
      by blast
    then have "(vm_ID vm, h) \<in> charged_hours t" "vm_owner t (vm_ID vm) = Some (vm_CustomerID vm)"
      by (simp_all add: hourly_billing.charge_ok.simps [OF cfg])
    then show ?thesis by (rule hourly_entry_unique [OF inv])
  qed
  moreover have "\<exists>new. ledger t = ledger s @ new \<and> (\<forall>bt\<in>set new. \<exists>v h. hourly_entry v bt \<and>
       bt_IdempotencyKey bt = Some (hourly_key v h))"
    using g unfolding hourly_billing.grows_def [OF cfg] by blast
  ultimately show ?thesis using inv by blast
qed

text \<open>Two controllers charge \<open>v1\<close> for the same hour in lockstep: both find no checkpoint, both ask for
  the debit, both succeed, and there is one entry.\<close>

theorem concurrent_charges_once_witness:
  "\<exists>!bt. bt \<in> set (ledger (snd (interleave (scheduler_config documented_listing 1) [0, 1, 0, 1, 0, 1, 0, 1]
       [(ex_vm ''v1'' ''c1'' ''running'', 0, AtCheck), (ex_vm ''v1'' ''c1'' ''running'', 0, AtCheck)] (ex_sched_db [])))) \<and>
     has_key ''c1'' (hourly_key ''v1'' 0) bt \<and> hourly_entry ''v1'' bt"
proof -
  let ?v = "ex_vm ''v1'' ''c1'' ''running''"
  let ?cs = "[(?v, 0::nat, AtCheck), (?v, 0, AtCheck)]"
  let ?r = "interleave (scheduler_config documented_listing 1) [0, 1, 0, 1, 0, 1, 0, 1] ?cs (ex_sched_db [])"
  have start: "\<forall>(vm, h, pc)\<in>set ?cs. pc = AtCheck \<and> vm_owner (ex_sched_db []) (vm_ID vm) = Some (vm_CustomerID vm)"
    by (simp add: ex_sched)
  have "fst ?r = [(?v, 0, Finished (Inr True)), (?v, 0, Finished (Inr True))]" by code_simp
  then have fin: "(?v, 0, Finished (Inr True)) \<in> set (fst ?r)" by simp
  from concurrent_charges_once [OF ex_sched_db_inv lists_billable_documented start surjective_pairing] fin
  have "\<exists>!bt. bt \<in> set (ledger (snd ?r)) \<and> has_key (vm_CustomerID ?v) (hourly_key (vm_ID ?v) 0) bt \<and>
      hourly_entry (vm_ID ?v) bt" by blast
  then show ?thesis unfolding ex_vm_sel .
qed

text \<open>C15. The hourly charge goes through: without faults, a running or stopped VM with a positive rate
  that has not been charged for the hour is charged, its owner's balance falls by the rate, and the
  hour's checkpoint is recorded.\<close>

theorem hourly_charge_goes_through:
  fixes s :: "'r sched_db_scheme"
  assumes "faults s = []" and "vm_ID v \<in> vm_ID ` set (vms s)"
    and "vm_Status v = VMStatusRunning \<or> vm_Status v = VMStatusStopped"
    and "(vm_ID v, h) \<notin> charged_hours s"
    and "plan_row_of s (vm_PlanID v) = Some p" and "0 < sint (EffectiveHourlyRate p (vm_Status v))"
    and "balances s (vm_CustomerID v) = Some b"
    and "\<forall>e\<in>set (ledger s). \<not> has_key (vm_CustomerID v) (hourly_key (vm_ID v) h) e"
    and "gen_uuid s (next_id s) \<notin> bt_ID ` set (ledger s)"
  shows "\<exists>t. chargeVM (scheduler_config listing session) v h s = (Inr True, t) \<and>
    balances t (vm_CustomerID v) = Some (b - EffectiveHourlyRate p (vm_Status v)) \<and>
    (vm_ID v, h) \<in> charged_hours t"
proof -
  let ?a = "EffectiveHourlyRate p (vm_Status v)"
  let ?ds = "''Hourly charge: '' @ vm_Hostname v @ '' ('' @ plan_Name p @ '')''"
  note post = post_succeeds [OF assms(1,7,8,9), of BillingTxTypeDebit ?a "- ?a" ?ds
      "Some BillingRefTypeVMUsage" "Some (vm_ID v)"]
  obtain bt s1 where d: "DebitAccount (vm_CustomerID v) ?a ?ds (Some BillingRefTypeVMUsage) (Some (vm_ID v))
      (Some (hourly_key (vm_ID v) h)) s = (Inr bt, s1)" "faults s1 = []" "bt \<in> set (ledger s1)"
      "balances s1 (vm_CustomerID v) = Some (b - ?a)" "vms s1 = vms s" "checkpoints s1 = checkpoints s"
    using post assms(1) by (simp add: DebitAccount_post Let_def)
  have none: "\<not> list_ex (at_hour (vm_ID v) h) (checkpoints s)"
    using assms(4) by (force simp: charged_hours_def list_ex_iff at_hour_def)
  have nz: "?a \<noteq> 0" "\<not> sint ?a \<le> 0" using assms(6) by auto
  have e: "ExistsForHour (vm_ID v) h s = (Inr False, s)"
    using assms(1) none by (simp add: ExistsForHour_def auto_stmt_def)
  have p: "plan_GetByID (vm_PlanID v) s = (Inr p, s)"
    using assms(1,5) by (simp add: plan_GetByID_def select_plan_def auto_stmt_def plan_row_of_def)
  have "bt_ID bt \<in> bt_ID ` set (ledger s1)" using d(3) by simp
  then obtain t where r: "RecordCheckpoint (vm_ID v) h ?a (Some (bt_ID bt)) s1 = (Inr (), t)"
    "balances t = balances s1"
    using d(2,5,6) none assms(2) by (simp add: RecordCheckpoint_def auto_stmt_def)
  have "chargeVM (scheduler_config listing session) v h s = (Inr True, t)"
    using e p nz d(1) r(1) assms(3)
    by (auto simp: chargeVM_def scheduler_config_def bind_db_def return_db_def ledger_DebitAccount_def Let_def)
  moreover have "(vm_ID v, h) \<in> charged_hours t" using RecordCheckpoint_law [OF r(1)] by simp
  ultimately show ?thesis using d(4) r(2) by auto
qed

theorem hourly_charge_goes_through_witness:
  "\<exists>t. chargeVM (scheduler_config documented_listing 1) (ex_vm ''v1'' ''c1'' ''running'') 0 (ex_sched_db []) = (Inr True, t) \<and>
     balances t ''c1'' = Some (0 - 7) \<and> (''v1'', 0) \<in> charged_hours t"
proof -
  let ?s = "ex_sched_db []" and ?v = "ex_vm ''v1'' ''c1'' ''running''" and ?p = "ex_plan ''p1'' ''small''"
  have h: "faults ?s = []" "vm_ID ?v \<in> vm_ID ` set (vms ?s)"
    "vm_Status ?v = VMStatusRunning \<or> vm_Status ?v = VMStatusStopped" "(vm_ID ?v, 0) \<notin> charged_hours ?s"
    "plan_row_of ?s (vm_PlanID ?v) = Some ?p" "0 < sint (EffectiveHourlyRate ?p (vm_Status ?v))"
    "balances ?s (vm_CustomerID ?v) = Some 0"
    "\<forall>e\<in>set (ledger ?s). \<not> has_key (vm_CustomerID ?v) (hourly_key (vm_ID ?v) 0) e"
    "gen_uuid ?s (next_id ?s) \<notin> bt_ID ` set (ledger ?s)"
    by (simp_all add: ex_sched) (simp_all add: ex_plan_def)
  show ?thesis
    using hourly_charge_goes_through [OF h, of documented_listing 1] by (simp add: ex_vm_sel ex_rate)
qed

text \<open>The lock statements touch no table of the billing.\<close>

lemma lock_stmt_frame:
  fixes s t :: "'r sched_db_scheme"
  assumes "auto_stmt f s = (b, t)" "\<And>u. \<exists>x l. f u = (Inr x, u\<lparr>lock_session := l\<rparr>)"
  shows "ledger t = ledger s \<and> balances t = balances s \<and> checkpoints t = checkpoints s"
proof -
  have eq: "ledger u = ledger s \<and> balances u = balances s \<and> checkpoints u = checkpoints s"
    if "tables u = tables s" for u
    using tables_eqD [OF that] sched_tables_eqD [OF that] by simp
  have f: "ledger (snd (f u)) = ledger u \<and> balances (snd (f u)) = balances u \<and> checkpoints (snd (f u)) = checkpoints u" for u
    using assms(2) [of u] by auto
  from assms(1) show ?thesis
  proof (cases rule: auto_stmt_cases)
    case (2 s1)
    then show ?thesis using eq [of s1] f [of s1] by simp
  next
    case (3 s1 r1)
    then show ?thesis using eq [of s1] f [of s1] by simp
  qed (use eq in blast)
qed

lemma lock_frames:
  fixes s t :: "'r sched_db_scheme"
  shows "TryAdvisoryLock n s = (b, t) \<Longrightarrow> ledger t = ledger s \<and> balances t = balances s \<and> checkpoints t = checkpoints s"
    and "ReleaseAdvisoryLock n s = (u, t) \<Longrightarrow> ledger t = ledger s \<and> balances t = balances s \<and> checkpoints t = checkpoints s"
proof -
  have id: "u = u\<lparr>lock_session := lock_session u\<rparr>" for u :: "'r sched_db_scheme" by simp
  show "TryAdvisoryLock n s = (b, t) \<Longrightarrow> ledger t = ledger s \<and> balances t = balances s \<and> checkpoints t = checkpoints s"
    unfolding TryAdvisoryLock_def
    by (erule lock_stmt_frame) (auto split: option.split prod.split intro: id)
  show "ReleaseAdvisoryLock n s = (u, t) \<Longrightarrow> ledger t = ledger s \<and> balances t = balances s \<and> checkpoints t = checkpoints s"
    unfolding ReleaseAdvisoryLock_def
    by (erule lock_stmt_frame) (auto split: option.split prod.split intro: id)
qed

text \<open>C16. With the listing the repository implements, no cycle ever charges anybody: PostgreSQL refuses
  the ambiguous select list of \<open>ListBillableVMs\<close>, so every cycle ends before the first charge and
  leaves ledger, balances and checkpoints as they are.\<close>

theorem native_billing_never_charges:
  fixes s :: "'r sched_db_scheme"
  shows "case RunBillingCycle (scheduler_config ListBillableVMs session) s of (rep, t) \<Rightarrow>
    rep \<in> {LockError, LockHeld, ListError} \<and> ledger t = ledger s \<and> balances t = balances s \<and>
    checkpoints t = checkpoints s"
proof -
  obtain b s1 where 1: "TryAdvisoryLock session s = (b, s1)" by (cases "TryAdvisoryLock session s")
  obtain u s2 where 2: "ReleaseAdvisoryLock session (pop_fault s1) = (u, s2)"
    by (cases "ReleaseAdvisoryLock session (pop_fault s1)")
  have pop: "ledger (pop_fault s1) = ledger s1 \<and> balances (pop_fault s1) = balances s1 \<and>
      checkpoints (pop_fault s1) = checkpoints s1" by (simp add: pop_fault_def)
  show ?thesis
    using lock_frames(1) [OF 1] lock_frames(2) [OF 2] pop 1 2
    by (auto simp: RunBillingCycle_def scheduler_config_def ListBillableVMs_error split: sum.splits)
qed

end
