(* ===== verification/Circuit_Breaker.thy ===== *)
theory Circuit_Breaker
  imports Main
begin

text \<open>
  \<^verbatim>\<open>services/circuit_breaker.go\<close>: one breaker per key (a node for failovers), closed, open or
  half-open. Every method holds the mutex for its whole body, so a run of the program is a
  sequence of method calls, each at the instant \<open>time.Now()\<close> returns (a number of nanoseconds).
\<close>

section \<open>Data\<close>

datatype CircuitBreakerState = CircuitBreakerClosed | CircuitBreakerOpen | CircuitBreakerHalfOpen

record CircuitBreakerConfig =
  FailureThreshold :: int
  SuccessThreshold :: int
  CooldownPeriod :: int
  MaxRetries :: int

definition second :: int where "second = 1000000000"

definition DefaultCircuitBreakerConfig :: CircuitBreakerConfig where
  "DefaultCircuitBreakerConfig =
     \<lparr>FailureThreshold = 5, SuccessThreshold = 2, CooldownPeriod = 30 * second, MaxRetries = 3\<rparr>"

definition NewFailoverCircuitBreaker :: CircuitBreakerConfig where
  "NewFailoverCircuitBreaker =
     \<lparr>FailureThreshold = 2, SuccessThreshold = 1, CooldownPeriod = 10 * 60 * second, MaxRetries = 5\<rparr>"

text \<open>A zero \<open>time.Time\<close> is \<open>None\<close>; \<open>time.Since\<close> of it is the largest duration.\<close>

record CircuitBreakerEntry =
  cb_State :: CircuitBreakerState
  FailureCount :: int
  SuccessCount :: int
  LastFailureAt :: "int option"
  LastAttemptAt :: "int option"
  RetryCount :: int
  LastError :: "string option"

definition new_entry :: CircuitBreakerEntry where
  "new_entry = \<lparr>cb_State = CircuitBreakerClosed, FailureCount = 0, SuccessCount = 0, LastFailureAt = None,
      LastAttemptAt = None, RetryCount = 0, LastError = None\<rparr>"

type_synonym breaker = "string \<rightharpoonup> CircuitBreakerEntry"

datatype breaker_error =
    ErrCircuitBreakerCooldown int    \<comment> \<open>retry after the remaining time\<close>
  | ErrMaxRetriesExceeded

definition time_since :: "int \<Rightarrow> int option \<Rightarrow> int" where
  "time_since now t = (case t of None \<Rightarrow> 2 ^ 63 - 1 | Some x \<Rightarrow> now - x)"

section \<open>Methods\<close>

definition getEntryLocked :: "string \<Rightarrow> breaker \<Rightarrow> CircuitBreakerEntry \<times> breaker" where
  "getEntryLocked key b =
     (case b key of Some e \<Rightarrow> (e, b) | None \<Rightarrow> (new_entry, b(key \<mapsto> new_entry)))"

definition CanAttempt ::
  "CircuitBreakerConfig \<Rightarrow> int \<Rightarrow> string \<Rightarrow> breaker \<Rightarrow> (breaker_error + unit) \<times> breaker" where
  "CanAttempt cfg now key b =
     (case getEntryLocked key b of (entry, b) \<Rightarrow>
      case cb_State entry of
        CircuitBreakerOpen \<Rightarrow>
          (let timeSinceFailure = time_since now (LastFailureAt entry) in
           if timeSinceFailure < CooldownPeriod cfg
           then (Inl (ErrCircuitBreakerCooldown (CooldownPeriod cfg - timeSinceFailure)), b)
           else (Inr (), b(key \<mapsto> entry\<lparr>cb_State := CircuitBreakerHalfOpen, SuccessCount := 0, RetryCount := 0\<rparr>)))
      | CircuitBreakerHalfOpen \<Rightarrow>
          (if RetryCount entry \<ge> MaxRetries cfg then (Inl ErrMaxRetriesExceeded, b) else (Inr (), b))
      | CircuitBreakerClosed \<Rightarrow>
          (if RetryCount entry \<ge> MaxRetries cfg then (Inl ErrMaxRetriesExceeded, b) else (Inr (), b)))"

definition success_entry :: "CircuitBreakerConfig \<Rightarrow> int \<Rightarrow> CircuitBreakerEntry \<Rightarrow> CircuitBreakerEntry" where
  "success_entry cfg now entry =
     (let e = entry\<lparr>SuccessCount := SuccessCount entry + 1, LastAttemptAt := Some now, RetryCount := 0,
                    LastError := None\<rparr> in
      case cb_State e of
        CircuitBreakerHalfOpen \<Rightarrow>
          if SuccessCount e \<ge> SuccessThreshold cfg
          then e\<lparr>cb_State := CircuitBreakerClosed, FailureCount := 0, SuccessCount := 0\<rparr> else e
      | CircuitBreakerOpen \<Rightarrow> e\<lparr>cb_State := CircuitBreakerHalfOpen, SuccessCount := 1\<rparr>
      | CircuitBreakerClosed \<Rightarrow> e\<lparr>FailureCount := 0\<rparr>)"

definition RecordSuccess :: "CircuitBreakerConfig \<Rightarrow> int \<Rightarrow> string \<Rightarrow> breaker \<Rightarrow> breaker" where
  "RecordSuccess cfg now key b =
     (case getEntryLocked key b of (entry, b) \<Rightarrow> b(key \<mapsto> success_entry cfg now entry))"

definition failure_entry ::
  "CircuitBreakerConfig \<Rightarrow> int \<Rightarrow> string \<Rightarrow> CircuitBreakerEntry \<Rightarrow> CircuitBreakerEntry" where
  "failure_entry cfg now err entry =
     (let e = entry\<lparr>FailureCount := FailureCount entry + 1, LastFailureAt := Some now, LastAttemptAt := Some now,
                    RetryCount := RetryCount entry + 1, LastError := Some err\<rparr> in
      case cb_State e of
        CircuitBreakerClosed \<Rightarrow>
          if FailureCount e \<ge> FailureThreshold cfg
          then e\<lparr>cb_State := CircuitBreakerOpen, SuccessCount := 0\<rparr> else e
      | CircuitBreakerHalfOpen \<Rightarrow> e\<lparr>cb_State := CircuitBreakerOpen, SuccessCount := 0\<rparr>
      | CircuitBreakerOpen \<Rightarrow> e\<lparr>SuccessCount := 0\<rparr>)"

definition RecordFailure :: "CircuitBreakerConfig \<Rightarrow> int \<Rightarrow> string \<Rightarrow> string \<Rightarrow> breaker \<Rightarrow> breaker" where
  "RecordFailure cfg now key err b =
     (case getEntryLocked key b of (entry, b) \<Rightarrow> b(key \<mapsto> failure_entry cfg now err entry))"

definition GetState :: "string \<Rightarrow> breaker \<Rightarrow> CircuitBreakerState \<times> breaker" where
  "GetState key b = (case getEntryLocked key b of (e, b) \<Rightarrow> (cb_State e, b))"

definition GetRetryCount :: "string \<Rightarrow> breaker \<Rightarrow> int \<times> breaker" where
  "GetRetryCount key b = (case getEntryLocked key b of (e, b) \<Rightarrow> (RetryCount e, b))"

definition Reset :: "string \<Rightarrow> breaker \<Rightarrow> breaker" where
  "Reset key b = b(key := None)"

definition ResetAll :: "breaker \<Rightarrow> breaker" where
  "ResetAll b = Map.empty"

definition IsInCooldown :: "CircuitBreakerConfig \<Rightarrow> int \<Rightarrow> string \<Rightarrow> breaker \<Rightarrow> bool \<times> breaker" where
  "IsInCooldown cfg now key b =
     (case getEntryLocked key b of (e, b) \<Rightarrow>
        (if cb_State e \<noteq> CircuitBreakerOpen then False
         else time_since now (LastFailureAt e) < CooldownPeriod cfg, b))"

definition TimeUntilRetry :: "CircuitBreakerConfig \<Rightarrow> int \<Rightarrow> string \<Rightarrow> breaker \<Rightarrow> int \<times> breaker" where
  "TimeUntilRetry cfg now key b =
     (case getEntryLocked key b of (e, b) \<Rightarrow>
        (if cb_State e \<noteq> CircuitBreakerOpen then 0
         else let elapsed = time_since now (LastFailureAt e) in
              if elapsed \<ge> CooldownPeriod cfg then 0 else CooldownPeriod cfg - elapsed, b))"

record CircuitBreakerStats =
  st_State :: CircuitBreakerState
  st_FailureCount :: int
  st_SuccessCount :: int
  st_RetryCount :: int
  st_LastAttemptAt :: "int option"
  st_LastFailureAt :: "int option"
  st_LastError :: string
  st_CooldownRemaining :: "int option"

definition GetStats :: "CircuitBreakerConfig \<Rightarrow> int \<Rightarrow> string \<Rightarrow> breaker \<Rightarrow> CircuitBreakerStats \<times> breaker" where
  "GetStats cfg now key b =
     (case getEntryLocked key b of (e, b) \<Rightarrow>
        (\<lparr>st_State = cb_State e, st_FailureCount = FailureCount e, st_SuccessCount = SuccessCount e,
          st_RetryCount = RetryCount e, st_LastAttemptAt = LastAttemptAt e,
          st_LastFailureAt = LastFailureAt e,
          st_LastError = (case LastError e of None \<Rightarrow> '''' | Some m \<Rightarrow> m),
          st_CooldownRemaining =
            (if cb_State e = CircuitBreakerOpen \<and> time_since now (LastFailureAt e) < CooldownPeriod cfg
             then Some (CooldownPeriod cfg - time_since now (LastFailureAt e)) else None)\<rparr>, b))"

section \<open>Runs\<close>

datatype cb_call =
    Attempt string
  | Success string
  | Failure string string
  | ResetKey string
  | ResetEverything
  | Observe string

fun cb_exec :: "CircuitBreakerConfig \<Rightarrow> int \<times> cb_call \<Rightarrow> breaker \<Rightarrow> breaker" where
  "cb_exec cfg (now, Attempt k) b = snd (CanAttempt cfg now k b)"
| "cb_exec cfg (now, Success k) b = RecordSuccess cfg now k b"
| "cb_exec cfg (now, Failure k e) b = RecordFailure cfg now k e b"
| "cb_exec cfg (now, ResetKey k) b = Reset k b"
| "cb_exec cfg (now, ResetEverything) b = ResetAll b"
| "cb_exec cfg (now, Observe k) b = snd (GetStats cfg now k b)"

definition cb_run :: "CircuitBreakerConfig \<Rightarrow> (int \<times> cb_call) list \<Rightarrow> breaker" where
  "cb_run cfg calls = fold (cb_exec cfg) calls Map.empty"

text \<open>The entry a method works on: a missing one is created closed.\<close>

definition entry_of :: "breaker \<Rightarrow> string \<Rightarrow> CircuitBreakerEntry" where
  "entry_of b key = (case b key of None \<Rightarrow> new_entry | Some e \<Rightarrow> e)"

named_theorems cb_simps \<open>methods seen through the entry of a key\<close>

lemma getEntryLocked_entry [simp]:
  "fst (getEntryLocked k b) = entry_of b k" "entry_of (snd (getEntryLocked k b)) k' = entry_of b k'"
  by (simp_all add: getEntryLocked_def entry_of_def split: option.split)

lemma getEntryLocked_pair: "getEntryLocked k b = (entry_of b k, snd (getEntryLocked k b))"
  by (metis getEntryLocked_entry(1) prod.collapse)

lemma entry_of_upd [simp]: "entry_of (b(k \<mapsto> e)) k' = (if k' = k then e else entry_of b k')"
  by (simp add: entry_of_def)

lemma entry_of_empty [simp]: "entry_of Map.empty k = new_entry"
  by (simp add: entry_of_def)

definition probe_entry :: "CircuitBreakerConfig \<Rightarrow> int \<Rightarrow> CircuitBreakerEntry \<Rightarrow> CircuitBreakerEntry" where
  "probe_entry cfg now e =
     (if cb_State e = CircuitBreakerOpen \<and> \<not> time_since now (LastFailureAt e) < CooldownPeriod cfg
      then e\<lparr>cb_State := CircuitBreakerHalfOpen, SuccessCount := 0, RetryCount := 0\<rparr> else e)"

lemma entry_CanAttempt [cb_simps]:
  "entry_of (snd (CanAttempt cfg now k b)) k' = (if k' = k then probe_entry cfg now (entry_of b k) else entry_of b k')"
  unfolding CanAttempt_def
  by (subst getEntryLocked_pair) (auto simp: Let_def probe_entry_def split: CircuitBreakerState.split)

lemma entry_RecordSuccess [cb_simps]:
  "entry_of (RecordSuccess cfg now k b) k' = (if k' = k then success_entry cfg now (entry_of b k) else entry_of b k')"
  unfolding RecordSuccess_def by (subst getEntryLocked_pair) simp

lemma entry_RecordFailure [cb_simps]:
  "entry_of (RecordFailure cfg now k err b) k' = (if k' = k then failure_entry cfg now err (entry_of b k) else entry_of b k')"
  unfolding RecordFailure_def by (subst getEntryLocked_pair) simp

lemma entry_GetStats [cb_simps]: "entry_of (snd (GetStats cfg now k b)) k' = entry_of b k'"
  unfolding GetStats_def by (subst getEntryLocked_pair) simp

lemma entry_Reset [cb_simps]:
  "entry_of (Reset k b) k' = (if k' = k then new_entry else entry_of b k')" "entry_of (ResetAll b) k = new_entry"
  by (simp_all add: Reset_def ResetAll_def entry_of_def)

lemma CanAttempt_result [cb_simps]:
  "fst (CanAttempt cfg now k b) =
     (case cb_State (entry_of b k) of
        CircuitBreakerOpen \<Rightarrow>
          if time_since now (LastFailureAt (entry_of b k)) < CooldownPeriod cfg
          then Inl (ErrCircuitBreakerCooldown (CooldownPeriod cfg - time_since now (LastFailureAt (entry_of b k))))
          else Inr ()
      | _ \<Rightarrow> if RetryCount (entry_of b k) \<ge> MaxRetries cfg then Inl ErrMaxRetriesExceeded else Inr ())"
  unfolding CanAttempt_def
  by (subst getEntryLocked_pair) (auto simp: Let_def split: CircuitBreakerState.split)

lemmas entry_defs = probe_entry_def success_entry_def failure_entry_def Let_def

section \<open>Consecutive failures\<close>

text \<open>The failures of a key since its last success or reset, and when the last one was.\<close>

fun failures_since :: "string \<Rightarrow> nat \<times> int \<Rightarrow> int \<times> cb_call \<Rightarrow> nat \<times> int" where
  "failures_since k (n, t) (now, c) =
     (case c of
        Failure k' _ \<Rightarrow> if k' = k then (Suc n, now) else (n, t)
      | Success k' \<Rightarrow> if k' = k then (0, t) else (n, t)
      | ResetKey k' \<Rightarrow> if k' = k then (0, t) else (n, t)
      | ResetEverything \<Rightarrow> (0, t)
      | _ \<Rightarrow> (n, t))"

definition failure_streak :: "string \<Rightarrow> (int \<times> cb_call) list \<Rightarrow> nat \<times> int" where
  "failure_streak k calls = foldl (failures_since k) (0, 0) calls"

definition streak_ok :: "CircuitBreakerConfig \<Rightarrow> nat \<times> int \<Rightarrow> CircuitBreakerEntry \<Rightarrow> bool" where
  "streak_ok cfg nt e \<longleftrightarrow>
     (cb_State e = CircuitBreakerClosed \<longrightarrow> int (fst nt) \<le> FailureCount e \<and>
        (0 < fst nt \<longrightarrow> FailureCount e < FailureThreshold cfg)) \<and>
     (0 < fst nt \<longrightarrow> LastFailureAt e = Some (snd nt))"

lemma streak_ok_step:
  assumes "streak_ok cfg nt (entry_of b k)"
  shows "streak_ok cfg (failures_since k nt c) (entry_of (cb_exec cfg c b) k)"
proof -
  obtain n t where nt: "nt = (n, t)" by (cases nt)
  obtain now x where c: "c = (now, x)" by (cases c)
  from assms show ?thesis
    by (cases x)
      (auto simp: c nt cb_simps streak_ok_def entry_defs new_entry_def split: CircuitBreakerState.splits)
qed

lemma cb_run_snoc: "cb_run cfg (calls @ [c]) = cb_exec cfg c (cb_run cfg calls)"
  by (simp add: cb_run_def)

lemma failure_streak_snoc: "failure_streak k (calls @ [c]) = failures_since k (failure_streak k calls) c"
  by (simp add: failure_streak_def)

lemma streak_ok_run: "streak_ok cfg (failure_streak k calls) (entry_of (cb_run cfg calls) k)"
proof (induction calls rule: rev_induct)
  case Nil
  then show ?case by (simp add: failure_streak_def cb_run_def streak_ok_def entry_of_def new_entry_def)
next
  case (snoc c calls)
  then show ?case unfolding cb_run_snoc failure_streak_snoc by (rule streak_ok_step)
qed

section \<open>Recovery\<close>

text \<open>A configuration whose closed breakers open before they run out of retries.\<close>

locale recovering_breaker =
  fixes cfg :: CircuitBreakerConfig
  assumes thresholds: "0 < FailureThreshold cfg" "FailureThreshold cfg \<le> MaxRetries cfg"
    and cooldown: "CooldownPeriod cfg < 2 ^ 63"
begin

definition entry_ok :: "CircuitBreakerEntry \<Rightarrow> bool" where
  "entry_ok e \<longleftrightarrow>
     (case cb_State e of
        CircuitBreakerClosed \<Rightarrow> 0 \<le> RetryCount e \<and> RetryCount e \<le> FailureCount e \<and> FailureCount e < FailureThreshold cfg
      | CircuitBreakerHalfOpen \<Rightarrow> RetryCount e = 0
      | CircuitBreakerOpen \<Rightarrow> LastFailureAt e \<noteq> None)"

lemma entry_ok_step:
  assumes "\<And>k. entry_ok (entry_of b k)"
  shows "entry_ok (entry_of (cb_exec cfg c b) k)"
proof -
  obtain now x where c: "c = (now, x)" by (cases c)
  show ?thesis
    using assms [of k] thresholds
    by (cases x)
      (auto simp: c cb_simps entry_ok_def entry_defs new_entry_def split: CircuitBreakerState.splits)
qed

lemma entry_ok_run: "entry_ok (entry_of (cb_run cfg calls) k)"
proof (induction calls arbitrary: k rule: rev_induct)
  case Nil
  then show ?case using thresholds by (simp add: cb_run_def entry_ok_def entry_of_def new_entry_def)
next
  case (snoc c calls)
  then show ?case unfolding cb_run_snoc by (rule entry_ok_step)
qed

lemma never_stuck:
  assumes "time_since now (LastFailureAt (entry_of (cb_run cfg calls) k)) \<ge> CooldownPeriod cfg"
  shows "fst (CanAttempt cfg now k (cb_run cfg calls)) = Inr ()"
  using entry_ok_run [of calls k] assms thresholds
  by (auto simp: cb_simps entry_ok_def split: CircuitBreakerState.splits)

end

interpretation failover: recovering_breaker NewFailoverCircuitBreaker
  by unfold_locales (simp_all add: NewFailoverCircuitBreaker_def second_def)

section \<open>Properties\<close>

text \<open>C23. After as many consecutive failures as the threshold, with no success or reset in between
  and whatever other calls are interleaved, every attempt within the cooldown of the last failure is
  refused with the remaining time, and the breaker does not change.\<close>

theorem breaker_opens:
  assumes "failure_streak k calls = (n, t)" and "0 < n" and "FailureThreshold cfg \<le> int n"
    and "\<exists>pre e. calls = pre @ [(t, Failure k e)]" and "now - t < CooldownPeriod cfg"
  shows "fst (CanAttempt cfg now k (cb_run cfg calls)) = Inl (ErrCircuitBreakerCooldown (CooldownPeriod cfg - (now - t))) \<and>
    entry_of (snd (CanAttempt cfg now k (cb_run cfg calls))) k = entry_of (cb_run cfg calls) k"
proof -
  let ?e = "entry_of (cb_run cfg calls) k"
  from streak_ok_run [of cfg k calls] assms(1-3)
  have last: "LastFailureAt ?e = Some t" and nc: "cb_State ?e \<noteq> CircuitBreakerClosed"
    by (auto simp: streak_ok_def)
  from assms(4) obtain pre err where calls: "calls = pre @ [(t, Failure k err)]" by blast
  have "cb_State ?e \<noteq> CircuitBreakerHalfOpen"
    unfolding calls cb_run_snoc by (auto simp: cb_simps entry_defs split: CircuitBreakerState.splits)
  with nc have "cb_State ?e = CircuitBreakerOpen" by (cases "cb_State ?e") auto
  then show ?thesis using last assms(5) by (simp add: cb_simps time_since_def probe_entry_def)
qed

theorem breaker_opens_witness:
  "fst (CanAttempt NewFailoverCircuitBreaker 60 ''n1''
     (cb_run NewFailoverCircuitBreaker [(10, Failure ''n1'' ''x''), (20, Success ''n2''), (30, Attempt ''n1''), (40, Failure ''n1'' ''y'')]))
   = Inl (ErrCircuitBreakerCooldown (10 * 60 * second - 20))"
proof -
  let ?calls = "[(10, Failure ''n1'' ''x''), (20, Success ''n2''), (30, Attempt ''n1''), (40, Failure ''n1'' ''y'')]"
  have f: "failure_streak ''n1'' ?calls = (2, 40)" by (simp add: failure_streak_def)
  have "\<exists>pre e. ?calls = pre @ [(40, Failure ''n1'' e)]"
    by (intro exI [of _ "take 3 ?calls"] exI [of _ "''y''"]) simp
  from breaker_opens [OF f _ _ this, of NewFailoverCircuitBreaker 60] show ?thesis
    by (simp add: NewFailoverCircuitBreaker_def second_def)
qed

text \<open>C24. A failover breaker never stays shut: in every state any sequence of calls can produce, an
  attempt made once the cooldown after the last failure has passed is admitted, and after an admitted
  probe one recorded success closes the breaker.\<close>

theorem failover_recovers:
  assumes "time_since now (LastFailureAt (entry_of (cb_run NewFailoverCircuitBreaker calls) k))
      \<ge> CooldownPeriod NewFailoverCircuitBreaker"
  shows "fst (CanAttempt NewFailoverCircuitBreaker now k (cb_run NewFailoverCircuitBreaker calls)) = Inr () \<and>
    cb_State (entry_of (cb_run NewFailoverCircuitBreaker (calls @ [(now, Attempt k), (later, Success k)])) k)
      = CircuitBreakerClosed"
proof
  show "fst (CanAttempt NewFailoverCircuitBreaker now k (cb_run NewFailoverCircuitBreaker calls)) = Inr ()"
    by (rule failover.never_stuck [OF assms])
  let ?e = "entry_of (cb_run NewFailoverCircuitBreaker calls) k"
  let ?p = "probe_entry NewFailoverCircuitBreaker now ?e"
  have "cb_State ?p = CircuitBreakerHalfOpen \<or> cb_State ?p = CircuitBreakerClosed"
    using assms by (cases "cb_State ?e") (auto simp: probe_entry_def)
  moreover have "0 \<le> SuccessCount (entry_of (cb_run cfg cs) k)" for cfg cs
  proof (induction cs rule: rev_induct)
    case (snoc c cs)
    obtain t x where c: "c = (t, x)" by (cases c)
    from snoc show ?case unfolding cb_run_snoc
      by (cases x) (auto simp: c cb_simps entry_defs new_entry_def split: CircuitBreakerState.splits)
  qed (simp add: cb_run_def entry_of_def new_entry_def)
  then have "0 \<le> SuccessCount ?p" by (simp add: probe_entry_def)
  ultimately show "cb_State (entry_of (cb_run NewFailoverCircuitBreaker (calls @ [(now, Attempt k), (later, Success k)])) k)
      = CircuitBreakerClosed"
    by (auto simp: cb_run_def cb_simps success_entry_def Let_def NewFailoverCircuitBreaker_def)
qed

theorem failover_recovers_witness:
  "fst (CanAttempt NewFailoverCircuitBreaker (700 * second) ''n1''
     (cb_run NewFailoverCircuitBreaker [(10, Failure ''n1'' ''x''), (40, Failure ''n1'' ''y'')])) = Inr ()"
proof -
  have "time_since (700 * second) (LastFailureAt (entry_of (cb_run NewFailoverCircuitBreaker
      [(10, Failure ''n1'' ''x''), (40, Failure ''n1'' ''y'')]) ''n1'')) \<ge> CooldownPeriod NewFailoverCircuitBreaker"
    by code_simp
  from failover_recovers [OF this] show ?thesis by blast
qed



end
