(* ===== verification/Table.thy ===== *)
theory Table
  imports Prelude
begin

text \<open>
  Statements on one table of the database, for the repositories whose methods are single
  statements. A table is a component of the state, read by \<open>get\<close> and replaced by \<open>put\<close>;
  \<open>bad s rows\<close> is the first constraint (key, check, unique index) that the content \<open>rows\<close> would
  violate, as the error pgx reports. A statement writes all its rows or, if the new content
  violates a constraint, none.

  The locale \<open>table\<close> states what the reasoning needs of a table and proves, once, what the
  statements do under every behaviour of the connection; each repository interprets it on its own
  component of the state.
\<close>

section \<open>Statements\<close>

definition table_write ::
  "('row list \<Rightarrow> 's \<Rightarrow> 's) \<Rightarrow> ('s \<Rightarrow> 'row list \<Rightarrow> error option) \<Rightarrow> 'row list \<Rightarrow> 'a \<Rightarrow> ('s, 'a) db_op" where
  "table_write put bad rows x s =
     (case bad s rows of Some e \<Rightarrow> (Inl e, s) | None \<Rightarrow> (Inr x, put rows s))"

text \<open>\<open>UPDATE ... SET ... WHERE ...\<close>: the assignment gets \<open>NOW()\<close>, the command tag is the number of
  rows that matched.\<close>

definition updated_rows :: "('row \<Rightarrow> bool) \<Rightarrow> (int \<Rightarrow> 'row \<Rightarrow> 'row) \<Rightarrow> int \<Rightarrow> 'row list \<Rightarrow> 'row list" where
  "updated_rows P f now rows = map (\<lambda>r. if P r then f now r else r) rows"

definition table_update ::
  "('r db_env_scheme \<Rightarrow> 'row list) \<Rightarrow> ('row list \<Rightarrow> 'r db_env_scheme \<Rightarrow> 'r db_env_scheme) \<Rightarrow>
   ('r db_env_scheme \<Rightarrow> 'row list \<Rightarrow> error option) \<Rightarrow>
   ('row \<Rightarrow> bool) \<Rightarrow> (int \<Rightarrow> 'row \<Rightarrow> 'row) \<Rightarrow> ('r db_env_scheme, nat) db_op" where
  "table_update get put bad P f =
     auto_stmt (\<lambda>s. table_write put bad (updated_rows P f (clock s) (get s))
                      (length (filter P (get s))) s)"

definition table_delete ::
  "('r db_env_scheme \<Rightarrow> 'row list) \<Rightarrow> ('row list \<Rightarrow> 'r db_env_scheme \<Rightarrow> 'r db_env_scheme) \<Rightarrow>
   ('r db_env_scheme \<Rightarrow> 'row list \<Rightarrow> error option) \<Rightarrow> ('row \<Rightarrow> bool) \<Rightarrow> ('r db_env_scheme, nat) db_op" where
  "table_delete get put bad P =
     auto_stmt (\<lambda>s. table_write put bad (filter (\<lambda>r. \<not> P r) (get s)) (length (filter P (get s))) s)"

text \<open>\<open>INSERT ... RETURNING\<close>: the row is made from \<open>NOW()\<close>.\<close>

definition table_insert ::
  "('r db_env_scheme \<Rightarrow> 'row list) \<Rightarrow> ('row list \<Rightarrow> 'r db_env_scheme \<Rightarrow> 'r db_env_scheme) \<Rightarrow>
   ('r db_env_scheme \<Rightarrow> 'row list \<Rightarrow> error option) \<Rightarrow> (int \<Rightarrow> 'row) \<Rightarrow> ('r db_env_scheme, 'row) db_op" where
  "table_insert get put bad mk =
     auto_stmt (\<lambda>s. table_write put bad (get s @ [mk (clock s)]) (mk (clock s)) s)"

definition table_find ::
  "('r db_env_scheme \<Rightarrow> 'row list) \<Rightarrow> ('row \<Rightarrow> bool) \<Rightarrow> ('r db_env_scheme, 'row) db_op" where
  "table_find get P =
     auto_stmt (\<lambda>s. case find P (get s) of None \<Rightarrow> (Inl ErrNotFound, s) | Some r \<Rightarrow> (Inr r, s))"

definition table_select ::
  "('r db_env_scheme \<Rightarrow> 'row list) \<Rightarrow> (int \<Rightarrow> 'row list \<Rightarrow> 'a) \<Rightarrow> ('r db_env_scheme, 'a) db_op" where
  "table_select get q = auto_stmt (\<lambda>s. (Inr (q (clock s) (get s)), s))"

text \<open>A statement that names a column the table does not have is refused when it is parsed.\<close>

definition with_columns ::
  "('r db_env_scheme \<Rightarrow> string list) \<Rightarrow> string list \<Rightarrow> ('r db_env_scheme, 'a) db_op \<Rightarrow> ('r db_env_scheme, 'a) db_op" where
  "with_columns schema cols m s =
     (if set cols \<subseteq> set (schema s) then m s else (Inl ErrDB, pop_fault s))"

text \<open>\<open>DEFAULT gen_random_uuid()\<close>: the row gets the next identifier.\<close>

definition with_uuid :: "(string \<Rightarrow> ('r db_env_scheme, 'a) db_op) \<Rightarrow> ('r db_env_scheme, 'a) db_op" where
  "with_uuid op s = op (gen_uuid s (next_id s)) (s\<lparr>next_id := Suc (next_id s)\<rparr>)"

section \<open>What a statement leaves\<close>

lemma with_uuid_keeps:
  assumes "env_free P" "P s" "\<And>i s. P s \<Longrightarrow> P (snd (op i s))"
  shows "P (snd (with_uuid op s))"
proof -
  have "P (s\<lparr>next_id := Suc (next_id s)\<rparr>)" using assms(2) env_freeD [OF assms(1) tables_next_id] by blast
  then show ?thesis by (simp add: with_uuid_def assms(3))
qed

text \<open>Reading statements leave the tables alone.\<close>

lemma auto_stmt_reads:
  assumes "\<And>s. snd (f s) = s"
  shows "tables (snd (auto_stmt f s)) = tables s"
  using assms by (simp add: auto_stmt_def Let_def split: fault.split)

lemma bind_reads:
  assumes "tables (snd (m s)) = tables s" "\<And>x s. tables (snd (f x s)) = tables s"
  shows "tables (snd (bind_db m f s)) = tables s"
  using assms by (cases "m s"; cases "fst (m s)") (force simp: bind_db_def)+

lemma table_find_reads [simp]: "tables (snd (table_find get P s)) = tables s"
  unfolding table_find_def by (rule auto_stmt_reads) (simp split: option.split)

lemma table_select_reads [simp]: "tables (snd (table_select get q s)) = tables s"
  unfolding table_select_def by (rule auto_stmt_reads) simp

lemma auto_stmt_no_faults: "faults s = [] \<Longrightarrow> auto_stmt f s = f s"
  by (simp add: auto_stmt_def)

lemma table_find_run:
  "faults s = [] \<Longrightarrow> table_find get P s =
     (case find P (get s) of None \<Rightarrow> (Inl ErrNotFound, s) | Some r \<Rightarrow> (Inr r, s))"
  by (simp add: table_find_def auto_stmt_no_faults)

lemma table_select_run: "faults s = [] \<Longrightarrow> table_select get q s = (Inr (q (clock s) (get s)), s)"
  by (simp add: table_select_def auto_stmt_no_faults)

lemma table_find_found:
  assumes "table_find get P s = (Inr r, t)" and "\<And>s. get (tables s) = get s"
  shows "r \<in> set (get s) \<and> P r"
  using assms(1) unfolding table_find_def
proof (cases rule: auto_stmt_cases)
  case (2 s1)
  then have "find P (get s1) = Some r" by (auto split: option.splits)
  moreover have "get s1 = get s" using 2(1) assms(2) by metis
  ultimately show ?thesis by (auto simp: find_Some_iff)
qed simp_all

lemma with_columns_keeps:
  assumes "P (snd (m s))" "P (pop_fault s)"
  shows "P (snd (with_columns schema cols m s))"
  using assms by (simp add: with_columns_def)

text \<open>The rows after an update.\<close>

lemma updated_rows_in: "r \<in> set rows \<Longrightarrow> (if P r then f now r else r) \<in> set (updated_rows P f now rows)"
  by (auto simp: updated_rows_def)

lemma updated_rows_map:
  "(\<And>r. P r \<Longrightarrow> g (f now r) = g r) \<Longrightarrow> map g (updated_rows P f now rows) = map g rows"
  by (simp add: updated_rows_def)

lemma updated_rows_all:
  "(\<And>r. r \<in> set rows \<Longrightarrow> Q r) \<Longrightarrow> (\<And>r. r \<in> set rows \<Longrightarrow> P r \<Longrightarrow> Q r \<Longrightarrow> Q (f now r)) \<Longrightarrow>
   r \<in> set (updated_rows P f now rows) \<Longrightarrow> Q r"
  by (auto simp: updated_rows_def split: if_splits)

locale table =
  fixes get :: "'r db_env_scheme \<Rightarrow> 'row list"
    and put :: "'row list \<Rightarrow> 'r db_env_scheme \<Rightarrow> 'r db_env_scheme"
    and bad :: "'r db_env_scheme \<Rightarrow> 'row list \<Rightarrow> error option"
  assumes get_put [simp]: "get (put rows s) = rows"
    and put_tables [simp]: "tables (put rows (tables s)) = tables (put rows s)"
    and get_tables [simp]: "get (tables s) = get s"
    and bad_put [simp]: "bad (put rows s) = bad s"
    and bad_tables [simp]: "bad (tables s) = bad s"
    and faults_put [simp]: "faults (put rows s) = faults s"
    and clock_put [simp]: "clock (put rows s) = clock s"
begin

lemma same_tables:
  assumes "tables s = tables t"
  shows "get s = get t" "bad s = bad t" "tables (put rows s) = tables (put rows t)" "clock s = clock t"
  using assms by (metis get_tables, metis bad_tables, metis put_tables, metis clock_tables)

text \<open>A writing statement is refused and changes nothing, or puts content that violates no
  constraint; its reply may be lost.\<close>

lemma write_stmt_cases:
  assumes "auto_stmt (\<lambda>s. table_write put bad (F s) (X s) s) s = (r, t)"
    and F: "\<And>s. F (tables s) = F s" and X: "\<And>s. X (tables s) = X s"
  obtains (refused) e where "r = Inl e" "tables t = tables s"
  | (written) "tables t = tables (put (F s) s)" "bad s (F s) = None" "r = Inr (X s) \<or> r = Inl ErrDB"
proof -
  have outcome: "(\<exists>e. r1 = Inl e \<and> tables t = tables s) \<or>
      (tables t = tables (put (F s) s) \<and> bad s (F s) = None \<and> r1 = Inr (X s))"
    if "tables s1 = tables s" "table_write put bad (F s1) (X s1) s1 = (r1, t)" for s1 r1
  proof -
    have "F s1 = F s" "X s1 = X s" using that(1) F X by metis+
    then show ?thesis
      using that same_tables(2) [OF that(1)] same_tables(3) [OF that(1), of "F s"]
      by (cases "bad s (F s)") (auto simp: table_write_def)
  qed
  from assms(1) show thesis
  proof (cases rule: auto_stmt_cases)
    case 1
    then show ?thesis using refused by blast
  next
    case (2 s1)
    from outcome [OF 2] show ?thesis using refused written by auto
  next
    case (3 s1 r1)
    from outcome [OF 3(1,2)] 3(3) show ?thesis using refused written by auto
  qed
qed

lemma update_cases:
  assumes "table_update get put bad P f s = (r, t)"
  obtains (refused) e where "r = Inl e" "tables t = tables s"
  | (written) "tables t = tables (put (updated_rows P f (clock s) (get s)) s)"
      "bad s (updated_rows P f (clock s) (get s)) = None"
      "r = Inr (length (filter P (get s))) \<or> r = Inl ErrDB"
  using assms unfolding table_update_def by (rule write_stmt_cases) simp_all

lemma delete_cases:
  assumes "table_delete get put bad P s = (r, t)"
  obtains (refused) e where "r = Inl e" "tables t = tables s"
  | (written) "tables t = tables (put (filter (\<lambda>r. \<not> P r) (get s)) s)"
      "bad s (filter (\<lambda>r. \<not> P r) (get s)) = None"
      "r = Inr (length (filter P (get s))) \<or> r = Inl ErrDB"
  using assms unfolding table_delete_def by (rule write_stmt_cases) simp_all

lemma insert_cases:
  assumes "table_insert get put bad mk s = (r, t)"
  obtains (refused) e where "r = Inl e" "tables t = tables s"
  | (written) "tables t = tables (put (get s @ [mk (clock s)]) s)"
      "bad s (get s @ [mk (clock s)]) = None" "r = Inr (mk (clock s)) \<or> r = Inl ErrDB"
  using assms unfolding table_insert_def by (rule write_stmt_cases) simp_all

text \<open>Whatever the connection does, every statement leaves content without violations, and a
  property of the state that its content cannot break.\<close>

lemma update_keeps:
  assumes "env_free Q" "Q s"
    and "bad s (updated_rows P f (clock s) (get s)) = None \<Longrightarrow> Q (put (updated_rows P f (clock s) (get s)) s)"
  shows "Q (snd (table_update get put bad P f s))"
proof -
  obtain r t where rt: "table_update get put bad P f s = (r, t)" by (cases "table_update get put bad P f s")
  from rt have "Q t"
  proof (cases rule: update_cases)
    case refused
    then show ?thesis using env_freeD [OF assms(1) refused(2)] assms(2) by simp
  next
    case written
    then show ?thesis using env_freeD [OF assms(1) written(1)] assms(3) by simp
  qed
  with rt show ?thesis by simp
qed

lemma delete_keeps:
  assumes "env_free Q" "Q s"
    and "bad s (filter (\<lambda>r. \<not> P r) (get s)) = None \<Longrightarrow> Q (put (filter (\<lambda>r. \<not> P r) (get s)) s)"
  shows "Q (snd (table_delete get put bad P s))"
proof -
  obtain r t where rt: "table_delete get put bad P s = (r, t)" by (cases "table_delete get put bad P s")
  from rt have "Q t"
  proof (cases rule: delete_cases)
    case refused
    then show ?thesis using env_freeD [OF assms(1) refused(2)] assms(2) by simp
  next
    case written
    then show ?thesis using env_freeD [OF assms(1) written(1)] assms(3) by simp
  qed
  with rt show ?thesis by simp
qed

lemma insert_keeps:
  assumes "env_free Q" "Q s"
    and "bad s (get s @ [mk (clock s)]) = None \<Longrightarrow> Q (put (get s @ [mk (clock s)]) s)"
  shows "Q (snd (table_insert get put bad mk s))"
proof -
  obtain r t where rt: "table_insert get put bad mk s = (r, t)" by (cases "table_insert get put bad mk s")
  from rt have "Q t"
  proof (cases rule: insert_cases)
    case refused
    then show ?thesis using env_freeD [OF assms(1) refused(2)] assms(2) by simp
  next
    case written
    then show ?thesis using env_freeD [OF assms(1) written(1)] assms(3) by simp
  qed
  with rt show ?thesis by simp
qed

text \<open>A working connection.\<close>

lemma update_run:
  "faults s = [] \<Longrightarrow> bad s (updated_rows P f (clock s) (get s)) = None \<Longrightarrow>
   table_update get put bad P f s =
     (Inr (length (filter P (get s))), put (updated_rows P f (clock s) (get s)) s)"
  by (simp add: table_update_def auto_stmt_no_faults table_write_def)

lemma delete_run:
  "faults s = [] \<Longrightarrow> bad s (filter (\<lambda>r. \<not> P r) (get s)) = None \<Longrightarrow>
   table_delete get put bad P s = (Inr (length (filter P (get s))), put (filter (\<lambda>r. \<not> P r) (get s)) s)"
  by (simp add: table_delete_def auto_stmt_no_faults table_write_def)

lemma insert_run:
  "faults s = [] \<Longrightarrow> bad s (get s @ [mk (clock s)]) = None \<Longrightarrow>
   table_insert get put bad mk s = (Inr (mk (clock s)), put (get s @ [mk (clock s)]) s)"
  by (simp add: table_insert_def auto_stmt_no_faults table_write_def)

end

end
