(* ===== verification/Tasks.thy ===== *)
theory Tasks
  imports VM_Repo Table
begin

text \<open>
  Asynchronous tasks: \<^verbatim>\<open>models/task.go\<close>, the table \<^verbatim>\<open>tasks\<close> of
  \<^verbatim>\<open>repository/task_repo.go\<close>, the publisher of \<^verbatim>\<open>services/vm_service.go\<close> and the worker of
  \<^verbatim>\<open>tasks/worker.go\<close>.

  The state carries the columns the deployed table has, because statements of the worker name a
  column (\<^verbatim>\<open>updated_at\<close>) that no migration creates: \<open>tasks_migrated\<close> is the list the migrations
  1, 60 and 67 give. JetStream is not part of the program. What the code relies on, and the model
  has, is that a message is delivered until it is acknowledged, \<open>MaxDeliver\<close> times at most, and that
  each delivery carries its number.
\<close>

section \<open>The model\<close>

definition TaskStatusPending :: string where "TaskStatusPending = ''pending''"
definition TaskStatusRunning :: string where "TaskStatusRunning = ''running''"
definition TaskStatusCompleted :: string where "TaskStatusCompleted = ''completed''"
definition TaskStatusFailed :: string where "TaskStatusFailed = ''failed''"
definition TaskStatusCancelled :: string where "TaskStatusCancelled = ''cancelled''"

lemmas TaskStatus_defs = TaskStatusPending_def TaskStatusRunning_def TaskStatusCompleted_def
  TaskStatusFailed_def TaskStatusCancelled_def

text \<open>The struct; \<open>Result\<close> is a \<open>json.RawMessage\<close>, \<open>nil\<close> or text.\<close>

record Task =
  task_ID :: string
  task_Type :: string
  task_Status :: string
  task_Payload :: string
  task_Result :: "string option"
  task_ErrorMessage :: string
  task_Progress :: int
  task_RetryCount :: int
  task_IdempotencyKey :: string
  task_CreatedBy :: string
  task_CreatedAt :: int
  task_StartedAt :: "int option"
  task_CompletedAt :: "int option"

definition IsTerminal :: "Task \<Rightarrow> bool" where
  "IsTerminal t \<longleftrightarrow> task_Status t = TaskStatusCompleted \<or> task_Status t = TaskStatusFailed \<or>
     task_Status t = TaskStatusCancelled"

definition task_SetRunning :: "int \<Rightarrow> Task \<Rightarrow> Task" where
  "task_SetRunning now t = t\<lparr>task_Status := TaskStatusRunning, task_StartedAt := Some now\<rparr>"

definition task_SetCompleted :: "int \<Rightarrow> string option \<Rightarrow> Task \<Rightarrow> Task" where
  "task_SetCompleted now result t =
     (let t1 = t\<lparr>task_Status := TaskStatusCompleted, task_Progress := 100, task_CompletedAt := Some now\<rparr>
      in case result of None \<Rightarrow> t1 | Some r \<Rightarrow> t1\<lparr>task_Result := Some r\<rparr>)"

definition task_SetFailed :: "int \<Rightarrow> string \<Rightarrow> Task \<Rightarrow> Task" where
  "task_SetFailed now errMsg t =
     t\<lparr>task_Status := TaskStatusFailed, task_ErrorMessage := errMsg, task_CompletedAt := Some now\<rparr>"

definition clamp_progress :: "int \<Rightarrow> int" where
  "clamp_progress progress = (if progress < 0 then 0 else if progress > 100 then 100 else progress)"

definition task_SetProgress :: "int \<Rightarrow> Task \<Rightarrow> Task" where
  "task_SetProgress progress t = t\<lparr>task_Progress := clamp_progress progress\<rparr>"

definition NewTask :: "int \<Rightarrow> string \<Rightarrow> string \<Rightarrow> string \<Rightarrow> Task" where
  "NewTask now taskid taskType payload =
     \<lparr>task_ID = taskid, task_Type = taskType, task_Status = TaskStatusPending, task_Payload = payload,
      task_Result = None, task_ErrorMessage = '''', task_Progress = 0, task_RetryCount = 0,
      task_IdempotencyKey = '''', task_CreatedBy = '''', task_CreatedAt = now,
      task_StartedAt = None, task_CompletedAt = None\<rparr>"

definition NewTaskWithCreator :: "int \<Rightarrow> string \<Rightarrow> string \<Rightarrow> string \<Rightarrow> string \<Rightarrow> Task" where
  "NewTaskWithCreator now taskid taskType payload createdBy =
     (NewTask now taskid taskType payload)\<lparr>task_CreatedBy := createdBy\<rparr>"

section \<open>The table\<close>

record task_row =
  r_ID :: string
  r_Type :: string
  r_Status :: string
  r_Payload :: string
  r_Result :: "string option"
  r_ErrorMessage :: "string option"
  r_Progress :: int
  r_ProgressMessage :: "string option"
  r_RetryCount :: int
  r_IdempotencyKey :: "string option"
  r_CreatedBy :: "string option"
  r_CreatedAt :: int
  r_StartedAt :: "int option"
  r_CompletedAt :: "int option"
  r_UpdatedAt :: "int option"

text \<open>\<open>stream\<close> is what has been published on the JetStream stream \<^verbatim>\<open>TASKS\<close>.\<close>

record task_db = vm_db +
  tasks :: "task_row list"
  task_columns :: "string list"
  stream :: "Task list"

definition tasks_migrated :: "string list" where
  "tasks_migrated = [''id'', ''type'', ''status'', ''payload'', ''result'', ''error_message'', ''progress'',
     ''idempotency_key'', ''created_by'', ''created_at'', ''started_at'', ''completed_at'',
     ''progress_message'', ''retry_count'']"

definition task_statuses :: "string list" where
  "task_statuses = [TaskStatusPending, TaskStatusRunning, TaskStatusCompleted, TaskStatusFailed,
     TaskStatusCancelled]"

definition task_violation :: "'r task_db_scheme \<Rightarrow> task_row list \<Rightarrow> error option" where
  "task_violation s rows =
     (if \<not> (\<forall>r\<in>set rows. r_Status r \<in> set task_statuses) then Some ErrDB
      else if \<not> distinct (map r_ID rows) then Some (ErrUniqueViolation ''tasks_pkey'')
      else if \<not> distinct (List.map_filter r_IdempotencyKey rows)
        then Some (ErrUniqueViolation ''tasks_idempotency_key_key'')
      else None)"

definition put_tasks :: "task_row list \<Rightarrow> 'r task_db_scheme \<Rightarrow> 'r task_db_scheme" where
  "put_tasks rows s = s\<lparr>tasks := rows\<rparr>"

text \<open>\<open>UPDATE tasks SET c1 = ..., ... WHERE ...\<close>, with the columns it assigns.\<close>

definition update_tasks ::
  "string list \<Rightarrow> (task_row \<Rightarrow> bool) \<Rightarrow> (int \<Rightarrow> task_row \<Rightarrow> task_row) \<Rightarrow> ('r task_db_scheme, nat) db_op" where
  "update_tasks cols P f =
     with_columns task_columns cols (table_update tasks put_tasks task_violation P f)"

definition set_task ::
  "string \<Rightarrow> string list \<Rightarrow> (int \<Rightarrow> task_row \<Rightarrow> task_row) \<Rightarrow> ('r task_db_scheme, unit) db_op" where
  "set_task taskid cols f =
     require_affected ErrNoRowsAffected (update_tasks cols (\<lambda>r. r_ID r = taskid) f)"

definition taskSelectCols :: "string list" where
  "taskSelectCols = [''id'', ''type'', ''status'', ''payload'', ''result'', ''error_message'', ''progress'',
     ''retry_count'', ''idempotency_key'', ''created_by'', ''created_at'', ''started_at'', ''completed_at'']"

definition string_or_empty :: "string option \<Rightarrow> string" where
  "string_or_empty v = (case v of None \<Rightarrow> '''' | Some x \<Rightarrow> x)"

definition null_if_empty :: "string \<Rightarrow> string option" where
  "null_if_empty x = (if x \<noteq> '''' then Some x else None)"

definition scanTask :: "task_row \<Rightarrow> Task" where
  "scanTask r =
     \<lparr>task_ID = r_ID r, task_Type = r_Type r, task_Status = r_Status r, task_Payload = r_Payload r,
      task_Result = r_Result r, task_ErrorMessage = string_or_empty (r_ErrorMessage r),
      task_Progress = r_Progress r, task_RetryCount = r_RetryCount r,
      task_IdempotencyKey = string_or_empty (r_IdempotencyKey r),
      task_CreatedBy = string_or_empty (r_CreatedBy r), task_CreatedAt = r_CreatedAt r,
      task_StartedAt = r_StartedAt r, task_CompletedAt = r_CompletedAt r\<rparr>"

section \<open>The repository\<close>

definition task_Create :: "Task \<Rightarrow> ('r task_db_scheme, Task) db_op" where
  "task_Create task =
     bind_db
       (with_columns task_columns taskSelectCols
          (table_insert tasks put_tasks task_violation (\<lambda>now.
             \<lparr>r_ID = task_ID task, r_Type = task_Type task, r_Status = task_Status task,
              r_Payload = task_Payload task, r_Result = None, r_ErrorMessage = None,
              r_Progress = task_Progress task, r_ProgressMessage = None,
              r_RetryCount = task_RetryCount task,
              r_IdempotencyKey = null_if_empty (task_IdempotencyKey task),
              r_CreatedBy = null_if_empty (task_CreatedBy task), r_CreatedAt = now,
              r_StartedAt = None, r_CompletedAt = None, r_UpdatedAt = None\<rparr>)))
       (\<lambda>row. return_db (scanTask row))"

definition task_GetByID :: "string \<Rightarrow> ('r task_db_scheme, Task) db_op" where
  "task_GetByID taskid =
     bind_db (with_columns task_columns taskSelectCols (table_find tasks (\<lambda>r. r_ID r = taskid)))
       (\<lambda>row. return_db (scanTask row))"

definition GetByIDempotencyKey :: "string \<Rightarrow> ('r task_db_scheme, Task) db_op" where
  "GetByIDempotencyKey key =
     bind_db (with_columns task_columns taskSelectCols (table_find tasks (\<lambda>r. r_IdempotencyKey r = Some key)))
       (\<lambda>row. return_db (scanTask row))"

record TaskListFilter =
  tf_Status :: "string option"
  tf_Type :: "string option"
  tf_CreatedBy :: "string option"
  tf_StartTime :: "int option"
  tf_EndTime :: "int option"
  tf_PerPage :: nat
  tf_LastID :: string

definition task_list_where :: "TaskListFilter \<Rightarrow> task_row \<Rightarrow> bool" where
  "task_list_where filt r \<longleftrightarrow>
     (case tf_Status filt of None \<Rightarrow> True | Some v \<Rightarrow> r_Status r = v) \<and>
     (case tf_Type filt of None \<Rightarrow> True | Some v \<Rightarrow> r_Type r = v) \<and>
     (case tf_CreatedBy filt of None \<Rightarrow> True | Some v \<Rightarrow> r_CreatedBy r = Some v) \<and>
     (case tf_StartTime filt of None \<Rightarrow> True | Some v \<Rightarrow> r_CreatedAt r \<ge> v) \<and>
     (case tf_EndTime filt of None \<Rightarrow> True | Some v \<Rightarrow> r_CreatedAt r \<le> v)"

text \<open>\<open>List\<close> adds the columns to a query built as \<open>SELECT 1\<close>: the rows it returns have the
  constant 1 before the thirteen columns \<open>scanTask\<close> reads, and scanning any row fails.\<close>

definition task_list_columns :: "string list" where
  "task_list_columns = ''1'' # taskSelectCols"

definition task_List :: "TaskListFilter \<Rightarrow> ('r task_db_scheme, Task list \<times> bool \<times> string) db_op" where
  "task_List filt =
     bind_db
       (with_columns task_columns taskSelectCols (table_select tasks (\<lambda>_ rows.
          take (Suc (tf_PerPage filt))
            (id_desc r_ID (filter (\<lambda>r. tf_LastID filt \<noteq> '''' \<longrightarrow> r_ID r < tf_LastID filt)
               (filter (task_list_where filt) rows))))))
       (\<lambda>rows. if rows \<noteq> [] \<and> length task_list_columns \<noteq> length taskSelectCols then throw_db ErrDB
          else
            let page = map scanTask rows;
                hasMore = length page > tf_PerPage filt;
                page = (if hasMore then take (tf_PerPage filt) page else page);
                lastID = (if page \<noteq> [] then task_ID (last page) else '''')
            in return_db (page, hasMore, lastID))"

definition ListByStatus :: "string \<Rightarrow> nat \<Rightarrow> ('r task_db_scheme, Task list) db_op" where
  "ListByStatus status limit =
     with_columns task_columns taskSelectCols (table_select tasks (\<lambda>_ rows.
       map scanTask (take limit (sort_key r_CreatedAt (filter (\<lambda>r. r_Status r = status) rows)))))"

definition maxPendingBatch :: nat where "maxPendingBatch = 500"

definition ListPending :: "('r task_db_scheme, Task list) db_op" where
  "ListPending =
     with_columns task_columns taskSelectCols (table_select tasks (\<lambda>_ rows.
       map scanTask (take maxPendingBatch
         (sort_key r_CreatedAt (filter (\<lambda>r. r_Status r = TaskStatusPending) rows)))))"

definition task_UpdateStatus :: "string \<Rightarrow> string \<Rightarrow> ('r task_db_scheme, unit) db_op" where
  "task_UpdateStatus taskid status = set_task taskid [''status''] (\<lambda>_ r. r\<lparr>r_Status := status\<rparr>)"

definition UpdateProgress :: "string \<Rightarrow> int \<Rightarrow> string \<Rightarrow> ('r task_db_scheme, unit) db_op" where
  "UpdateProgress taskid progress message =
     set_task taskid [''progress'', ''progress_message'']
       (\<lambda>_ r. r\<lparr>r_Progress := progress, r_ProgressMessage := null_if_empty message\<rparr>)"

definition SetResult :: "string \<Rightarrow> string option \<Rightarrow> ('r task_db_scheme, unit) db_op" where
  "SetResult taskid result = set_task taskid [''result''] (\<lambda>_ r. r\<lparr>r_Result := result\<rparr>)"

definition SetError :: "string \<Rightarrow> string \<Rightarrow> ('r task_db_scheme, unit) db_op" where
  "SetError taskid errorMessage =
     set_task taskid [''error_message''] (\<lambda>_ r. r\<lparr>r_ErrorMessage := Some errorMessage\<rparr>)"

definition SetStarted :: "string \<Rightarrow> ('r task_db_scheme, unit) db_op" where
  "SetStarted taskid =
     set_task taskid [''status'', ''started_at'']
       (\<lambda>now r. r\<lparr>r_Status := TaskStatusRunning, r_StartedAt := Some now\<rparr>)"

definition SetCompleted :: "string \<Rightarrow> string option \<Rightarrow> ('r task_db_scheme, unit) db_op" where
  "SetCompleted taskid result =
     set_task taskid [''status'', ''completed_at'', ''result'', ''progress'']
       (\<lambda>now r. r\<lparr>r_Status := TaskStatusCompleted, r_CompletedAt := Some now, r_Result := result,
                  r_Progress := 100\<rparr>)"

definition SetFailed :: "string \<Rightarrow> string \<Rightarrow> ('r task_db_scheme, unit) db_op" where
  "SetFailed taskid errorMessage =
     set_task taskid [''status'', ''completed_at'', ''error_message'', ''retry_count'']
       (\<lambda>now r. r\<lparr>r_Status := TaskStatusFailed, r_CompletedAt := Some now,
                  r_ErrorMessage := Some errorMessage, r_RetryCount := r_RetryCount r + 1\<rparr>)"

definition is_stuck :: "int \<Rightarrow> int \<Rightarrow> task_row \<Rightarrow> bool" where
  "is_stuck now seconds r \<longleftrightarrow> r_Status r = TaskStatusRunning \<and>
     (case r_StartedAt r of None \<Rightarrow> False | Some st \<Rightarrow> st < now - seconds)"

definition FindStuckTasks :: "int \<Rightarrow> ('r task_db_scheme, Task list) db_op" where
  "FindStuckTasks seconds =
     with_columns task_columns taskSelectCols (table_select tasks (\<lambda>now rows.
       map scanTask (sort_key (\<lambda>r. case r_StartedAt r of None \<Rightarrow> 0 | Some st \<Rightarrow> st)
         (filter (is_stuck now seconds) rows))))"

definition ResetTask :: "string \<Rightarrow> ('r task_db_scheme, unit) db_op" where
  "ResetTask taskID =
     set_task taskID [''status'', ''error_message'', ''started_at'', ''completed_at'', ''updated_at'']
       (\<lambda>now r. r\<lparr>r_Status := TaskStatusPending, r_ErrorMessage := None, r_StartedAt := None,
                  r_CompletedAt := None, r_UpdatedAt := Some now\<rparr>)"

definition task_Delete :: "string \<Rightarrow> ('r task_db_scheme, unit) db_op" where
  "task_Delete taskid =
     require_affected ErrNoRowsAffected
       (table_delete tasks put_tasks task_violation (\<lambda>r. r_ID r = taskid))"

text \<open>\<open>CountByStorageBackend\<close>: the JSON operators on the payload are arguments (\<open>vm_of\<close>,
  \<open>source_of\<close>, \<open>target_of\<close> give the text of the keys \<^verbatim>\<open>vm_id\<close>, \<^verbatim>\<open>source_node_id\<close> and
  \<^verbatim>\<open>target_node_id\<close>, if present), as is the table \<^verbatim>\<open>node_storage\<close>.\<close>

definition task_CountByStorageBackend ::
  "(string \<Rightarrow> string option) \<Rightarrow> (string \<Rightarrow> string option) \<Rightarrow> (string \<Rightarrow> string option) \<Rightarrow> (string \<times> string) list \<Rightarrow>
   string \<Rightarrow> ('r task_db_scheme, nat) db_op" where
  "task_CountByStorageBackend vm_of source_of target_of node_storage backend =
     auto_stmt (\<lambda>s. (Inr (length (filter (\<lambda>r.
        r_Status r \<in> {TaskStatusPending, TaskStatusRunning} \<and>
        ((case vm_of (r_Payload r) of None \<Rightarrow> False
          | Some v \<Rightarrow> \<exists>vm\<in>set (vms s). vm_ID vm = v \<and> vm_StorageBackendID vm = Some backend) \<or>
         (case source_of (r_Payload r) of None \<Rightarrow> False | Some n \<Rightarrow> (n, backend) \<in> set node_storage) \<or>
         (case target_of (r_Payload r) of None \<Rightarrow> False | Some n \<Rightarrow> (n, backend) \<in> set node_storage)))
        (tasks s))), s))"

section \<open>Publishing\<close>

text \<open>\<open>DefaultTaskPublisher\<close>, the publisher the controller is wired with
  (\<^verbatim>\<open>dependencies.go:56\<close>). \<open>payloadJSON\<close> is the result of \<open>json.Marshal\<close>.\<close>

definition PublishTaskWithIdempotencyKey ::
  "string \<Rightarrow> string option \<Rightarrow> string \<Rightarrow> ('r task_db_scheme, string) db_op" where
  "PublishTaskWithIdempotencyKey taskType payloadJSON idempotencyKey s =
     (let taskID = gen_uuid s (next_id s); s1 = s\<lparr>next_id := Suc (next_id s)\<rparr> in
      case payloadJSON of
        None \<Rightarrow> (Inl (ErrMsg ''marshaling task payload''), s1)
      | Some payload \<Rightarrow>
          bind_db (task_Create ((NewTask (clock s) taskID taskType payload)
                     \<lparr>task_IdempotencyKey := idempotencyKey\<rparr>))
            (\<lambda>_. return_db taskID) s1)"

definition publisher_PublishTask :: "string \<Rightarrow> string option \<Rightarrow> ('r task_db_scheme, string) db_op" where
  "publisher_PublishTask taskType payloadJSON =
     PublishTaskWithIdempotencyKey taskType payloadJSON ''''"

text \<open>The worker's own \<open>PublishTask\<close>: the message goes to the stream; \<open>js.Publish\<close> may fail.\<close>

definition worker_PublishTask :: "Task \<Rightarrow> ('r task_db_scheme, unit) db_op" where
  "worker_PublishTask task = auto_stmt (\<lambda>s. (Inr (), s\<lparr>stream := stream s @ [task]\<rparr>))"

section \<open>The worker\<close>

definition MaxDeliver :: nat where "MaxDeliver = 3"

definition maxTaskRetries :: int where "maxTaskRetries = 3"

definition stuckTaskRecoveredMessage :: string where
  "stuckTaskRecoveredMessage = ''stuck task recovered after timeout''"

text \<open>Delays in nanoseconds (\<open>time.Duration\<close>). \<open>int(numDelivered) - 1\<close> is computed at 64 bits.\<close>

definition nakDelays :: "int list" where
  "nakDelays = [10 * 1000000000, 60 * 1000000000, 300 * 1000000000]"

definition nakIndex :: "64 word \<Rightarrow> int" where
  "nakIndex numDelivered =
     (let idx = sint (numDelivered - 1);
          idx = (if idx < 0 then 0 else idx)
      in if idx \<ge> int (length nakDelays) then int (length nakDelays) - 1 else idx)"

definition nakDelay :: "64 word \<Rightarrow> int" where
  "nakDelay numDelivered = nakDelays ! nat (nakIndex numDelivered)"

text \<open>A delivered message: the task its data decodes to (\<open>None\<close> if \<open>json.Unmarshal\<close> fails) and the
  delivery number, if the message has metadata. The worker answers with an acknowledgement or asks
  for redelivery after a delay.\<close>

record nats_msg =
  m_Data :: "Task option"
  m_NumDelivered :: "64 word option"

datatype reply = Ack | NakWithDelay int

definition nak :: "nats_msg \<Rightarrow> reply" where
  "nak msg = NakWithDelay (case m_NumDelivered msg of Some n \<Rightarrow> nakDelay n | None \<Rightarrow> nakDelays ! 0)"

definition updateTaskStatus ::
  "Task \<Rightarrow> string \<Rightarrow> string option \<Rightarrow> string option \<Rightarrow> ('r task_db_scheme, Task) db_op" where
  "updateTaskStatus task status result errMsg s =
     (let now = clock s;
          startedAt = (if status = TaskStatusRunning then Some now else None);
          completedAt = (if status = TaskStatusRunning then None
                         else if status = TaskStatusCompleted \<or> status = TaskStatusFailed then Some now
                         else None);
          coalesce = (\<lambda>new old. case new of None \<Rightarrow> old | Some _ \<Rightarrow> new)
      in bind_db
           (update_tasks [''status'', ''result'', ''error_message'', ''started_at'', ''completed_at'', ''updated_at'']
              (\<lambda>r. r_ID r = task_ID task)
              (\<lambda>_ r. r\<lparr>r_Status := status,
                       r_Result := (case result of None \<Rightarrow> r_Result r | Some _ \<Rightarrow> result),
                       r_ErrorMessage := (case errMsg of None \<Rightarrow> r_ErrorMessage r | Some _ \<Rightarrow> errMsg),
                       r_StartedAt := coalesce startedAt (r_StartedAt r),
                       r_CompletedAt := coalesce completedAt (r_CompletedAt r),
                       r_UpdatedAt := Some now\<rparr>))
           (\<lambda>_. return_db (task\<lparr>task_Status := status\<rparr>)) s)"

text \<open>A handler gets the task and returns an error or the task, whose \<open>Result\<close> it may have set.
  \<open>err_text\<close> is \<open>err.Error()\<close>.\<close>

type_synonym 's task_handler = "Task \<Rightarrow> ('s, Task) db_op"

definition processMessage ::
  "(string \<rightharpoonup> ('r task_db_scheme) task_handler) \<Rightarrow> (error \<Rightarrow> string) \<Rightarrow> nats_msg \<Rightarrow> 'r task_db_scheme \<Rightarrow>
   (error + unit) \<times> reply \<times> 'r task_db_scheme" where
  "processMessage handlers err_text msg s =
     (case m_Data msg of
        None \<Rightarrow> (Inr (), Ack, s)
      | Some task0 \<Rightarrow>
          (case updateTaskStatus task0 TaskStatusRunning None None s of
             (Inl e, s1) \<Rightarrow> (Inl e, nak msg, s1)
           | (Inr task, s1) \<Rightarrow>
               (case handlers (task_Type task) of
                  None \<Rightarrow>
                    let errMsg = ''no handler registered for task type: '' @ task_Type task
                    in (Inr (), Ack, snd (updateTaskStatus task TaskStatusFailed None (Some errMsg) s1))
                | Some handler \<Rightarrow>
                    (case handler task s1 of
                       (Inl e, s2) \<Rightarrow>
                         (Inl e, nak msg, snd (updateTaskStatus task TaskStatusFailed None (Some (err_text e)) s2))
                     | (Inr task', s2) \<Rightarrow>
                         (Inr (), Ack,
                          snd (updateTaskStatus task' TaskStatusCompleted (task_Result task') None s2))))))"

text \<open>JetStream redelivers until the message is acknowledged; the list is the numbers of the
  deliveries still to come.\<close>

fun redeliver ::
  "(string \<rightharpoonup> ('r task_db_scheme) task_handler) \<Rightarrow> (error \<Rightarrow> string) \<Rightarrow> Task \<Rightarrow> nat list \<Rightarrow> 'r task_db_scheme \<Rightarrow>
   reply list \<times> 'r task_db_scheme" where
  "redeliver handlers err_text task [] s = ([], s)"
| "redeliver handlers err_text task (n # ns) s =
     (case processMessage handlers err_text \<lparr>m_Data = Some task, m_NumDelivered = Some (of_nat n)\<rparr> s of
        (_, Ack, s1) \<Rightarrow> ([Ack], s1)
      | (_, NakWithDelay d, s1) \<Rightarrow>
          (case redeliver handlers err_text task ns s1 of (rs, s2) \<Rightarrow> (NakWithDelay d # rs, s2)))"

definition consume ::
  "(string \<rightharpoonup> ('r task_db_scheme) task_handler) \<Rightarrow> (error \<Rightarrow> string) \<Rightarrow> Task \<Rightarrow> 'r task_db_scheme \<Rightarrow>
   reply list \<times> 'r task_db_scheme" where
  "consume handlers err_text task = redeliver handlers err_text task [1..<Suc MaxDeliver]"

definition recover_one :: "Task \<Rightarrow> ('r task_db_scheme, unit) db_op" where
  "recover_one task =
     (if task_RetryCount task \<ge> maxTaskRetries
      then log_error (SetFailed (task_ID task) stuckTaskRecoveredMessage)
      else log_error (ResetTask (task_ID task)))"

fun recover_all :: "Task list \<Rightarrow> ('r task_db_scheme, unit) db_op" where
  "recover_all [] = return_db ()"
| "recover_all (t # ts) = bind_db (recover_one t) (\<lambda>_. recover_all ts)"

definition recoverStuckTasks :: "int \<Rightarrow> ('r task_db_scheme, unit) db_op" where
  "recoverStuckTasks stuckThreshold s =
     (case FindStuckTasks stuckThreshold s of
        (Inl e, s1) \<Rightarrow> (Inr (), s1)
      | (Inr stuckTasks, s1) \<Rightarrow> recover_all stuckTasks s1)"

text \<open>\<open>CreateTaskRecord\<close> passes the empty string, not NULL, for a missing creator, and the column is
  a UUID.\<close>

definition CreateTaskRecord :: "Task \<Rightarrow> ('r task_db_scheme, unit) db_op" where
  "CreateTaskRecord task =
     bind_db
       (with_columns task_columns
          [''id'', ''type'', ''status'', ''payload'', ''idempotency_key'', ''created_by'', ''created_at'', ''updated_at'']
          (if task_CreatedBy task = '''' then (\<lambda>s. (Inl ErrDB, pop_fault s))
           else table_insert tasks put_tasks task_violation (\<lambda>_.
             \<lparr>r_ID = task_ID task, r_Type = task_Type task, r_Status = task_Status task,
              r_Payload = task_Payload task, r_Result = None, r_ErrorMessage = None, r_Progress = 0,
              r_ProgressMessage = None, r_RetryCount = 0,
              r_IdempotencyKey = Some (task_IdempotencyKey task),
              r_CreatedBy = Some (task_CreatedBy task), r_CreatedAt = task_CreatedAt task,
              r_StartedAt = None, r_CompletedAt = None, r_UpdatedAt = Some (task_CreatedAt task)\<rparr>)))
       (\<lambda>_. return_db ())"

text \<open>\<open>GetTask\<close> scans the nullable columns into plain strings, which pgx refuses for NULL, and does
  not read the retry count.\<close>

definition GetTask :: "string \<Rightarrow> ('r task_db_scheme, Task) db_op" where
  "GetTask taskID s =
     (case table_find tasks (\<lambda>r. r_ID r = taskID) s of
        (Inl e, s1) \<Rightarrow> (Inl (if e = ErrNotFound then ErrNoRows else e), s1)
      | (Inr r, s1) \<Rightarrow>
          (if r_ErrorMessage r = None \<or> r_IdempotencyKey r = None \<or> r_CreatedBy r = None
           then (Inl ErrDB, s1)
           else (Inr ((scanTask r)\<lparr>task_RetryCount := 0\<rparr>), s1)))"

definition UpdateTaskProgress :: "string \<Rightarrow> int \<Rightarrow> ('r task_db_scheme, unit) db_op" where
  "UpdateTaskProgress taskID progress =
     bind_db (update_tasks [''progress'', ''updated_at''] (\<lambda>r. r_ID r = taskID)
                (\<lambda>now r. r\<lparr>r_Progress := clamp_progress progress, r_UpdatedAt := Some now\<rparr>))
       (\<lambda>_. return_db ())"

section \<open>The table interface\<close>

lemma task_violation_cong: "task_violation s = task_violation t"
  by (simp add: task_violation_def fun_eq_iff)

interpretation tt: table "tasks :: 'r task_db_scheme \<Rightarrow> task_row list" put_tasks task_violation
proof
  fix rows and s :: "'r task_db_scheme"
  show "task_violation (put_tasks rows s) = task_violation s"
    and "task_violation (tables s) = task_violation s" by (rule task_violation_cong)+
qed (simp_all add: put_tasks_def tables_def)

definition tasks_ok :: "'r task_db_scheme \<Rightarrow> bool" where
  "tasks_ok s \<longleftrightarrow> task_violation s (tasks s) = None"

lemma env_free_tasks: "env_free (\<lambda>s. Q (tasks s))"
  by (simp add: env_free_def)



lemma env_free_tasks_ok: "env_free tasks_ok"
  by (simp add: env_free_def tasks_ok_def task_violation_def)

lemma map_filter_map: "List.map_filter f (map g xs) = List.map_filter (f \<circ> g) xs"
  by (induction xs) (simp_all add: List.map_filter_simps split: option.split)

text \<open>An update that leaves the keys alone and writes a known status violates nothing.\<close>

lemma violation_updated:
  assumes "task_violation s rows = None"
    and "\<And>r. P r \<Longrightarrow> r_ID (f now r) = r_ID r \<and> r_IdempotencyKey (f now r) = r_IdempotencyKey r"
    and "\<And>r. P r \<Longrightarrow> r_Status r \<in> set task_statuses \<Longrightarrow> r_Status (f now r) \<in> set task_statuses"
  shows "task_violation s (updated_rows P f now rows) = None"
proof -
  have "map r_ID (updated_rows P f now rows) = map r_ID rows"
    by (rule updated_rows_map) (use assms(2) in simp)
  moreover have "List.map_filter r_IdempotencyKey (updated_rows P f now rows) = List.map_filter r_IdempotencyKey rows"
    using assms(2) by (simp add: updated_rows_def map_filter_map o_def if_distrib cong: if_cong)
  moreover have "r_Status r \<in> set task_statuses" if "r \<in> set (updated_rows P f now rows)" for r
    using that assms(1,3) by (auto simp: task_violation_def updated_rows_def split: if_splits)
  ultimately show ?thesis using assms(1) by (simp add: task_violation_def split: if_splits)
qed

section \<open>A message is settled\<close>

text \<open>The columns the worker's statements name.\<close>

definition worker_columns :: "string list" where
  "worker_columns = [''status'', ''result'', ''error_message'', ''started_at'', ''completed_at'', ''updated_at'']"

definition ready :: "string \<Rightarrow> 'r task_db_scheme \<Rightarrow> bool" where
  "ready i s \<longleftrightarrow> faults s = [] \<and> set worker_columns \<subseteq> set (task_columns s) \<and> tasks_ok s \<and>
     i \<in> r_ID ` set (tasks s)"

definition task_status :: "string \<Rightarrow> 'r task_db_scheme \<Rightarrow> string option" where
  "task_status i s = map_option r_Status (find (\<lambda>r. r_ID r = i) (tasks s))"

definition handler_ok :: "('r task_db_scheme) task_handler \<Rightarrow> bool" where
  "handler_ok h \<longleftrightarrow> (\<forall>task s. ready (task_ID task) s \<longrightarrow>
     ready (task_ID task) (snd (h task s)) \<and> (\<forall>task'. fst (h task s) = Inr task' \<longrightarrow> task_ID task' = task_ID task))"

lemma put_tasks_simps [simp]:
  "tasks (put_tasks rows s) = rows" "task_columns (put_tasks rows s) = task_columns s"
  "faults (put_tasks rows s) = faults s" "clock (put_tasks rows s) = clock s"
  "stream (put_tasks rows s) = stream s" "vms (put_tasks rows s) = vms s"
  by (simp_all add: put_tasks_def)

lemma find_updated:
  assumes "\<And>r. P r \<Longrightarrow> r_ID (f now r) = r_ID r"
  shows "find (\<lambda>r. r_ID r = i) (updated_rows P f now rows) =
    map_option (\<lambda>r. if P r then f now r else r) (find (\<lambda>r. r_ID r = i) rows)"
  using assms by (induction rows) (auto simp: updated_rows_def)

lemma updateTaskStatus_ready:
  assumes "ready (task_ID task) s" and "status \<in> set task_statuses"
  obtains t where "updateTaskStatus task status result errMsg s = (Inr (task\<lparr>task_Status := status\<rparr>), t)"
    "ready (task_ID task) t" "task_status (task_ID task) t = Some status"
proof -
  let ?P = "\<lambda>r. r_ID r = task_ID task"
  let ?started = "if status = TaskStatusRunning then Some (clock s) else None"
  let ?completed = "if status = TaskStatusRunning then None
      else if status = TaskStatusCompleted \<or> status = TaskStatusFailed then Some (clock s) else None"
  let ?coalesce = "\<lambda>new old. case new of None \<Rightarrow> old | Some _ \<Rightarrow> new"
  let ?f = "\<lambda>_ r. r\<lparr>r_Status := status,
     r_Result := (case result of None \<Rightarrow> r_Result r | Some _ \<Rightarrow> result),
     r_ErrorMessage := (case errMsg of None \<Rightarrow> r_ErrorMessage r | Some _ \<Rightarrow> errMsg),
     r_StartedAt := ?coalesce ?started (r_StartedAt r),
     r_CompletedAt := ?coalesce ?completed (r_CompletedAt r),
     r_UpdatedAt := Some (clock s)\<rparr>"
  let ?rows = "updated_rows ?P ?f (clock s) (tasks s)"
  let ?t = "put_tasks ?rows s"
  have ok: "task_violation s ?rows = None"
    using assms by (intro violation_updated) (auto simp: ready_def tasks_ok_def)
  have run: "table_update tasks put_tasks task_violation ?P ?f s = (Inr (length (filter ?P (tasks s))), ?t)"
    using assms(1) ok by (intro tt.update_run) (simp_all add: ready_def)
  have "updateTaskStatus task status result errMsg s = (Inr (task\<lparr>task_Status := status\<rparr>), ?t)"
    using assms(1) run
    by (simp add: updateTaskStatus_def update_tasks_def with_columns_def bind_db_def return_db_def
        Let_def ready_def worker_columns_def)
  moreover have "task_ID task \<in> r_ID ` set ?rows"
  proof -
    have "map r_ID ?rows = map r_ID (tasks s)" by (rule updated_rows_map) simp
    then have "r_ID ` set ?rows = r_ID ` set (tasks s)" by (metis list.set_map)
    then show ?thesis using assms(1) by (simp add: ready_def)
  qed
  then have "ready (task_ID task) ?t"
    using assms(1) ok task_violation_cong [of ?t s] by (simp add: ready_def tasks_ok_def)
  moreover have "task_status (task_ID task) ?t = Some status"
  proof -
    obtain r where r: "find ?P (tasks s) = Some r" "?P r"
      using assms(1) by (cases "find ?P (tasks s)") (auto simp: ready_def find_None_iff find_Some_iff)
    have "find ?P ?rows = map_option (\<lambda>r. if ?P r then ?f (clock s) r else r) (find ?P (tasks s))"
      by (rule find_updated) simp
    then show ?thesis using r by (simp add: task_status_def)
  qed
  ultimately show ?thesis using that by blast
qed

lemma statuses [simp]:
  "TaskStatusRunning \<in> set task_statuses" "TaskStatusFailed \<in> set task_statuses"
  "TaskStatusCompleted \<in> set task_statuses" "TaskStatusPending \<in> set task_statuses"
  by (simp_all add: task_statuses_def)

text \<open>One delivery: the row ends completed or failed, and the reply says which.\<close>

lemma processMessage_settles:
  assumes "ready (task_ID task) s" and "\<And>h. handlers (task_Type task) = Some h \<Longrightarrow> handler_ok h"
    and "m_Data msg = Some task"
  obtains r reply t where "processMessage handlers err_text msg s = (r, reply, t)" "ready (task_ID task) t"
    "reply = Ack \<and> task_status (task_ID task) t =
        Some (if handlers (task_Type task) = None then TaskStatusFailed else TaskStatusCompleted) \<or>
     reply = nak msg \<and> handlers (task_Type task) \<noteq> None \<and> task_status (task_ID task) t = Some TaskStatusFailed"
proof -
  let ?task = "task\<lparr>task_Status := TaskStatusRunning\<rparr>"
  obtain s1 where s1: "updateTaskStatus task TaskStatusRunning None None s = (Inr ?task, s1)"
    "ready (task_ID task) s1" "task_status (task_ID task) s1 = Some TaskStatusRunning"
    by (rule updateTaskStatus_ready [OF assms(1) statuses(1)])
  then have r1: "ready (task_ID ?task) s1" by simp
  show thesis
  proof (cases "handlers (task_Type task)")
    case None
    let ?text = "''no handler registered for task type: '' @ task_Type task"
    obtain t where t: "updateTaskStatus ?task TaskStatusFailed None (Some ?text) s1 = (Inr (?task\<lparr>task_Status := TaskStatusFailed\<rparr>), t)"
      "ready (task_ID ?task) t" "task_status (task_ID ?task) t = Some TaskStatusFailed"
      by (rule updateTaskStatus_ready [OF r1 statuses(2)])
    show ?thesis
    proof (rule that [of "Inr ()" Ack t])
      show "processMessage handlers err_text msg s = (Inr (), Ack, t)"
        using assms(3) s1(1) None t(1) by (simp add: processMessage_def Let_def)
    qed (use t None in simp_all)
  next
    case (Some h)
    obtain r2 s2 where h: "h ?task s1 = (r2, s2)" by (cases "h ?task s1")
    from assms(2) [OF Some, unfolded handler_ok_def, rule_format, OF r1] h
    have after: "ready (task_ID ?task) s2" and same: "\<And>task'. r2 = Inr task' \<Longrightarrow> task_ID task' = task_ID task"
      by simp_all
    show ?thesis
    proof (cases r2)
      case (Inl e)
      obtain t where t: "updateTaskStatus ?task TaskStatusFailed None (Some (err_text e)) s2 = (Inr (?task\<lparr>task_Status := TaskStatusFailed\<rparr>), t)"
        "ready (task_ID ?task) t" "task_status (task_ID ?task) t = Some TaskStatusFailed"
        by (rule updateTaskStatus_ready [OF after statuses(2)])
      show ?thesis
      proof (rule that [of "Inl e" "nak msg" t])
        show "processMessage handlers err_text msg s = (Inl e, nak msg, t)"
          using assms(3) s1(1) Some h Inl t(1) by (simp add: processMessage_def)
      qed (use t Some in simp_all)
    next
      case (Inr task')
      have id': "task_ID task' = task_ID task" and r3: "ready (task_ID task') s2"
        using same [OF Inr] after by simp_all
      obtain t where t: "updateTaskStatus task' TaskStatusCompleted (task_Result task') None s2 = (Inr (task'\<lparr>task_Status := TaskStatusCompleted\<rparr>), t)"
        "ready (task_ID task') t" "task_status (task_ID task') t = Some TaskStatusCompleted"
        by (rule updateTaskStatus_ready [OF r3 statuses(3)])
      show ?thesis
      proof (rule that [of "Inr ()" Ack t])
        show "processMessage handlers err_text msg s = (Inr (), Ack, t)"
          using assms(3) s1(1) Some h Inr t(1) by (simp add: processMessage_def)
      qed (use t Some id' in simp_all)
    qed
  qed
qed

text \<open>All the deliveries of a message, by induction on those still to come.\<close>

lemma redeliver_settles:
  assumes "ready (task_ID task) s" and "\<And>h. handlers (task_Type task) = Some h \<Longrightarrow> handler_ok h"
    and "ns \<noteq> []" and "redeliver handlers err_text task ns s = (rs, t)"
  shows "rs \<noteq> [] \<and> length rs \<le> length ns \<and> (last rs \<noteq> Ack \<longrightarrow> length rs = length ns) \<and>
    butlast rs = map (\<lambda>n. NakWithDelay (nakDelay (of_nat n))) (take (length rs - 1) ns) \<and>
    task_status (task_ID task) t = Some (if last rs = Ack \<and> handlers (task_Type task) \<noteq> None
      then TaskStatusCompleted else TaskStatusFailed)"
  using assms
proof (induction ns arbitrary: s rs t)
  case (Cons n ns)
  let ?msg = "\<lparr>m_Data = Some task, m_NumDelivered = Some (of_nat n)\<rparr> :: nats_msg"
  have hok: "\<And>h. handlers (task_Type task) = Some h \<Longrightarrow> handler_ok h" using Cons.prems(2) by blast
  have data: "m_Data ?msg = Some task" by simp
  obtain r reply s1 where p: "processMessage handlers err_text ?msg s = (r, reply, s1)"
    and ready: "ready (task_ID task) s1"
    and out: "reply = Ack \<and> task_status (task_ID task) s1 =
        Some (if handlers (task_Type task) = None then TaskStatusFailed else TaskStatusCompleted) \<or>
     reply = nak ?msg \<and> handlers (task_Type task) \<noteq> None \<and> task_status (task_ID task) s1 = Some TaskStatusFailed"
    by (rule processMessage_settles [OF Cons.prems(1) hok data])
  show ?case
  proof (cases "reply = Ack")
    case True
    then have "rs = [Ack]" "t = s1" using Cons.prems(4) p by auto
    then show ?thesis using out True by (auto simp: nak_def)
  next
    case False
    then have nak: "reply = NakWithDelay (nakDelay (of_nat n))" "task_status (task_ID task) s1 = Some TaskStatusFailed"
      using out by (auto simp: nak_def)
    obtain rs' t' where rest: "redeliver handlers err_text task ns s1 = (rs', t')"
      by (cases "redeliver handlers err_text task ns s1")
    then have rs: "rs = NakWithDelay (nakDelay (of_nat n)) # rs'" "t = t'"
      using Cons.prems(4) p nak by auto
    show ?thesis
    proof (cases "ns = []")
      case True
      then show ?thesis using rs rest nak by simp
    next
      case False
      from Cons.IH [OF ready hok False rest] obtain m where "length rs' = Suc m" "rs' \<noteq> []"
        by (cases rs') auto
      then show ?thesis using Cons.IH [OF ready hok False rest] rs by simp
    qed
  qed
qed simp

section \<open>Publishing under a key\<close>

definition has_task_key :: "string \<Rightarrow> 'r task_db_scheme \<Rightarrow> bool" where
  "has_task_key k s \<longleftrightarrow> (\<exists>r\<in>set (tasks s). r_IdempotencyKey r = Some k)"

lemma same_task_tables:
  assumes "tables s = tables t"
  shows "tasks s = tasks t" "stream s = stream t" "task_columns s = task_columns t" "vms s = vms t"
proof -
  have "tasks (tables s) = tasks s" "stream (tables s) = stream s" "task_columns (tables s) = task_columns s"
      "vms (tables s) = vms s" for s :: "'a task_db_scheme"
    by (simp_all add: tables_def)
  then show "tasks s = tasks t" "stream s = stream t" "task_columns s = task_columns t" "vms s = vms t"
    using assms by metis+
qed

lemma map_filter_set: "set (List.map_filter f xs) = {y. \<exists>x\<in>set xs. f x = Some y}"
  by (induction xs) (auto simp: List.map_filter_simps split: option.splits)

lemma map_filter_snoc:
  "List.map_filter f (xs @ [x]) = List.map_filter f xs @ (case f x of None \<Rightarrow> [] | Some y \<Rightarrow> [y])"
  by (induction xs) (simp_all add: List.map_filter_simps split: option.split)

text \<open>An insert either changes nothing, or adds one row that violates nothing.\<close>

lemma publish_cases:
  assumes "PublishTaskWithIdempotencyKey taskType (Some payload) k s = (r, t)" and "k \<noteq> ''''"
  obtains (refused) e where "r = Inl e" "tables t = tables s"
  | (added) row where "tasks t = tasks s @ [row]" "r_IdempotencyKey row = Some k"
      "r_Status row = TaskStatusPending" "r_ID row = gen_uuid s (next_id s)" "r = Inr (r_ID row) \<or> r = Inl ErrDB"
      "\<not> has_task_key k s" "stream t = stream s" "tasks_ok t"
proof -
  let ?s = "s\<lparr>next_id := Suc (next_id s)\<rparr>"
  let ?mk = "\<lambda>now. \<lparr>r_ID = gen_uuid s (next_id s), r_Type = taskType, r_Status = TaskStatusPending,
              r_Payload = payload, r_Result = None, r_ErrorMessage = None, r_Progress = 0, r_ProgressMessage = None,
              r_RetryCount = 0, r_IdempotencyKey = Some k, r_CreatedBy = None, r_CreatedAt = now,
              r_StartedAt = None, r_CompletedAt = None, r_UpdatedAt = None\<rparr> :: task_row"
  have op: "PublishTaskWithIdempotencyKey taskType (Some payload) k s =
      bind_db (with_columns task_columns taskSelectCols (table_insert tasks put_tasks task_violation ?mk))
        (\<lambda>_. return_db (gen_uuid s (next_id s))) ?s"
    using assms(2)
    by (simp add: PublishTaskWithIdempotencyKey_def task_Create_def NewTask_def null_if_empty_def Let_def
        bind_db_def return_db_def split: prod.splits sum.splits)
  have keep: "tables ?s = tables s" by simp
  show thesis
  proof (cases "set taskSelectCols \<subseteq> set (task_columns ?s)")
    case False
    then show ?thesis using assms(1) op refused by (auto simp: bind_db_def with_columns_def)
  next
    case True
    obtain r1 t1 where ins: "table_insert tasks put_tasks task_violation ?mk ?s = (r1, t1)"
      by (cases "table_insert tasks put_tasks task_violation ?mk ?s")
    with assms(1) op True have rt: "t = t1" "(\<exists>e. r1 = Inl e \<and> r = Inl e) \<or> ((\<exists>x. r1 = Inr x) \<and> r = Inr (gen_uuid s (next_id s)))"
      by (auto simp: bind_db_def with_columns_def return_db_def split: sum.splits)
    from ins show ?thesis
    proof (cases rule: tt.insert_cases)
      case (refused e)
      then show ?thesis using rt that(1) keep by auto
    next
      case written
      let ?row = "?mk (clock ?s)"
      have t: "tasks t = tasks s @ [?row]" "stream t = stream s"
        using same_task_tables [OF written(1)] rt(1) by simp_all
      have new: "\<not> has_task_key k s"
        using written(2)
        by (auto simp: task_violation_def has_task_key_def map_filter_snoc map_filter_set split: if_splits)
      have ok: "tasks_ok t" using written(2) t(1) task_violation_cong [of t ?s] by (simp add: tasks_ok_def)
      show ?thesis
        by (rule added [of ?row]) (use t new ok rt(2) written(3) in auto)
    qed
  qed
qed

lemma publish_again:
  assumes "attempts n (PublishTaskWithIdempotencyKey taskType (Some payload) k) s = (rs, t)"
    and "k \<noteq> ''''" and "has_task_key k s"
  shows "tables t = tables s \<and> (\<forall>r\<in>set rs. \<exists>e. r = Inl e)"
  using assms(1,3)
proof (induction n arbitrary: s rs)
  case (Suc n)
  from Suc.prems(1) obtain r s1 rs' where st: "PublishTaskWithIdempotencyKey taskType (Some payload) k s = (r, s1)"
    "attempts n (PublishTaskWithIdempotencyKey taskType (Some payload) k) s1 = (rs', t)" "rs = r # rs'"
    by (rule attempts_Suc)
  from st(1) assms(2) show ?case
  proof (cases rule: publish_cases)
    case (refused e)
    then have "has_task_key k s1" using Suc.prems(2) same_task_tables(1) [OF refused(2)] by (simp add: has_task_key_def)
    from Suc.IH [OF st(2) this] show ?thesis using refused st(3) by auto
  qed (use Suc.prems(2) in blast)
qed simp

text \<open>Publishing leaves the stream the worker consumes as it is, and every new row pending.\<close>

lemma publish_attempts:
  assumes "attempts n (PublishTaskWithIdempotencyKey taskType (Some payload) k) s = (rs, t)"
    and "k \<noteq> ''''" and "\<not> has_task_key k s"
  shows "stream t = stream s \<and> length (filter (\<lambda>r. \<exists>i. r = Inr i) rs) \<le> 1 \<and>
    (tasks t = tasks s \<and> filter (\<lambda>r. \<exists>i. r = Inr i) rs = [] \<or>
     (\<exists>row. tasks t = tasks s @ [row] \<and> r_IdempotencyKey row = Some k \<and> r_Status row = TaskStatusPending \<and>
       (\<forall>i. Inr i \<in> set rs \<longrightarrow> i = r_ID row)))"
  using assms(1,3)
proof (induction n arbitrary: s rs)
  case (Suc n)
  from Suc.prems(1) obtain r s1 rs' where st: "PublishTaskWithIdempotencyKey taskType (Some payload) k s = (r, s1)"
    "attempts n (PublishTaskWithIdempotencyKey taskType (Some payload) k) s1 = (rs', t)" "rs = r # rs'"
    by (rule attempts_Suc)
  from st(1) assms(2) show ?case
  proof (cases rule: publish_cases)
    case (refused e)
    then have same: "tasks s1 = tasks s" "stream s1 = stream s" and "\<not> has_task_key k s1"
      using Suc.prems(2) same_task_tables [OF refused(2)] by (simp_all add: has_task_key_def)
    from Suc.IH [OF st(2) this(3)] show ?thesis using refused st(3) same by auto
  next
    case (added row)
    then have "has_task_key k s1" by (auto simp: has_task_key_def)
    from publish_again [OF st(2) assms(2) this]
    have same: "tasks t = tasks s1" "stream t = stream s1" "\<forall>r\<in>set rs'. \<exists>e. r = Inl e"
      using same_task_tables [of t s1] by simp_all
    then have "filter (\<lambda>r. \<exists>i. r = Inr i) rs' = []" by (auto simp: filter_empty_conv)
    then show ?thesis using same added st(3) by auto
  qed
qed simp

section \<open>Stuck tasks\<close>

definition reset_row :: "int \<Rightarrow> task_row \<Rightarrow> task_row" where
  "reset_row now r = r\<lparr>r_Status := TaskStatusPending, r_ErrorMessage := None, r_StartedAt := None,
                  r_CompletedAt := None, r_UpdatedAt := Some now\<rparr>"

lemma updated_rows_twice:
  assumes "\<And>r. P r \<Longrightarrow> Q (f now r) = Q r" and "\<And>r. f now (f now r) = f now r"
  shows "updated_rows Q f now (updated_rows P f now rows) = updated_rows (\<lambda>r. P r \<or> Q r) f now rows"
  using assms by (auto simp: updated_rows_def)

lemma ResetTask_run:
  assumes "faults s = []" "set worker_columns \<subseteq> set (task_columns s)" "tasks_ok s" "i \<in> r_ID ` set (tasks s)"
  shows "ResetTask i s = (Inr (), put_tasks (updated_rows (\<lambda>r. r_ID r = i) reset_row (clock s) (tasks s)) s)"
proof -
  have "task_violation s (updated_rows (\<lambda>r. r_ID r = i) reset_row (clock s) (tasks s)) = None"
    using assms(3) by (intro violation_updated) (auto simp: tasks_ok_def reset_row_def)
  then have "table_update tasks put_tasks task_violation (\<lambda>r. r_ID r = i) reset_row s =
      (Inr (length (filter (\<lambda>r. r_ID r = i) (tasks s))), put_tasks (updated_rows (\<lambda>r. r_ID r = i) reset_row (clock s) (tasks s)) s)"
    using assms(1) by (intro tt.update_run)
  moreover have "filter (\<lambda>r. r_ID r = i) (tasks s) \<noteq> []" using assms(4) by (auto simp: filter_empty_conv)
  ultimately show ?thesis using assms(2)
    by (simp add: ResetTask_def set_task_def require_affected_def update_tasks_def with_columns_def bind_db_def
        return_db_def worker_columns_def reset_row_def [abs_def])
qed

lemma recover_all_run:
  assumes "faults s = []" "set worker_columns \<subseteq> set (task_columns s)" "tasks_ok s"
    and "\<forall>t\<in>set ts. task_RetryCount t < maxTaskRetries \<and> task_ID t \<in> r_ID ` set (tasks s)"
  shows "recover_all ts s =
    (Inr (), put_tasks (updated_rows (\<lambda>r. r_ID r \<in> task_ID ` set ts) reset_row (clock s) (tasks s)) s)"
  using assms
proof (induction ts arbitrary: s)
  case Nil
  have "updated_rows (\<lambda>r. False) reset_row (clock s) (tasks s) = tasks s" by (simp add: updated_rows_def)
  then show ?case by (simp add: return_db_def put_tasks_def)
next
  case (Cons task ts)
  let ?rows = "updated_rows (\<lambda>r. r_ID r = task_ID task) reset_row (clock s) (tasks s)"
  let ?s1 = "put_tasks ?rows s"
  have one: "recover_one task s = (Inr (), ?s1)"
    using ResetTask_run [OF Cons.prems(1-3), of "task_ID task"] Cons.prems(4)
    by (simp add: recover_one_def log_error_def)
  have "map r_ID ?rows = map r_ID (tasks s)" by (rule updated_rows_map) (simp add: reset_row_def)
  then have ids: "r_ID ` set ?rows = r_ID ` set (tasks s)" by (metis list.set_map)
  have "task_violation s ?rows = None"
    using Cons.prems(3) by (intro violation_updated) (auto simp: tasks_ok_def reset_row_def)
  then have ok: "tasks_ok ?s1" using task_violation_cong [of ?s1 s] by (simp add: tasks_ok_def)
  have rest: "recover_all ts ?s1 = (Inr (), put_tasks (updated_rows (\<lambda>r. r_ID r \<in> task_ID ` set ts) reset_row (clock s) ?rows) ?s1)"
    using Cons.IH [of ?s1] Cons.prems ids ok by simp
  have "updated_rows (\<lambda>r. r_ID r \<in> task_ID ` set ts) reset_row (clock s) ?rows =
      updated_rows (\<lambda>r. r_ID r = task_ID task \<or> r_ID r \<in> task_ID ` set ts) reset_row (clock s) (tasks s)"
    by (rule updated_rows_twice) (simp_all add: reset_row_def)
  then show ?case using one rest by (simp add: bind_db_def put_tasks_def)
qed

section \<open>Histories\<close>

definition retry_free :: "'r task_db_scheme \<Rightarrow> bool" where
  "retry_free s \<longleftrightarrow> (\<forall>r\<in>set (tasks s). r_RetryCount r = 0)"

datatype task_cmd =
    Publish string "string option" string
  | Deliver nats_msg
  | Scan int
  | Tick nat

fun exec_task ::
  "(string \<rightharpoonup> ('r task_db_scheme) task_handler) \<Rightarrow> (error \<Rightarrow> string) \<Rightarrow> task_cmd \<Rightarrow> 'r task_db_scheme \<Rightarrow> 'r task_db_scheme" where
  "exec_task hs txt (Publish taskType payload k) s = snd (PublishTaskWithIdempotencyKey taskType payload k s)"
| "exec_task hs txt (Deliver msg) s = snd (snd (processMessage hs txt msg s))"
| "exec_task hs txt (Scan threshold) s = snd (recoverStuckTasks threshold s)"
| "exec_task hs txt (Tick n) s = s\<lparr>clock := clock s + int n\<rparr>"

definition run_tasks ::
  "(string \<rightharpoonup> ('r task_db_scheme) task_handler) \<Rightarrow> (error \<Rightarrow> string) \<Rightarrow> task_cmd list \<Rightarrow> 'r task_db_scheme \<Rightarrow> 'r task_db_scheme" where
  "run_tasks hs txt cmds s = fold (exec_task hs txt) cmds s"

definition keeps_retries :: "('r task_db_scheme) task_handler \<Rightarrow> bool" where
  "keeps_retries h \<longleftrightarrow> (\<forall>task s. retry_free s \<longrightarrow> retry_free (snd (h task s)))"

lemma env_free_retry_free: "env_free retry_free"
  by (simp add: env_free_def retry_free_def)

lemma retry_free_simps [simp]:
  "retry_free (pop_fault s) = retry_free s" "retry_free (s\<lparr>next_id := n\<rparr>) = retry_free s"
  "retry_free (s\<lparr>clock := c\<rparr>) = retry_free s"
  "retry_free (put_tasks rows s) = (\<forall>r\<in>set rows. r_RetryCount r = 0)"
  by (simp_all add: retry_free_def pop_fault_def)

lemma update_tasks_retry_free:
  assumes "retry_free s" and "\<And>now r. r_RetryCount (f now r) = r_RetryCount r"
  shows "retry_free (snd (update_tasks cols P f s))"
  unfolding update_tasks_def
  by (rule with_columns_keeps [where P = retry_free], rule tt.update_keeps)
    (use assms in \<open>auto simp: env_free_retry_free updated_rows_def retry_free_def [of s]\<close>)

lemma updateTaskStatus_retry_free:
  assumes "retry_free s"
  shows "retry_free (snd (updateTaskStatus task status result errMsg s))"
  unfolding updateTaskStatus_def Let_def
  by (rule bind_keeps [where P = retry_free], rule update_tasks_retry_free)
    (use assms in \<open>simp_all add: return_db_def\<close>)

lemma processMessage_retry_free:
  assumes "retry_free s" and "\<And>ty h. handlers ty = Some h \<Longrightarrow> keeps_retries h"
  shows "retry_free (snd (snd (processMessage handlers err_text msg s)))"
proof (cases "m_Data msg")
  case None
  then show ?thesis using assms(1) by (simp add: processMessage_def)
next
  case (Some task0)
  obtain r1 s1 where u: "updateTaskStatus task0 TaskStatusRunning None None s = (r1, s1)"
    by (cases "updateTaskStatus task0 TaskStatusRunning None None s")
  then have s1: "retry_free s1" using updateTaskStatus_retry_free [OF assms(1)] by (metis sndI)
  show ?thesis
  proof (cases r1)
    case (Inl e)
    then show ?thesis using u s1 Some by (simp add: processMessage_def)
  next
    case (Inr task)
    show ?thesis
    proof (cases "handlers (task_Type task)")
      case None
      then show ?thesis using u Some Inr updateTaskStatus_retry_free [OF s1] by (simp add: processMessage_def Let_def)
    next
      case (Some h)
      obtain r2 s2 where h: "h task s1 = (r2, s2)" by (cases "h task s1")
      then have "retry_free s2" using assms(2) [OF Some] s1 by (metis keeps_retries_def sndI)
      then show ?thesis using u \<open>m_Data msg = Some task0\<close> Inr Some h updateTaskStatus_retry_free
        by (auto simp: processMessage_def split: sum.split)
    qed
  qed
qed

lemma recover_all_retry_free:
  assumes "retry_free s" and "\<forall>t\<in>set ts. task_RetryCount t = 0"
  shows "retry_free (snd (recover_all ts s))"
  using assms
proof (induction ts arbitrary: s)
  case (Cons task ts)
  have "retry_free (snd (ResetTask (task_ID task) s))"
    unfolding ResetTask_def set_task_def
    by (rule require_affected_keeps [where P = retry_free], rule update_tasks_retry_free)
      (use Cons.prems in simp_all)
  then have "retry_free (snd (recover_one task s))"
    using Cons.prems by (simp add: recover_one_def log_error_def maxTaskRetries_def)
  then show ?case
    by (cases "recover_one task s") (use Cons in \<open>auto simp: bind_db_def split: sum.split\<close>)
qed (simp add: return_db_def)

lemma FindStuckTasks_rows:
  assumes "FindStuckTasks threshold s = (Inr ts, t)"
  shows "\<exists>rows. set rows \<subseteq> set (tasks s) \<and> ts = map scanTask rows"
proof (cases "set taskSelectCols \<subseteq> set (task_columns s)")
  case True
  let ?q = "\<lambda>now rows. map scanTask (sort_key (\<lambda>r. case r_StartedAt r of None \<Rightarrow> 0 | Some st \<Rightarrow> st)
         (filter (is_stuck now threshold) rows))"
  from True assms have "auto_stmt (\<lambda>s. (Inr (?q (clock s) (tasks s)), s)) s = (Inr ts, t)"
    by (simp add: FindStuckTasks_def with_columns_def table_select_def)
  then show ?thesis
  proof (cases rule: auto_stmt_cases)
    case (2 s1)
    then have "ts = ?q (clock s1) (tasks s)" using same_task_tables(1) [OF 2(1)] by (metis Pair_inject sum.inject(2))
    then show ?thesis by (intro exI [of _ "sort_key (\<lambda>r. case r_StartedAt r of None \<Rightarrow> 0 | Some st \<Rightarrow> st)
         (filter (is_stuck (clock s1) threshold) (tasks s))"]) auto
  qed simp_all
qed (use assms in \<open>simp add: FindStuckTasks_def with_columns_def\<close>)

lemma recoverStuckTasks_retry_free:
  assumes "retry_free s"
  shows "retry_free (snd (recoverStuckTasks threshold s))"
proof -
  obtain r s1 where f: "FindStuckTasks threshold s = (r, s1)" by (cases "FindStuckTasks threshold s")
  have "tables (snd (FindStuckTasks threshold s)) = tables s"
    unfolding FindStuckTasks_def by (rule with_columns_keeps) simp_all
  then have s1: "retry_free s1" using f assms env_freeD [OF env_free_retry_free, of s1 s] by simp
  show ?thesis
  proof (cases r)
    case (Inr ts)
    then have "\<forall>t\<in>set ts. task_RetryCount t = 0"
      using FindStuckTasks_rows [of threshold s ts s1] f assms by (fastforce simp: retry_free_def scanTask_def)
    then show ?thesis using f Inr recover_all_retry_free [OF s1] by (simp add: recoverStuckTasks_def)
  qed (use f s1 in \<open>simp add: recoverStuckTasks_def\<close>)
qed

lemma publish_retry_free:
  assumes "retry_free s"
  shows "retry_free (snd (PublishTaskWithIdempotencyKey taskType payload k s))"
proof (cases payload)
  case (Some p)
  let ?s = "s\<lparr>next_id := Suc (next_id s)\<rparr>"
  have "retry_free (snd (task_Create ((NewTask (clock s) (gen_uuid s (next_id s)) taskType p)\<lparr>task_IdempotencyKey := k\<rparr>) ?s))"
    unfolding task_Create_def
    by (rule bind_keeps [where P = retry_free], rule with_columns_keeps [where P = retry_free], rule tt.insert_keeps)
      (use assms in \<open>auto simp: env_free_retry_free return_db_def NewTask_def retry_free_def [of s]\<close>)
  then have "retry_free (snd (bind_db (task_Create ((NewTask (clock s) (gen_uuid s (next_id s)) taskType p)
        \<lparr>task_IdempotencyKey := k\<rparr>)) (\<lambda>_. return_db (gen_uuid s (next_id s))) ?s))"
    by (rule bind_keeps [where P = retry_free]) (simp add: return_db_def)
  then show ?thesis using Some by (simp add: PublishTaskWithIdempotencyKey_def Let_def)
qed (use assms in \<open>simp add: PublishTaskWithIdempotencyKey_def Let_def\<close>)

lemma run_tasks_retry_free:
  assumes "retry_free s" and "\<And>ty h. handlers ty = Some h \<Longrightarrow> keeps_retries h"
  shows "retry_free (run_tasks handlers err_text cmds s)"
  using assms(1) unfolding run_tasks_def
proof (induction cmds arbitrary: s)
  case (Cons c cmds)
  have "retry_free (exec_task handlers err_text c s)"
  proof (cases c)
    case (Deliver msg)
    then show ?thesis using processMessage_retry_free [OF Cons.prems] assms(2) by simp
  qed (use Cons.prems publish_retry_free recoverStuckTasks_retry_free in auto)
  then show ?case using Cons.IH by simp
qed simp

section \<open>Properties\<close>

definition ex_row :: "string \<Rightarrow> string \<Rightarrow> task_row" where
  "ex_row i st =
     \<lparr>r_ID = i, r_Type = ''vm.delete'', r_Status = st, r_Payload = ''{}'', r_Result = None, r_ErrorMessage = None,
      r_Progress = 0, r_ProgressMessage = None, r_RetryCount = 0, r_IdempotencyKey = None, r_CreatedBy = None,
      r_CreatedAt = 1, r_StartedAt = (if st = TaskStatusRunning then Some 2 else None), r_CompletedAt = None,
      r_UpdatedAt = None\<rparr>"

definition ex_task_db :: "fault list \<Rightarrow> string list \<Rightarrow> task_row list \<Rightarrow> task_db" where
  "ex_task_db fs cols rows =
     \<lparr>faults = fs, next_id = 0, gen_uuid = (\<lambda>n. replicate n (CHR ''a'')), clock = 5000,
      balances = Map.empty, ledger = [], vms = [], backend_required = True, billing_providers = Map.empty,
      tasks = rows, task_columns = cols, stream = []\<rparr>"

lemma ex_task_db_simps [simp]:
  "faults (ex_task_db fs cols rows) = fs" "task_columns (ex_task_db fs cols rows) = cols"
  "tasks (ex_task_db fs cols rows) = rows" "stream (ex_task_db fs cols rows) = []"
  "clock (ex_task_db fs cols rows) = 5000"
  by (simp_all add: ex_task_db_def)

lemma ex_row_simps [simp]:
  "r_ID (ex_row i st) = i" "r_Status (ex_row i st) = st" "r_IdempotencyKey (ex_row i st) = None"
  "r_RetryCount (ex_row i st) = 0"
  "r_StartedAt (ex_row i st) = (if st = TaskStatusRunning then Some 2 else None)"
  by (simp_all add: ex_row_def)

lemma ex_tasks_ok:
  "st \<in> set task_statuses \<Longrightarrow> tasks_ok (ex_task_db fs cols [ex_row i st])"
  by (simp add: tasks_ok_def task_violation_def List.map_filter_simps)

text \<open>A handler that fails the first time it is called and succeeds afterwards (it remembers the
  call in the stream).\<close>

definition flaky :: "task_db task_handler" where
  "flaky task s = (if stream s = [] then (Inl ErrTimeout, s\<lparr>stream := [task]\<rparr>) else (Inr task, s))"

lemma flaky_ok: "handler_ok flaky"
  by (auto simp: handler_ok_def flaky_def ready_def tasks_ok_def task_violation_def)

text \<open>C26. On a table that has the columns the worker names, and with a working connection, a
  published task is settled: after at most three deliveries its row is completed, if a handler is
  registered and the last delivery was acknowledged, and failed otherwise; the message is given up
  only after the third delivery, and every earlier delivery was answered by a request for redelivery
  after the delay of its number.\<close>

theorem consume_settles:
  assumes "ready (task_ID task) s" and "\<forall>h. handlers (task_Type task) = Some h \<longrightarrow> handler_ok h"
  shows "case consume handlers err_text task s of (replies, t) \<Rightarrow>
    replies \<noteq> [] \<and> length replies \<le> MaxDeliver \<and> (last replies \<noteq> Ack \<longrightarrow> length replies = MaxDeliver) \<and>
    butlast replies = map (\<lambda>n. NakWithDelay (nakDelay (of_nat n))) [1..<length replies] \<and>
    task_status (task_ID task) t = Some (if last replies = Ack \<and> handlers (task_Type task) \<noteq> None
      then TaskStatusCompleted else TaskStatusFailed)"
proof -
  obtain rs t where c: "consume handlers err_text task s = (rs, t)" by (cases "consume handlers err_text task s")
  note r = redeliver_settles [OF assms(1) _ _ c [unfolded consume_def], simplified MaxDeliver_def]
  have "take (length rs - 1) [1..<Suc 3] = [1..<length rs]" if "length rs \<le> 3" "rs \<noteq> []"
    using that by (cases "length rs") (simp_all add: take_upt)
  then show ?thesis using r assms(2) c by (auto simp: MaxDeliver_def)
qed

theorem consume_settles_witness:
  "case consume [''vm.delete'' \<mapsto> flaky] (\<lambda>_. ''timeout'') (scanTask (ex_row ''t1'' TaskStatusPending))
       (ex_task_db [] (tasks_migrated @ [''updated_at'']) [ex_row ''t1'' TaskStatusPending]) of (replies, t) \<Rightarrow>
    length replies \<le> MaxDeliver \<and>
    task_status ''t1'' t = Some (if last replies = Ack then TaskStatusCompleted else TaskStatusFailed)"
proof -
  let ?task = "scanTask (ex_row ''t1'' TaskStatusPending)"
  let ?s = "ex_task_db [] (tasks_migrated @ [''updated_at'']) [ex_row ''t1'' TaskStatusPending]"
  have "ready (task_ID ?task) ?s"
    by (simp add: ready_def ex_tasks_ok scanTask_def worker_columns_def tasks_migrated_def)
  moreover have ty: "task_Type ?task = ''vm.delete''" "task_ID ?task = ''t1''" by (simp_all add: scanTask_def ex_row_def)
  then have "\<forall>h. [''vm.delete'' \<mapsto> flaky] (task_Type ?task) = Some h \<longrightarrow> handler_ok h"
    using flaky_ok by simp
  ultimately show ?thesis using consume_settles [of ?task ?s "[''vm.delete'' \<mapsto> flaky]" "\<lambda>_. ''timeout''"] ty
    by (auto split: prod.splits)
qed

text \<open>C28. On the table the migrations create, which has no column \<^verbatim>\<open>updated_at\<close>, the worker never
  runs a task: whatever handlers are registered and whatever the connection does, all three
  deliveries of a message are sent back after ten, sixty and three hundred seconds, and no table
  changes.\<close>

theorem worker_never_runs:
  assumes "task_columns s = tasks_migrated"
  shows "\<exists>t. consume handlers err_text task s =
      ([NakWithDelay (10 * 1000000000), NakWithDelay (60 * 1000000000), NakWithDelay (300 * 1000000000)], t) \<and>
    tables t = tables s"
proof -
  have step: "processMessage handlers err_text \<lparr>m_Data = Some task, m_NumDelivered = Some n\<rparr> s =
      (Inl ErrDB, NakWithDelay (nakDelay n), pop_fault s)" if "task_columns s = tasks_migrated"
    for n and s :: "'a task_db_scheme"
    using that by (simp add: processMessage_def updateTaskStatus_def update_tasks_def with_columns_def
        bind_db_def Let_def nak_def tasks_migrated_def)
  have pop: "task_columns (pop_fault s) = task_columns s" for s :: "'a task_db_scheme"
    by (simp add: pop_fault_def)
  have delays: "nakDelay 1 = 10 * 1000000000" "nakDelay 2 = 60 * 1000000000" "nakDelay 3 = 300 * 1000000000"
    by code_simp+
  have "[1..<Suc MaxDeliver] = [1, 2, 3]" by (simp add: MaxDeliver_def upt_rec)
  then show ?thesis using assms delays
    by (simp add: consume_def step pop)
qed

theorem worker_never_runs_witness:
  "\<exists>t. consume [''vm.delete'' \<mapsto> flaky] (\<lambda>_. '''') (scanTask (ex_row ''t1'' TaskStatusPending))
         (ex_task_db [] tasks_migrated [ex_row ''t1'' TaskStatusPending]) =
      ([NakWithDelay (10 * 1000000000), NakWithDelay (60 * 1000000000), NakWithDelay (300 * 1000000000)], t) \<and>
    tasks t = [ex_row ''t1'' TaskStatusPending]"
proof -
  have "task_columns (ex_task_db [] tasks_migrated [ex_row ''t1'' TaskStatusPending]) = tasks_migrated" by simp
  from worker_never_runs [OF this, of "[''vm.delete'' \<mapsto> flaky]" "\<lambda>_. ''''" "scanTask (ex_row ''t1'' TaskStatusPending)"]
  obtain t where t: "consume [''vm.delete'' \<mapsto> flaky] (\<lambda>_. '''') (scanTask (ex_row ''t1'' TaskStatusPending))
         (ex_task_db [] tasks_migrated [ex_row ''t1'' TaskStatusPending]) =
      ([NakWithDelay (10 * 1000000000), NakWithDelay (60 * 1000000000), NakWithDelay (300 * 1000000000)], t)"
    "tables t = tables (ex_task_db [] tasks_migrated [ex_row ''t1'' TaskStatusPending])" by (elim exE conjE)
  show ?thesis by (rule exI [of _ t]) (use t(1) same_task_tables(1) [OF t(2)] in simp)
qed

text \<open>C27. However often a task is published under one idempotency key, and whatever the connection
  does to the attempts, at most one row is added and at most one attempt reports success, with the id
  of that row; the row is pending, and nothing is put on the stream the worker consumes.\<close>

theorem publish_once:
  assumes "attempts n (PublishTaskWithIdempotencyKey taskType (Some payload) k) s = (rs, t)"
    and "k \<noteq> ''''" and "\<not> has_task_key k s"
  shows "stream t = stream s \<and> length (filter (\<lambda>r. \<exists>i. r = Inr i) rs) \<le> 1 \<and>
    (tasks t = tasks s \<and> filter (\<lambda>r. \<exists>i. r = Inr i) rs = [] \<or>
     (\<exists>row. tasks t = tasks s @ [row] \<and> r_IdempotencyKey row = Some k \<and> r_Status row = TaskStatusPending \<and>
       (\<forall>i. Inr i \<in> set rs \<longrightarrow> i = r_ID row)))"
  by (rule publish_attempts [OF assms])

theorem publish_once_witness:
  "stream (snd (attempts 3 (PublishTaskWithIdempotencyKey ''vm.create'' (Some ''{}'') ''k'')
       (ex_task_db [ReplyLost] tasks_migrated []))) = []"
proof -
  let ?s = "ex_task_db [ReplyLost] tasks_migrated []"
  obtain rs t where a: "attempts 3 (PublishTaskWithIdempotencyKey ''vm.create'' (Some ''{}'') ''k'') ?s = (rs, t)"
    by (cases "attempts 3 (PublishTaskWithIdempotencyKey ''vm.create'' (Some ''{}'') ''k'') ?s")
  have "\<not> has_task_key ''k'' ?s" by (simp add: has_task_key_def)
  with publish_once [OF a] a show ?thesis by simp
qed





end
