(* ===== verification/IPAM.thy ===== *)
theory IPAM
  imports Tasks
begin

text \<open>
  IP address management: \<^verbatim>\<open>models/ip.go\<close>, \<^verbatim>\<open>repository/ip_repo.go\<close> and
  \<^verbatim>\<open>services/ipam_service.go\<close>. The tables are the lists of their rows with the constraints of the
  migrations 1, 45 and 58. An IPv6 address is its sixteen bytes (\<open>netip.Addr.As16\<close>); a CIDR value
  is an address with a prefix length. The text forms that pgx and \<^verbatim>\<open>net/netip\<close> print and parse
  stand for the same values and are not modelled. PostgreSQL's order on \<^verbatim>\<open>INET\<close>, which decides which
  free address is taken first, is the argument \<open>inet_key\<close>, and the rows other statements hold locked
  at the moment of an allocation are the argument \<open>locked\<close>.
\<close>

section \<open>Data\<close>

definition IPStatusAvailable :: string where "IPStatusAvailable = ''available''"
definition IPStatusAssigned :: string where "IPStatusAssigned = ''assigned''"
definition IPStatusReserved :: string where "IPStatusReserved = ''reserved''"
definition IPStatusCooldown :: string where "IPStatusCooldown = ''cooldown''"

lemmas IPStatus_defs = IPStatusAvailable_def IPStatusAssigned_def IPStatusReserved_def IPStatusCooldown_def

text \<open>\<open>IPCooldownDuration\<close>, in seconds like every instant of the model.\<close>

definition IPCooldownDuration :: int where "IPCooldownDuration = 5 * 60"

record IPSet =
  set_ID :: string
  set_Name :: string
  set_LocationID :: "string option"
  set_Network :: string
  set_Gateway :: string
  set_VLANID :: "int option"
  set_IPVersion :: int
  set_NodeIDs :: "string list"
  set_CreatedAt :: int

record IPAddress =
  ip_ID :: string
  ip_IPSetID :: string
  ip_Address :: string
  ip_IPVersion :: int
  ip_VMID :: "string option"
  ip_CustomerID :: "string option"
  ip_IsPrimary :: bool
  ip_RDNSHostname :: "string option"
  ip_Status :: string
  ip_AssignedAt :: "int option"
  ip_ReleasedAt :: "int option"
  ip_CooldownUntil :: "int option"
  ip_CreatedAt :: int

type_synonym addr = "8 word list"

record IPv6Prefix =
  px_ID :: string
  px_NodeID :: string
  px_Prefix :: "addr \<times> nat"
  px_CreatedAt :: int

record VMIPv6Subnet =
  sn_ID :: string
  sn_VMID :: string
  sn_IPv6PrefixID :: string
  sn_Subnet :: "addr \<times> nat"
  sn_SubnetIndex :: int
  sn_Gateway :: addr
  sn_CreatedAt :: int

record ip_db = task_db +
  ip_sets :: "IPSet list"
  ip_addresses :: "IPAddress list"
  ipv6_prefixes :: "IPv6Prefix list"
  vm_ipv6_subnets :: "VMIPv6Subnet list"

section \<open>Constraints\<close>

definition ip_statuses :: "string list" where
  "ip_statuses = [IPStatusAvailable, IPStatusAssigned, IPStatusReserved, IPStatusCooldown]"

definition primary_vm :: "IPAddress \<Rightarrow> string option" where
  "primary_vm a = (if ip_IsPrimary a then ip_VMID a else None)"

definition ip_violation :: "'r ip_db_scheme \<Rightarrow> IPAddress list \<Rightarrow> error option" where
  "ip_violation s rows =
     (if \<not> (\<forall>a\<in>set rows. ip_Status a \<in> set ip_statuses \<and> ip_IPVersion a \<in> {4, 6}) then Some ErrDB
      else if \<not> distinct (map ip_ID rows) then Some (ErrUniqueViolation ''ip_addresses_pkey'')
      else if \<not> distinct (map ip_Address rows) then Some (ErrUniqueViolation ''ip_addresses_address_key'')
      else if \<not> distinct (List.map_filter primary_vm rows)
        then Some (ErrUniqueViolation ''uq_ip_addresses_vm_primary'')
      else None)"

definition set_violation :: "'r ip_db_scheme \<Rightarrow> IPSet list \<Rightarrow> error option" where
  "set_violation s rows =
     (if \<not> (\<forall>a\<in>set rows. set_IPVersion a \<in> {4, 6}) then Some ErrDB
      else if \<not> distinct (map set_ID rows) then Some (ErrUniqueViolation ''ip_sets_pkey'')
      else None)"

definition prefix_violation :: "'r ip_db_scheme \<Rightarrow> IPv6Prefix list \<Rightarrow> error option" where
  "prefix_violation s rows =
     (if \<not> distinct (map px_ID rows) then Some (ErrUniqueViolation ''ipv6_prefixes_pkey'') else None)"

definition subnet_violation :: "'r ip_db_scheme \<Rightarrow> VMIPv6Subnet list \<Rightarrow> error option" where
  "subnet_violation s rows =
     (if \<not> distinct (map sn_ID rows) then Some (ErrUniqueViolation ''vm_ipv6_subnets_pkey'')
      else if \<not> distinct (map (\<lambda>r. (sn_IPv6PrefixID r, sn_SubnetIndex r)) rows)
        then Some (ErrUniqueViolation ''uq_ipv6_subnets_prefix_index'')
      else None)"

definition put_ips :: "IPAddress list \<Rightarrow> 'r ip_db_scheme \<Rightarrow> 'r ip_db_scheme" where
  "put_ips rows s = s\<lparr>ip_addresses := rows\<rparr>"

definition put_sets :: "IPSet list \<Rightarrow> 'r ip_db_scheme \<Rightarrow> 'r ip_db_scheme" where
  "put_sets rows s = s\<lparr>ip_sets := rows\<rparr>"

definition put_prefixes :: "IPv6Prefix list \<Rightarrow> 'r ip_db_scheme \<Rightarrow> 'r ip_db_scheme" where
  "put_prefixes rows s = s\<lparr>ipv6_prefixes := rows\<rparr>"

definition put_subnets :: "VMIPv6Subnet list \<Rightarrow> 'r ip_db_scheme \<Rightarrow> 'r ip_db_scheme" where
  "put_subnets rows s = s\<lparr>vm_ipv6_subnets := rows\<rparr>"

section \<open>IP sets\<close>

definition CreateIPSet :: "IPSet \<Rightarrow> ('r ip_db_scheme, IPSet) db_op" where
  "CreateIPSet ipSet = with_uuid (\<lambda>i. table_insert ip_sets put_sets set_violation
     (\<lambda>now. ipSet\<lparr>set_ID := i, set_CreatedAt := now\<rparr>))"

definition GetIPSetByID :: "string \<Rightarrow> ('r ip_db_scheme, IPSet) db_op" where
  "GetIPSetByID i = table_find ip_sets (\<lambda>r. set_ID r = i)"

definition GetIPSetByName :: "string \<Rightarrow> ('r ip_db_scheme, IPSet) db_op" where
  "GetIPSetByName name = table_find ip_sets (\<lambda>r. set_Name r = name)"

record IPSetListFilter =
  sf_PerPage :: nat
  sf_LastID :: string
  sf_LocationID :: "string option"
  sf_IPVersion :: "int option"

definition ListIPSets :: "IPSetListFilter \<Rightarrow> ('r ip_db_scheme, IPSet list \<times> bool \<times> string) db_op" where
  "ListIPSets filt =
     bind_db (table_select ip_sets (\<lambda>_ rows.
          take (cursorPageLimit (int (sf_PerPage filt)))
            (id_desc set_ID (filter (\<lambda>r. sf_LastID filt \<noteq> '''' \<longrightarrow> set_ID r < sf_LastID filt)
               (filter (\<lambda>r. (case sf_LocationID filt of None \<Rightarrow> True | Some l \<Rightarrow> set_LocationID r = Some l) \<and>
                            (case sf_IPVersion filt of None \<Rightarrow> True | Some v \<Rightarrow> set_IPVersion r = v)) rows)))))
       (\<lambda>ipSets.
          let hasMore = length ipSets > sf_PerPage filt;
              page = (if hasMore then take (sf_PerPage filt) ipSets else ipSets);
              lastID = (if page \<noteq> [] then set_ID (last page) else '''')
          in return_db (page, hasMore, lastID))"

definition UpdateIPSet :: "IPSet \<Rightarrow> ('r ip_db_scheme, unit) db_op" where
  "UpdateIPSet ipSet =
     require_affected ErrNoRowsAffected
       (table_update ip_sets put_sets set_violation (\<lambda>r. set_ID r = set_ID ipSet)
          (\<lambda>_ r. ipSet\<lparr>set_ID := set_ID r, set_CreatedAt := set_CreatedAt r\<rparr>))"

text \<open>Deleting a set deletes its addresses (\<^verbatim>\<open>ON DELETE CASCADE\<close>).\<close>

definition DeleteIPSet :: "string \<Rightarrow> ('r ip_db_scheme, unit) db_op" where
  "DeleteIPSet i =
     require_affected ErrNoRowsAffected
       (auto_stmt (\<lambda>s. (Inr (length (filter (\<lambda>r. set_ID r = i) (ip_sets s))),
          s\<lparr>ip_sets := filter (\<lambda>r. set_ID r \<noteq> i) (ip_sets s),
             ip_addresses := filter (\<lambda>a. ip_IPSetID a \<noteq> i) (ip_addresses s)\<rparr>)))"

section \<open>IPv4 addresses\<close>

definition CreateIPAddress :: "IPAddress \<Rightarrow> ('r ip_db_scheme, IPAddress) db_op" where
  "CreateIPAddress ip = with_uuid (\<lambda>i. table_insert ip_addresses put_ips ip_violation
     (\<lambda>now. ip\<lparr>ip_ID := i, ip_AssignedAt := None, ip_ReleasedAt := None, ip_CooldownUntil := None,
              ip_CreatedAt := now\<rparr>))"

definition GetIPAddressByID :: "string \<Rightarrow> ('r ip_db_scheme, IPAddress) db_op" where
  "GetIPAddressByID i = table_find ip_addresses (\<lambda>a. ip_ID a = i)"

definition GetIPAddressByAddress :: "string \<Rightarrow> ('r ip_db_scheme, IPAddress) db_op" where
  "GetIPAddressByAddress address = table_find ip_addresses (\<lambda>a. ip_Address a = address)"

record IPAddressListFilter =
  af_PerPage :: nat
  af_LastID :: string
  af_IPSetID :: "string option"
  af_VMID :: "string option"
  af_CustomerID :: "string option"
  af_Status :: "string option"

definition address_where :: "IPAddressListFilter \<Rightarrow> IPAddress \<Rightarrow> bool" where
  "address_where filt a \<longleftrightarrow>
     (case af_IPSetID filt of None \<Rightarrow> True | Some v \<Rightarrow> ip_IPSetID a = v) \<and>
     (case af_VMID filt of None \<Rightarrow> True | Some v \<Rightarrow> ip_VMID a = Some v) \<and>
     (case af_CustomerID filt of None \<Rightarrow> True | Some v \<Rightarrow> ip_CustomerID a = Some v) \<and>
     (case af_Status filt of None \<Rightarrow> True | Some v \<Rightarrow> ip_Status a = v)"

definition ListIPAddresses ::
  "IPAddressListFilter \<Rightarrow> ('r ip_db_scheme, IPAddress list \<times> bool \<times> string) db_op" where
  "ListIPAddresses filt =
     (let perPage = (if af_PerPage filt \<le> 0 then nat DefaultPerPage else af_PerPage filt) in
      bind_db (table_select ip_addresses (\<lambda>_ rows.
          take (perPage + 1)
            (id_desc ip_ID (filter (\<lambda>a. af_LastID filt \<noteq> '''' \<longrightarrow> ip_ID a < af_LastID filt)
               (filter (address_where filt) rows)))))
       (\<lambda>ips.
          let hasMore = length ips > perPage;
              page = (if hasMore then take perPage ips else ips);
              lastID = (if page \<noteq> [] then ip_ID (last page) else '''')
          in return_db (page, hasMore, lastID)))"

text \<open>\<open>GROUP BY status\<close>: a status without rows has no entry in the map.\<close>

definition CountIPsByStatus :: "string \<Rightarrow> ('r ip_db_scheme, string \<rightharpoonup> nat) db_op" where
  "CountIPsByStatus ipSetID = table_select ip_addresses (\<lambda>_ rows status.
     let n = length (filter (\<lambda>a. ip_IPSetID a = ipSetID \<and> ip_Status a = status) rows)
     in if n = 0 then None else Some n)"

text \<open>\<open>SELECT id ... WHERE status = 'available' ORDER BY address LIMIT 1 FOR UPDATE SKIP LOCKED\<close>\<close>

definition free_ip :: "(string \<Rightarrow> nat) \<Rightarrow> (string \<Rightarrow> bool) \<Rightarrow> string \<Rightarrow> IPAddress list \<Rightarrow> IPAddress option" where
  "free_ip inet_key locked ipSetID rows =
     (case sort_key (\<lambda>a. inet_key (ip_Address a))
         (filter (\<lambda>a. ip_IPSetID a = ipSetID \<and> ip_Status a = IPStatusAvailable \<and> \<not> locked (ip_ID a)) rows) of
        [] \<Rightarrow> None
      | a # _ \<Rightarrow> Some a)"

definition assign_ip :: "string \<Rightarrow> string \<Rightarrow> int \<Rightarrow> IPAddress \<Rightarrow> IPAddress" where
  "assign_ip vmID customerID now a =
     a\<lparr>ip_Status := IPStatusAssigned, ip_VMID := Some vmID, ip_CustomerID := Some customerID,
       ip_AssignedAt := Some now\<rparr>"

definition repo_AllocateIPv4 ::
  "(string \<Rightarrow> nat) \<Rightarrow> (string \<Rightarrow> bool) \<Rightarrow> string \<Rightarrow> string \<Rightarrow> string \<Rightarrow> ('r ip_db_scheme, IPAddress) db_op" where
  "repo_AllocateIPv4 inet_key locked ipSetID vmID customerID =
     auto_stmt (\<lambda>s. case free_ip inet_key locked ipSetID (ip_addresses s) of
         None \<Rightarrow> (Inl (ErrMsg ''no available IPv4 addresses''), s)
       | Some a \<Rightarrow>
           table_write put_ips ip_violation
             (updated_rows (\<lambda>r. ip_ID r = ip_ID a) (assign_ip vmID customerID) (clock s) (ip_addresses s))
             (assign_ip vmID customerID (clock s) a) s)"

definition release_ip :: "int \<Rightarrow> IPAddress \<Rightarrow> IPAddress" where
  "release_ip now a =
     a\<lparr>ip_Status := IPStatusCooldown, ip_VMID := None, ip_CustomerID := None, ip_ReleasedAt := Some now,
       ip_CooldownUntil := Some (now + IPCooldownDuration), ip_IsPrimary := False\<rparr>"

definition repo_ReleaseIPv4 :: "string \<Rightarrow> ('r ip_db_scheme, unit) db_op" where
  "repo_ReleaseIPv4 ipID =
     require_affected ErrNoRowsAffected
       (table_update ip_addresses put_ips ip_violation
          (\<lambda>a. ip_ID a = ipID \<and> ip_Status a = IPStatusAssigned) release_ip)"

definition repo_SetRDNS :: "string \<Rightarrow> string \<Rightarrow> ('r ip_db_scheme, unit) db_op" where
  "repo_SetRDNS ipID hostname =
     require_affected ErrNoRowsAffected
       (table_update ip_addresses put_ips ip_violation (\<lambda>a. ip_ID a = ipID)
          (\<lambda>_ a. a\<lparr>ip_RDNSHostname := Some hostname\<rparr>))"

definition repo_GetRDNS :: "string \<Rightarrow> ('r ip_db_scheme, string) db_op" where
  "repo_GetRDNS ipID s =
     (case table_find ip_addresses (\<lambda>a. ip_ID a = ipID) s of
        (Inl e, s1) \<Rightarrow> (Inl (if e = ErrNotFound then ErrNoRowsAffected else e), s1)
      | (Inr a, s1) \<Rightarrow> (Inr (string_or_empty (ip_RDNSHostname a)), s1))"

section \<open>IPv6 prefixes and subnets\<close>

definition CreateIPv6Prefix :: "IPv6Prefix \<Rightarrow> ('r ip_db_scheme, IPv6Prefix) db_op" where
  "CreateIPv6Prefix prefix = with_uuid (\<lambda>i. table_insert ipv6_prefixes put_prefixes prefix_violation
     (\<lambda>now. prefix\<lparr>px_ID := i, px_CreatedAt := now\<rparr>))"

definition GetIPv6PrefixByNode :: "string \<Rightarrow> ('r ip_db_scheme, IPv6Prefix) db_op" where
  "GetIPv6PrefixByNode nodeID = table_find ipv6_prefixes (\<lambda>p. px_NodeID p = nodeID)"

definition DeleteIPv6Prefix :: "string \<Rightarrow> ('r ip_db_scheme, unit) db_op" where
  "DeleteIPv6Prefix i =
     require_affected ErrNoRowsAffected
       (auto_stmt (\<lambda>s. (Inr (length (filter (\<lambda>p. px_ID p = i) (ipv6_prefixes s))),
          s\<lparr>ipv6_prefixes := filter (\<lambda>p. px_ID p \<noteq> i) (ipv6_prefixes s),
             vm_ipv6_subnets := filter (\<lambda>n. sn_IPv6PrefixID n \<noteq> i) (vm_ipv6_subnets s)\<rparr>)))"

definition CreateVMIPv6Subnet :: "VMIPv6Subnet \<Rightarrow> ('r ip_db_scheme, VMIPv6Subnet) db_op" where
  "CreateVMIPv6Subnet subnet = with_uuid (\<lambda>i. table_insert vm_ipv6_subnets put_subnets subnet_violation
     (\<lambda>now. subnet\<lparr>sn_ID := i, sn_CreatedAt := now\<rparr>))"

definition by_index :: "VMIPv6Subnet list \<Rightarrow> VMIPv6Subnet list" where
  "by_index rows = sort_key sn_SubnetIndex rows"

definition GetVMIPv6SubnetsByVM :: "string \<Rightarrow> ('r ip_db_scheme, VMIPv6Subnet list) db_op" where
  "GetVMIPv6SubnetsByVM vmID = table_select vm_ipv6_subnets
     (\<lambda>_ rows. by_index (filter (\<lambda>n. sn_VMID n = vmID) rows))"

definition DeleteVMIPv6SubnetsByVM :: "string \<Rightarrow> ('r ip_db_scheme, unit) db_op" where
  "DeleteVMIPv6SubnetsByVM vmID =
     bind_db (table_delete vm_ipv6_subnets put_subnets subnet_violation (\<lambda>n. sn_VMID n = vmID))
       (\<lambda>_. return_db ())"

definition GetVMIPv6SubnetsByPrefix :: "string \<Rightarrow> ('r ip_db_scheme, VMIPv6Subnet list) db_op" where
  "GetVMIPv6SubnetsByPrefix prefixID = table_select vm_ipv6_subnets
     (\<lambda>_ rows. by_index (filter (\<lambda>n. sn_IPv6PrefixID n = prefixID) rows))"

definition GetVMIPv6SubnetByID :: "string \<Rightarrow> ('r ip_db_scheme, VMIPv6Subnet) db_op" where
  "GetVMIPv6SubnetByID i = table_find vm_ipv6_subnets (\<lambda>n. sn_ID n = i)"

definition DeleteVMIPv6SubnetByID :: "string \<Rightarrow> ('r ip_db_scheme, unit) db_op" where
  "DeleteVMIPv6SubnetByID i =
     require_affected ErrNoRowsAffected
       (table_delete vm_ipv6_subnets put_subnets subnet_violation (\<lambda>n. sn_ID n = i))"

text \<open>The bytes 6 and 7 of the address are overwritten by the index, the last byte of the gateway by
  one.\<close>

definition generateIPv6Subnet :: "addr \<times> nat \<Rightarrow> int \<Rightarrow> (addr \<times> nat) \<times> addr" where
  "generateIPv6Subnet prefix subnetIndex =
     (let byte6 = take_bit 8 (drop_bit 8 subnetIndex);
          byte7 = take_bit 8 subnetIndex;
          bytes = (fst prefix)[6 := word_of_int byte6, 7 := word_of_int byte7]
      in ((bytes, 64), bytes[15 := 1]))"

definition max_index :: "string \<Rightarrow> VMIPv6Subnet list \<Rightarrow> int" where
  "max_index prefixID rows =
     fold max (map sn_SubnetIndex (filter (\<lambda>n. sn_IPv6PrefixID n = prefixID) rows)) (-1)"

definition lock_prefix :: "string \<Rightarrow> ('r ip_db_scheme, addr \<times> nat) db_op" where
  "lock_prefix prefixID = tx_stmt (\<lambda>s. case find (\<lambda>p. px_ID p = prefixID) (ipv6_prefixes s) of
     None \<Rightarrow> (Inl ErrNoRows, s) | Some p \<Rightarrow> (Inr (px_Prefix p), s))"

definition read_max_index :: "string \<Rightarrow> ('r ip_db_scheme, int) db_op" where
  "read_max_index prefixID = tx_stmt (\<lambda>s. (Inr (max_index prefixID (vm_ipv6_subnets s)), s))"

definition insert_subnet :: "string \<Rightarrow> string \<Rightarrow> addr \<times> nat \<Rightarrow> int \<Rightarrow> ('r ip_db_scheme, VMIPv6Subnet) db_op" where
  "insert_subnet vmID prefixID prefix nextIndex =
     (case generateIPv6Subnet prefix nextIndex of (subnet, gateway) \<Rightarrow>
        tx_stmt (with_uuid (\<lambda>i s.
          let row = \<lparr>sn_ID = i, sn_VMID = vmID, sn_IPv6PrefixID = prefixID, sn_Subnet = subnet,
                     sn_SubnetIndex = nextIndex, sn_Gateway = gateway, sn_CreatedAt = clock s\<rparr>
          in table_write put_subnets subnet_violation (vm_ipv6_subnets s @ [row]) row s)))"

definition CreateVMIPv6SubnetWithIndexCheck :: "string \<Rightarrow> string \<Rightarrow> ('r ip_db_scheme, VMIPv6Subnet) db_op" where
  "CreateVMIPv6SubnetWithIndexCheck vmID prefixID =
     transaction (
       bind_db (lock_prefix prefixID) (\<lambda>prefix.
       bind_db (read_max_index prefixID) (\<lambda>maxIndex.
       if maxIndex + 1 \<ge> 65536 then throw_db (ErrMsg ''IPv6 prefix is exhausted'')
       else bind_db (insert_subnet vmID prefixID prefix (maxIndex + 1))
              (\<lambda>created. return_db (Commit created)))))"

section \<open>The service\<close>

fun try_sets ::
  "(string \<Rightarrow> nat) \<Rightarrow> (string \<Rightarrow> bool) \<Rightarrow> string \<Rightarrow> string \<Rightarrow> IPSet list \<Rightarrow> error option \<Rightarrow>
   ('r ip_db_scheme, IPAddress) db_op" where
  "try_sets inet_key locked vmID customerID [] lastErr s =
     (Inl (case lastErr of Some e \<Rightarrow> e | None \<Rightarrow> ErrMsg ''all IPv4 sets exhausted''), s)"
| "try_sets inet_key locked vmID customerID (ipSet # ipSets) lastErr s =
     (case repo_AllocateIPv4 inet_key locked (set_ID ipSet) vmID customerID s of
        (Inl e, s1) \<Rightarrow> try_sets inet_key locked vmID customerID ipSets (Some e) s1
      | (Inr ip, s1) \<Rightarrow> (Inr ip, s1))"

text \<open>The filter sets the location and the version, and leaves the page size at its zero value.\<close>

definition AllocateIPv4 ::
  "(string \<Rightarrow> nat) \<Rightarrow> (string \<Rightarrow> bool) \<Rightarrow> string \<Rightarrow> string \<Rightarrow> string \<Rightarrow> ('r ip_db_scheme, IPAddress) db_op" where
  "AllocateIPv4 inet_key locked locationID vmID customerID =
     bind_db (ListIPSets \<lparr>sf_PerPage = 0, sf_LastID = '''', sf_LocationID = Some locationID,
                sf_IPVersion = Some 4\<rparr>)
       (\<lambda>(ipSets, _, _).
          if ipSets = [] then throw_db (ErrMsg ''no IPv4 IP set found'')
          else try_sets inet_key locked vmID customerID ipSets None)"

definition not_found_message :: "string \<Rightarrow> error \<Rightarrow> error" where
  "not_found_message message e = (if e = ErrNotFound then ErrMsg message else e)"

definition ReleaseIPv4 :: "string \<Rightarrow> ('r ip_db_scheme, unit) db_op" where
  "ReleaseIPv4 ipID s =
     (case GetIPAddressByID ipID s of
        (Inl e, s1) \<Rightarrow> (Inl (not_found_message ''IP address not found'' e), s1)
      | (Inr ip, s1) \<Rightarrow>
          if ip_Status ip \<noteq> IPStatusAssigned then (Inl (ErrMsg ''not currently assigned''), s1)
          else repo_ReleaseIPv4 ipID s1)"

definition AllocateIPv6 :: "string \<Rightarrow> string \<Rightarrow> string \<Rightarrow> ('r ip_db_scheme, VMIPv6Subnet) db_op" where
  "AllocateIPv6 vmID customerID nodeID s =
     (case GetIPv6PrefixByNode nodeID s of
        (Inl e, s1) \<Rightarrow> (Inl (not_found_message ''no IPv6 prefix assigned to node'' e), s1)
      | (Inr prefix, s1) \<Rightarrow> CreateVMIPv6SubnetWithIndexCheck vmID (px_ID prefix) s1)"

definition ReleaseIPv6 :: "string \<Rightarrow> ('r ip_db_scheme, unit) db_op" where
  "ReleaseIPv6 subnetID s =
     (case GetVMIPv6SubnetByID subnetID s of
        (Inl e, s1) \<Rightarrow> (Inl (not_found_message ''IPv6 subnet not found'' e), s1)
      | (Inr _, s1) \<Rightarrow> DeleteVMIPv6SubnetByID subnetID s1)"

definition ipam_SetRDNS :: "string \<Rightarrow> string \<Rightarrow> ('r ip_db_scheme, unit) db_op" where
  "ipam_SetRDNS ipID hostname s =
     (case GetIPAddressByID ipID s of
        (Inl e, s1) \<Rightarrow> (Inl (not_found_message ''IP address not found'' e), s1)
      | (Inr _, s1) \<Rightarrow> repo_SetRDNS ipID hostname s1)"

definition vm_filter :: "string \<Rightarrow> IPAddressListFilter" where
  "vm_filter vmID = \<lparr>af_PerPage = 0, af_LastID = '''', af_IPSetID = None, af_VMID = Some vmID,
     af_CustomerID = None, af_Status = None\<rparr>"

definition ListVMAddresses :: "string \<Rightarrow> ('r ip_db_scheme, IPAddress list) db_op" where
  "ListVMAddresses vmID = bind_db (ListIPAddresses (vm_filter vmID)) (\<lambda>(ips, _, _). return_db ips)"

definition GetPrimaryIPv4 :: "string \<Rightarrow> ('r ip_db_scheme, IPAddress) db_op" where
  "GetPrimaryIPv4 vmID =
     bind_db (ListIPAddresses (vm_filter vmID)) (\<lambda>(ips, _, _).
       case find (\<lambda>a. ip_IsPrimary a \<and> ip_IPVersion a = 4) ips of
         Some a \<Rightarrow> return_db a
       | None \<Rightarrow> throw_db ErrNotFound)"

fun release_each :: "IPAddress list \<Rightarrow> 'r ip_db_scheme \<Rightarrow> error list \<times> 'r ip_db_scheme" where
  "release_each [] s = ([], s)"
| "release_each (ip # ips) s =
     (if ip_Status ip = IPStatusAssigned then
        (case repo_ReleaseIPv4 (ip_ID ip) s of
           (Inl e, s1) \<Rightarrow> (case release_each ips s1 of (es, s2) \<Rightarrow> (e # es, s2))
         | (Inr _, s1) \<Rightarrow> release_each ips s1)
      else release_each ips s)"

definition ReleaseIPsByVM :: "string \<Rightarrow> ('r ip_db_scheme, unit) db_op" where
  "ReleaseIPsByVM vmID =
     bind_db (ListIPAddresses (vm_filter vmID)) (\<lambda>(ips, _, _) s.
       case release_each ips s of (releaseErrors, s1) \<Rightarrow>
         let s2 = snd (DeleteVMIPv6SubnetsByVM vmID s1) in
         if releaseErrors \<noteq> [] then (Inl (ErrMsg ''errors releasing IPs''), s2) else (Inr (), s2))"

definition GetIPv6SubnetsByVM :: "string \<Rightarrow> ('r ip_db_scheme, VMIPv6Subnet list) db_op" where
  "GetIPv6SubnetsByVM vmID = GetVMIPv6SubnetsByVM vmID"

section \<open>The tables as instances of the interface\<close>

lemma violation_cong:
  "ip_violation s = ip_violation t" "set_violation s = set_violation t"
  "prefix_violation s = prefix_violation t" "subnet_violation s = subnet_violation t"
  by (simp_all add: ip_violation_def set_violation_def prefix_violation_def subnet_violation_def fun_eq_iff)

interpretation ipt: table "ip_addresses :: 'r ip_db_scheme \<Rightarrow> IPAddress list" put_ips ip_violation
proof
  fix rows and s :: "'r ip_db_scheme"
  show "ip_violation (put_ips rows s) = ip_violation s" "ip_violation (tables s) = ip_violation s"
    by (rule violation_cong)+
qed (simp_all add: put_ips_def tables_def)

interpretation sett: table "ip_sets :: 'r ip_db_scheme \<Rightarrow> IPSet list" put_sets set_violation
proof
  fix rows and s :: "'r ip_db_scheme"
  show "set_violation (put_sets rows s) = set_violation s" "set_violation (tables s) = set_violation s"
    by (rule violation_cong)+
qed (simp_all add: put_sets_def tables_def)

interpretation pxt: table "ipv6_prefixes :: 'r ip_db_scheme \<Rightarrow> IPv6Prefix list" put_prefixes prefix_violation
proof
  fix rows and s :: "'r ip_db_scheme"
  show "prefix_violation (put_prefixes rows s) = prefix_violation s" "prefix_violation (tables s) = prefix_violation s"
    by (rule violation_cong)+
qed (simp_all add: put_prefixes_def tables_def)

interpretation snt: table "vm_ipv6_subnets :: 'r ip_db_scheme \<Rightarrow> VMIPv6Subnet list" put_subnets subnet_violation
proof
  fix rows and s :: "'r ip_db_scheme"
  show "subnet_violation (put_subnets rows s) = subnet_violation s" "subnet_violation (tables s) = subnet_violation s"
    by (rule violation_cong)+
qed (simp_all add: put_subnets_def tables_def)

lemma put_simps [simp]:
  "ip_addresses (put_sets x s) = ip_addresses s" "ip_addresses (put_prefixes y s) = ip_addresses s"
  "ip_addresses (put_subnets z s) = ip_addresses s" "vm_ipv6_subnets (put_ips w s) = vm_ipv6_subnets s"
  "vm_ipv6_subnets (put_sets x s) = vm_ipv6_subnets s" "vm_ipv6_subnets (put_prefixes y s) = vm_ipv6_subnets s"
  "ipv6_prefixes (put_ips w s) = ipv6_prefixes s" "ipv6_prefixes (put_sets x s) = ipv6_prefixes s"
  "ipv6_prefixes (put_subnets z s) = ipv6_prefixes s" "faults (put_ips w s) = faults s"
  "faults (put_subnets z s) = faults s" "clock (put_ips w s) = clock s"
  "vms (put_ips w s) = vms s" "vms (put_subnets z s) = vms s" "tasks (put_ips w s) = tasks s"
  "tasks (put_subnets z s) = tasks s" "task_columns (put_ips w s) = task_columns s"
  "task_columns (put_subnets z s) = task_columns s"
  by (simp_all add: put_sets_def put_prefixes_def put_subnets_def put_ips_def)

definition ips_ok :: "'r ip_db_scheme \<Rightarrow> bool" where
  "ips_ok s \<longleftrightarrow> ip_violation s (ip_addresses s) = None"

text \<open>Every subnet is the one its prefix and its index give.\<close>

definition subnet_of :: "IPv6Prefix list \<Rightarrow> VMIPv6Subnet \<Rightarrow> bool" where
  "subnet_of prefixes n \<longleftrightarrow> 0 \<le> sn_SubnetIndex n \<and> sn_SubnetIndex n < 65536 \<and>
     (\<exists>p\<in>set prefixes. px_ID p = sn_IPv6PrefixID n \<and>
        (sn_Subnet n, sn_Gateway n) = generateIPv6Subnet (px_Prefix p) (sn_SubnetIndex n))"

definition subnets_ok :: "'r ip_db_scheme \<Rightarrow> bool" where
  "subnets_ok s \<longleftrightarrow> prefix_violation s (ipv6_prefixes s) = None \<and>
     subnet_violation s (vm_ipv6_subnets s) = None \<and>
     (\<forall>n\<in>set (vm_ipv6_subnets s). subnet_of (ipv6_prefixes s) n)"

section \<open>The life of an address\<close>

text \<open>How a row may change: an available address may be assigned, an assigned address keeps its holder
  until it is released into cooldown, and a row in cooldown or reserved keeps its status.\<close>

definition ip_life :: "IPAddress \<Rightarrow> IPAddress \<Rightarrow> bool" where
  "ip_life a b \<longleftrightarrow> ip_ID b = ip_ID a \<and> ip_Address b = ip_Address a \<and> ip_IPSetID b = ip_IPSetID a \<and>
     (if ip_Status a = IPStatusAvailable then ip_Status b \<in> {IPStatusAvailable, IPStatusAssigned, IPStatusCooldown}
      else if ip_Status a = IPStatusAssigned then
        ip_Status b = IPStatusAssigned \<and> ip_VMID b = ip_VMID a \<and> ip_CustomerID b = ip_CustomerID a \<or>
        ip_Status b = IPStatusCooldown
      else ip_Status b = ip_Status a)"

definition ips_evolve :: "IPAddress list \<Rightarrow> IPAddress list \<Rightarrow> bool" where
  "ips_evolve rows rows' \<longleftrightarrow> length rows \<le> length rows' \<and> (\<forall>i<length rows. ip_life (rows ! i) (rows' ! i))"

lemma ip_status_distinct [simp]:
  "IPStatusAvailable \<noteq> IPStatusAssigned" "IPStatusAssigned \<noteq> IPStatusAvailable"
  "IPStatusCooldown \<noteq> IPStatusAvailable" "IPStatusCooldown \<noteq> IPStatusAssigned"
  "IPStatusAvailable \<noteq> IPStatusCooldown" "IPStatusAssigned \<noteq> IPStatusCooldown"
  by (simp_all add: IPStatus_defs)

lemma ip_life_refl [simp]: "ip_life a a"
  by (simp add: ip_life_def)

lemma ip_life_trans: "ip_life a b \<Longrightarrow> ip_life b c \<Longrightarrow> ip_life a c"
  by (auto simp: ip_life_def split: if_splits)

lemma ips_evolve_refl [simp]: "ips_evolve rows rows"
  by (simp add: ips_evolve_def)

lemma ips_evolve_trans: "ips_evolve xs ys \<Longrightarrow> ips_evolve ys zs \<Longrightarrow> ips_evolve xs zs"
  unfolding ips_evolve_def by (meson ip_life_trans less_le_trans order_trans)

lemma ips_evolve_append: "ips_evolve rows (rows @ new)"
  by (simp add: ips_evolve_def nth_append)

lemma ips_evolve_update:
  assumes "\<And>a. a \<in> set rows \<Longrightarrow> P a \<Longrightarrow> ip_life a (f now a)"
  shows "ips_evolve rows (updated_rows P f now rows)"
  using assms by (simp add: ips_evolve_def updated_rows_def)

text \<open>The state an operation may leave: tables without violations, and addresses that have evolved from
  \<open>rows\<close>.\<close>

definition ip_from :: "IPAddress list \<Rightarrow> 'r ip_db_scheme \<Rightarrow> bool" where
  "ip_from rows s \<longleftrightarrow> ips_ok s \<and> ips_evolve rows (ip_addresses s) \<and> subnets_ok s"

lemma env_free_ip_from: "env_free (ip_from rows)"
  by (simp add: env_free_def ip_from_def ips_ok_def ip_violation_def subnets_ok_def prefix_violation_def
      subnet_violation_def)

lemma reads_from:
  "ip_from rows s \<Longrightarrow> tables t = tables s \<Longrightarrow> ip_from rows t"
  using env_freeD [OF env_free_ip_from] by blast

lemma ip_from_put:
  assumes "ip_from rows s" "ip_violation s new = None" "ips_evolve (ip_addresses s) new"
  shows "ip_from rows (put_ips new s)"
  using assms ips_evolve_trans violation_cong [of "put_ips new s" s]
  by (auto simp: ip_from_def ips_ok_def subnets_ok_def)

lemma update_ip_from:
  assumes "ip_from rows s" "\<And>now a. P a \<Longrightarrow> ip_life a (f now a)"
  shows "ip_from rows (snd (table_update ip_addresses put_ips ip_violation P f s))"
  by (rule ipt.update_keeps [OF env_free_ip_from assms(1)])
    (use assms in \<open>auto intro!: ip_from_put ips_evolve_update\<close>)

lemma repo_SetRDNS_from: "ip_from rows s \<Longrightarrow> ip_from rows (snd (repo_SetRDNS i h s))"
  unfolding repo_SetRDNS_def
  by (rule require_affected_keeps [where P = "ip_from rows"], rule update_ip_from) (simp_all add: ip_life_def)

lemma repo_ReleaseIPv4_from: "ip_from rows s \<Longrightarrow> ip_from rows (snd (repo_ReleaseIPv4 i s))"
  unfolding repo_ReleaseIPv4_def
  by (rule require_affected_keeps [where P = "ip_from rows"], rule update_ip_from)
    (simp_all add: ip_life_def release_ip_def)

lemma free_ip_Some:
  assumes "free_ip inet_key locked ipSetID rows = Some a"
  shows "a \<in> set rows" "ip_IPSetID a = ipSetID" "ip_Status a = IPStatusAvailable" "\<not> locked (ip_ID a)"
proof -
  let ?free = "sort_key (\<lambda>a. inet_key (ip_Address a))
      (filter (\<lambda>a. ip_IPSetID a = ipSetID \<and> ip_Status a = IPStatusAvailable \<and> \<not> locked (ip_ID a)) rows)"
  from assms obtain more where "?free = a # more" unfolding free_ip_def by (auto split: list.splits)
  then have "a \<in> set ?free" by (metis list.set_intros(1))
  then show "a \<in> set rows" "ip_IPSetID a = ipSetID" "ip_Status a = IPStatusAvailable" "\<not> locked (ip_ID a)"
    by simp_all
qed

lemma ips_ok_unique:
  assumes "ips_ok s" "a \<in> set (ip_addresses s)" "b \<in> set (ip_addresses s)" "ip_ID a = ip_ID b"
  shows "a = b"
  using assms by (auto simp: ips_ok_def ip_violation_def distinct_map inj_on_def split: if_splits)

text \<open>An allocation takes one available row that no other statement holds, or changes nothing.\<close>

lemma allocate_cases:
  assumes "repo_AllocateIPv4 inet_key locked ipSetID vmID customerID s = (r, t)" and "ips_ok s"
  obtains (refused) e where "r = Inl e" "tables t = tables s"
  | (taken) a where "a \<in> set (ip_addresses s)" "ip_Status a = IPStatusAvailable" "ip_IPSetID a = ipSetID"
      "\<not> locked (ip_ID a)"
      "tables t = tables (put_ips (updated_rows (\<lambda>b. ip_ID b = ip_ID a) (assign_ip vmID customerID) (clock s) (ip_addresses s)) s)"
      "ips_ok t" "r = Inr (assign_ip vmID customerID (clock s) a) \<or> r = Inl ErrDB"
proof -
  have outcome: "(\<exists>e. r1 = Inl e \<and> tables t = tables s) \<or>
      (\<exists>a. free_ip inet_key locked ipSetID (ip_addresses s) = Some a \<and>
        tables t = tables (put_ips (updated_rows (\<lambda>b. ip_ID b = ip_ID a) (assign_ip vmID customerID) (clock s) (ip_addresses s)) s) \<and>
        ip_violation s (updated_rows (\<lambda>b. ip_ID b = ip_ID a) (assign_ip vmID customerID) (clock s) (ip_addresses s)) = None \<and>
        r1 = Inr (assign_ip vmID customerID (clock s) a))"
    if eq: "tables s1 = tables s" and "(case free_ip inet_key locked ipSetID (ip_addresses s1) of
         None \<Rightarrow> (Inl (ErrMsg ''no available IPv4 addresses''), s1)
       | Some a \<Rightarrow> table_write put_ips ip_violation
             (updated_rows (\<lambda>r. ip_ID r = ip_ID a) (assign_ip vmID customerID) (clock s1) (ip_addresses s1))
             (assign_ip vmID customerID (clock s1) a) s1) = (r1, t)" for s1 r1
  proof (cases "free_ip inet_key locked ipSetID (ip_addresses s)")
    case None
    then show ?thesis using that ipt.same_tables [OF eq] by auto
  next
    case (Some a)
    let ?rows = "updated_rows (\<lambda>b. ip_ID b = ip_ID a) (assign_ip vmID customerID) (clock s) (ip_addresses s)"
    from that(2) Some ipt.same_tables [OF eq]
    have "table_write put_ips ip_violation ?rows (assign_ip vmID customerID (clock s) a) s1 = (r1, t)" by simp
    then show ?thesis using Some eq ipt.same_tables(2,3) [OF eq]
      by (cases "ip_violation s ?rows") (auto simp: table_write_def)
  qed
  have finish: thesis if "(\<exists>e. r1 = Inl e \<and> tables t = tables s) \<or>
      (\<exists>a. free_ip inet_key locked ipSetID (ip_addresses s) = Some a \<and>
        tables t = tables (put_ips (updated_rows (\<lambda>b. ip_ID b = ip_ID a) (assign_ip vmID customerID) (clock s) (ip_addresses s)) s) \<and>
        ip_violation s (updated_rows (\<lambda>b. ip_ID b = ip_ID a) (assign_ip vmID customerID) (clock s) (ip_addresses s)) = None \<and>
        r1 = Inr (assign_ip vmID customerID (clock s) a))" "r = r1 \<or> r = Inl ErrDB" for r1
    using that(1)
  proof (elim disjE exE conjE)
    fix a assume a: "free_ip inet_key locked ipSetID (ip_addresses s) = Some a"
      "tables t = tables (put_ips (updated_rows (\<lambda>b. ip_ID b = ip_ID a) (assign_ip vmID customerID) (clock s) (ip_addresses s)) s)"
      "ip_violation s (updated_rows (\<lambda>b. ip_ID b = ip_ID a) (assign_ip vmID customerID) (clock s) (ip_addresses s)) = None"
      "r1 = Inr (assign_ip vmID customerID (clock s) a)"
    have "ips_ok t" using a(3) ipt.same_tables(1) [OF a(2)] violation_cong(1) [of t s] by (simp add: ips_ok_def)
    then show thesis using taken [of a] free_ip_Some [OF a(1)] a that(2) by blast
  qed (use refused that(2) in blast)
  from assms(1) show thesis unfolding repo_AllocateIPv4_def
  proof (cases rule: auto_stmt_cases)
    case 1
    then show ?thesis using refused by blast
  next
    case (2 s1)
    show ?thesis using finish [OF outcome [OF 2]] by blast
  next
    case (3 s1 r1)
    show ?thesis using finish [OF outcome [OF 3(1,2)]] 3(3) by blast
  qed
qed

lemma allocate_from:
  assumes "ip_from rows s"
  shows "ip_from rows (snd (repo_AllocateIPv4 inet_key locked ipSetID vmID customerID s))"
proof -
  obtain r t where rt: "repo_AllocateIPv4 inet_key locked ipSetID vmID customerID s = (r, t)"
    by (cases "repo_AllocateIPv4 inet_key locked ipSetID vmID customerID s")
  have ok: "ips_ok s" using assms by (simp add: ip_from_def)
  from rt ok have "ip_from rows t"
  proof (cases rule: allocate_cases)
    case (refused e)
    then show ?thesis using env_freeD [OF env_free_ip_from refused(2)] assms by simp
  next
    case (taken a)
    let ?rows = "updated_rows (\<lambda>b. ip_ID b = ip_ID a) (assign_ip vmID customerID) (clock s) (ip_addresses s)"
    have "ips_evolve (ip_addresses s) ?rows"
    proof (rule ips_evolve_update)
      fix b assume "b \<in> set (ip_addresses s)" "ip_ID b = ip_ID a"
      then have "b = a" using ips_ok_unique [OF ok] taken(1) by blast
      then show "ip_life b (assign_ip vmID customerID (clock s) b)" using taken(2) by (simp add: ip_life_def assign_ip_def)
    qed
    moreover have "ip_violation s ?rows = None"
      using taken(6) ipt.same_tables(1) [OF taken(5)] violation_cong(1) [of s t] by (simp add: ips_ok_def)
    ultimately show ?thesis using reads_from [OF ip_from_put [OF assms]] taken(5) by blast
  qed
  then show ?thesis using rt by simp
qed

section \<open>Histories\<close>

datatype ip_cmd =
    IPCreate IPAddress
  | IPAllocate "string \<Rightarrow> bool" string string string
  | IPServiceAllocate "string \<Rightarrow> bool" string string string
  | IPRelease string
  | IPServiceRelease string
  | IPReleaseVM string
  | IPSetRDNS string string
  | SubnetAllocate string string string
  | SubnetRelease string
  | SubnetsDelete string
  | SetCreate IPSet
  | SetUpdate IPSet
  | PrefixCreate IPv6Prefix
  | IPTick nat

fun exec_ip :: "(string \<Rightarrow> nat) \<Rightarrow> ip_cmd \<Rightarrow> 'r ip_db_scheme \<Rightarrow> 'r ip_db_scheme" where
  "exec_ip key (IPCreate ip) s = snd (CreateIPAddress ip s)"
| "exec_ip key (IPAllocate locked ipSet vm cust) s = snd (repo_AllocateIPv4 key locked ipSet vm cust s)"
| "exec_ip key (IPServiceAllocate locked loc vm cust) s = snd (AllocateIPv4 key locked loc vm cust s)"
| "exec_ip key (IPRelease i) s = snd (repo_ReleaseIPv4 i s)"
| "exec_ip key (IPServiceRelease i) s = snd (ReleaseIPv4 i s)"
| "exec_ip key (IPReleaseVM vm) s = snd (ReleaseIPsByVM vm s)"
| "exec_ip key (IPSetRDNS i h) s = snd (ipam_SetRDNS i h s)"
| "exec_ip key (SubnetAllocate vm cust node) s = snd (AllocateIPv6 vm cust node s)"
| "exec_ip key (SubnetRelease i) s = snd (ReleaseIPv6 i s)"
| "exec_ip key (SubnetsDelete vm) s = snd (DeleteVMIPv6SubnetsByVM vm s)"
| "exec_ip key (SetCreate x) s = snd (CreateIPSet x s)"
| "exec_ip key (SetUpdate x) s = snd (UpdateIPSet x s)"
| "exec_ip key (PrefixCreate p) s = snd (CreateIPv6Prefix p s)"
| "exec_ip key (IPTick n) s = s\<lparr>clock := clock s + int n\<rparr>"

definition run_ip :: "(string \<Rightarrow> nat) \<Rightarrow> ip_cmd list \<Rightarrow> 'r ip_db_scheme \<Rightarrow> 'r ip_db_scheme" where
  "run_ip key cmds s = fold (exec_ip key) cmds s"

text \<open>A page of size zero is empty: the listing asks for one row and cuts it off.\<close>

lemma ListIPSets_zero:
  assumes "sf_PerPage filt = 0" "ListIPSets filt s = (Inr (page, hasMore, cursor), t)"
  shows "page = []"
  using assms unfolding ListIPSets_def
  by (auto simp: bind_db_def return_db_def Let_def split: prod.splits sum.splits if_splits)

lemma ListIPSets_reads: "tables (snd (ListIPSets filt s)) = tables s"
  unfolding ListIPSets_def by (rule bind_reads) (simp_all add: return_db_def Let_def)

lemma ListIPAddresses_reads: "tables (snd (ListIPAddresses filt s)) = tables s"
  unfolding ListIPAddresses_def Let_def by (rule bind_reads) (simp_all add: return_db_def)

lemma AllocateIPv4_stops:
  "tables (snd (AllocateIPv4 key locked loc vm cust s)) = tables s \<and>
   (\<exists>e. fst (AllocateIPv4 key locked loc vm cust s) = Inl e)"
proof -
  let ?filt = "\<lparr>sf_PerPage = 0, sf_LastID = '''', sf_LocationID = Some loc, sf_IPVersion = Some 4\<rparr>"
  obtain r t where l: "ListIPSets ?filt s = (r, t)" by (cases "ListIPSets ?filt s")
  have t: "tables t = tables s" using ListIPSets_reads [of ?filt s] l by simp
  show ?thesis
  proof (cases r)
    case (Inl e)
    then show ?thesis using l t by (simp add: AllocateIPv4_def bind_db_def)
  next
    case (Inr x)
    obtain page hasMore cursor where x: "x = (page, hasMore, cursor)" by (cases x)
    then have "page = []" using ListIPSets_zero [of ?filt s page hasMore cursor t] l Inr by simp
    then show ?thesis using l t Inr x by (simp add: AllocateIPv4_def bind_db_def throw_db_def)
  qed
qed



lemma release_each_from:
  "ip_from rows s \<Longrightarrow> ip_from rows (snd (release_each ips s))"
proof (induction ips arbitrary: s)
  case (Cons ip ips)
  show ?case
  proof (cases "ip_Status ip = IPStatusAssigned")
    case True
    obtain r s1 where r: "repo_ReleaseIPv4 (ip_ID ip) s = (r, s1)" by (cases "repo_ReleaseIPv4 (ip_ID ip) s")
    then have "ip_from rows s1" using repo_ReleaseIPv4_from [OF Cons.prems] by (metis sndI)
    then show ?thesis using True r Cons.IH [of s1] by (auto split: sum.split prod.split)
  qed (use Cons in simp)
qed simp

text \<open>Operations on the other tables.\<close>

lemma other_table_from:
  assumes "ip_from rows s"
  shows "ip_from rows (snd (table_update ip_sets put_sets set_violation P f s))"
    "ip_from rows (snd (table_insert ip_sets put_sets set_violation mk s))"
    "ip_from rows (snd (table_insert ipv6_prefixes put_prefixes prefix_violation mk' s))"
    "ip_from rows (snd (table_delete vm_ipv6_subnets put_subnets subnet_violation Q s))"
proof -
  have put: "ip_from rows (put_sets x s)" for x
    using assms violation_cong [of "put_sets x s" s] by (simp add: ip_from_def ips_ok_def subnets_ok_def)
  have prefix: "ip_from rows (put_prefixes (ipv6_prefixes s @ [p]) s)"
    if "prefix_violation s (ipv6_prefixes s @ [p]) = None" for p
    using assms that violation_cong [of "put_prefixes (ipv6_prefixes s @ [p]) s" s]
    by (auto simp: ip_from_def ips_ok_def subnets_ok_def subnet_of_def)
  have subnet: "ip_from rows (put_subnets (filter R (vm_ipv6_subnets s)) s)"
    if "subnet_violation s (filter R (vm_ipv6_subnets s)) = None" for R
    using assms that violation_cong [of "put_subnets (filter R (vm_ipv6_subnets s)) s" s]
    by (auto simp: ip_from_def ips_ok_def subnets_ok_def)
  show "ip_from rows (snd (table_update ip_sets put_sets set_violation P f s))"
    by (rule sett.update_keeps [OF env_free_ip_from assms]) (rule put)
  show "ip_from rows (snd (table_insert ip_sets put_sets set_violation mk s))"
    by (rule sett.insert_keeps [OF env_free_ip_from assms]) (rule put)
  show "ip_from rows (snd (table_insert ipv6_prefixes put_prefixes prefix_violation mk' s))"
    by (rule pxt.insert_keeps [OF env_free_ip_from assms]) (rule prefix)
  show "ip_from rows (snd (table_delete vm_ipv6_subnets put_subnets subnet_violation Q s))"
    by (rule snt.delete_keeps [OF env_free_ip_from assms]) (rule subnet)
qed

lemma subnet_delete_from: "ip_from rows s \<Longrightarrow> ip_from rows (snd (DeleteVMIPv6SubnetsByVM vm s))"
  unfolding DeleteVMIPv6SubnetsByVM_def
  by (rule bind_keeps [where P = "ip_from rows"]) (simp_all add: other_table_from return_db_def)

text \<open>The statements of the subnet transaction.\<close>

lemma lock_prefix_Inr:
  assumes "lock_prefix pid s = (Inr prefix, t)"
  obtains p where "find (\<lambda>p. px_ID p = pid) (ipv6_prefixes s) = Some p" "prefix = px_Prefix p" "tables t = tables s"
  using assms unfolding lock_prefix_def
  by (cases rule: tx_stmt_cases) (auto split: option.splits dest: pxt.same_tables(1))

lemma read_max_index_Inr:
  assumes "read_max_index pid s = (Inr n, t)"
  shows "n = max_index pid (vm_ipv6_subnets s) \<and> tables t = tables s"
  using assms unfolding read_max_index_def
  by (cases rule: tx_stmt_cases) (auto dest: snt.same_tables(1))

lemma insert_subnet_Inr:
  assumes "insert_subnet vm pid prefix n s = (Inr row, t)"
  shows "sn_IPv6PrefixID row = pid \<and> sn_VMID row = vm \<and> sn_SubnetIndex row = n \<and>
    (sn_Subnet row, sn_Gateway row) = generateIPv6Subnet prefix n \<and>
    subnet_violation s (vm_ipv6_subnets s @ [row]) = None \<and>
    tables t = tables (put_subnets (vm_ipv6_subnets s @ [row]) s)"
proof -
  obtain subnet gateway where g: "generateIPv6Subnet prefix n = (subnet, gateway)"
    by (cases "generateIPv6Subnet prefix n")
  with assms have "tx_stmt (with_uuid (\<lambda>i s.
          let row = \<lparr>sn_ID = i, sn_VMID = vm, sn_IPv6PrefixID = pid, sn_Subnet = subnet,
                     sn_SubnetIndex = n, sn_Gateway = gateway, sn_CreatedAt = clock s\<rparr>
          in table_write put_subnets subnet_violation (vm_ipv6_subnets s @ [row]) row s)) s = (Inr row, t)"
    by (simp add: insert_subnet_def)
  then show ?thesis
  proof (cases rule: tx_stmt_cases)
    case (2 s')
    have eq: "tables (s'\<lparr>next_id := Suc (next_id s')\<rparr>) = tables s" using 2(1) by simp
    show ?thesis
      using 2(2) g snt.same_tables(1,2) [OF eq] snt.same_tables(3) [OF eq]
      by (auto simp: with_uuid_def Let_def table_write_def split: option.splits)
  qed simp
qed

text \<open>Allocating a subnet touches only the table of subnets.\<close>

lemma subnet_allocation_cases:
  assumes "CreateVMIPv6SubnetWithIndexCheck vm pid s = (r, t)"
  obtains (refused) e where "r = Inl e" "tables t = tables s"
  | (created) p row where "find (\<lambda>p. px_ID p = pid) (ipv6_prefixes s) = Some p"
      "sn_IPv6PrefixID row = pid" "sn_VMID row = vm"
      "sn_SubnetIndex row = max_index pid (vm_ipv6_subnets s) + 1" "sn_SubnetIndex row < 65536"
      "(sn_Subnet row, sn_Gateway row) = generateIPv6Subnet (px_Prefix p) (sn_SubnetIndex row)"
      "subnet_violation s (vm_ipv6_subnets s @ [row]) = None"
      "tables t = tables (put_subnets (vm_ipv6_subnets s @ [row]) s)" "r = Inr row \<or> r = Inl ErrDB"
  using assms unfolding CreateVMIPv6SubnetWithIndexCheck_def
proof (cases rule: transaction_cases)
  case (failed e)
  then show ?thesis using refused by blast
next
  case (abandoned x s0 s1)
  then show ?thesis using refused
    by (auto simp: bind_db_def return_db_def throw_db_def split: prod.splits sum.splits if_splits)
next
  case (committed x s0 s4)
  from committed(2) obtain prefix s1 n s2 where l: "lock_prefix pid s0 = (Inr prefix, s1)"
    and m: "read_max_index pid s1 = (Inr n, s2)" and small: "\<not> n + 1 \<ge> 65536"
    and ins: "insert_subnet vm pid prefix (n + 1) s2 = (Inr x, s4)"
    by (auto simp: throw_db_def return_db_def split: if_splits)
  from l obtain p where p: "find (\<lambda>p. px_ID p = pid) (ipv6_prefixes s0) = Some p" "prefix = px_Prefix p"
    and "tables s1 = tables s0" by (rule lock_prefix_Inr)
  moreover note read_max_index_Inr [OF m]
  ultimately have s1: "tables s1 = tables s" and s2: "tables s2 = tables s"
    and n: "n = max_index pid (vm_ipv6_subnets s)"
    using committed(1) snt.same_tables(1) [of s1 s] by simp_all
  note row = insert_subnet_Inr [OF ins, unfolded snt.same_tables [OF s2]]
  show ?thesis
  proof (rule created [of p x])
    show "find (\<lambda>p. px_ID p = pid) (ipv6_prefixes s) = Some p" using p pxt.same_tables(1) [OF committed(1)] by simp
    show "tables t = tables (put_subnets (vm_ipv6_subnets s @ [x]) s)" using committed(3) row by simp
  qed (use row p n small committed(4) in auto)
qed

lemma max_index_bounds:
  "- 1 \<le> max_index pid rows" "n \<in> set rows \<Longrightarrow> sn_IPv6PrefixID n = pid \<Longrightarrow> sn_SubnetIndex n \<le> max_index pid rows"
proof -
  have fold: "m \<le> fold max xs m \<and> (\<forall>x\<in>set xs. x \<le> fold max xs m)" for xs :: "int list" and m
  proof (induction xs arbitrary: m)
    case (Cons x xs)
    have "max x m \<le> fold max xs (max x m)" "\<forall>y\<in>set xs. y \<le> fold max xs (max x m)" using Cons by blast+
    then show ?case by auto
  qed simp
  show "- 1 \<le> max_index pid rows" using fold by (simp add: max_index_def)
  show "n \<in> set rows \<Longrightarrow> sn_IPv6PrefixID n = pid \<Longrightarrow> sn_SubnetIndex n \<le> max_index pid rows"
    using fold unfolding max_index_def by auto
qed

lemma subnet_allocation_from:
  assumes "ip_from rows s"
  shows "ip_from rows (snd (CreateVMIPv6SubnetWithIndexCheck vm pid s))"
proof -
  obtain r t where rt: "CreateVMIPv6SubnetWithIndexCheck vm pid s = (r, t)"
    by (cases "CreateVMIPv6SubnetWithIndexCheck vm pid s")
  from rt have "ip_from rows t"
  proof (cases rule: subnet_allocation_cases)
    case (refused e)
    then show ?thesis using reads_from [OF assms] by blast
  next
    case (created p row)
    let ?t = "put_subnets (vm_ipv6_subnets s @ [row]) s"
    have "subnet_of (ipv6_prefixes s) row"
      using created max_index_bounds(1) [of pid "vm_ipv6_subnets s"]
      by (auto simp: subnet_of_def find_Some_iff)
    then have "ip_from rows ?t"
      using assms created(7) violation_cong [of ?t s] by (auto simp: ip_from_def ips_ok_def subnets_ok_def)
    then show ?thesis using reads_from created(8) by blast
  qed
  then show ?thesis using rt by simp
qed

lemma guarded_from:
  assumes "ip_from rows s" "tables (snd (m s)) = tables s"
    and "\<And>x s. ip_from rows s \<Longrightarrow> ip_from rows (snd (f x s))"
  shows "ip_from rows (snd (case m s of (Inl e, s1) \<Rightarrow> (Inl (g e), s1) | (Inr x, s1) \<Rightarrow> f x s1))"
  using assms reads_from [OF assms(1,2)] by (auto split: prod.split sum.split)

lemma exec_ip_from:
  assumes "ip_from rows s"
  shows "ip_from rows (exec_ip key c s)"
proof (cases c)
  case (IPCreate ip)
  have "ip_from rows (snd (table_insert ip_addresses put_ips ip_violation mk s))" if "ip_from rows s"
    for mk and s :: "'a ip_db_scheme"
    by (rule ipt.insert_keeps [OF env_free_ip_from that]) (use that in \<open>auto intro!: ip_from_put ips_evolve_append\<close>)
  then have "ip_from rows (snd (CreateIPAddress ip s))"
    unfolding CreateIPAddress_def by (rule with_uuid_keeps [OF env_free_ip_from assms])
  then show ?thesis using IPCreate by simp
next
  case (IPServiceAllocate locked loc vm cust)
  then show ?thesis using reads_from [OF assms conjunct1 [OF AllocateIPv4_stops]] by simp
next
  case (IPServiceRelease i)
  have "ip_from rows (snd (ReleaseIPv4 i s))" unfolding ReleaseIPv4_def
    by (rule guarded_from [OF assms]) (simp_all add: GetIPAddressByID_def repo_ReleaseIPv4_from)
  then show ?thesis using IPServiceRelease by simp
next
  case (IPReleaseVM vm)
  have "ip_from rows (snd ((case x of (ips, _, _) \<Rightarrow> \<lambda>s. case release_each ips s of (es, s1) \<Rightarrow>
      let s2 = snd (DeleteVMIPv6SubnetsByVM vm s1) in
      if es \<noteq> [] then (Inl (ErrMsg ''errors releasing IPs''), s2) else (Inr (), s2)) s))"
    if "ip_from rows s" for x and s :: "'a ip_db_scheme"
    using release_each_from [OF that, of "fst x"] subnet_delete_from by (auto simp: Let_def split: prod.split)
  then have "ip_from rows (snd (ReleaseIPsByVM vm s))" unfolding ReleaseIPsByVM_def
    by (intro bind_keeps [where P = "ip_from rows"] reads_from [OF assms ListIPAddresses_reads]) auto
  then show ?thesis using IPReleaseVM by simp
next
  case (IPSetRDNS i h)
  have "ip_from rows (snd (ipam_SetRDNS i h s))" unfolding ipam_SetRDNS_def
    by (rule guarded_from [OF assms]) (simp_all add: GetIPAddressByID_def repo_SetRDNS_from)
  then show ?thesis using IPSetRDNS by simp
next
  case (SubnetAllocate vm cust node)
  have "ip_from rows (snd (AllocateIPv6 vm cust node s))" unfolding AllocateIPv6_def
    by (rule guarded_from [OF assms]) (simp_all add: GetIPv6PrefixByNode_def subnet_allocation_from)
  then show ?thesis using SubnetAllocate by simp
next
  case (SubnetRelease i)
  have "ip_from rows (snd (ReleaseIPv6 i s))" unfolding ReleaseIPv6_def DeleteVMIPv6SubnetByID_def
    by (rule guarded_from [OF assms])
      (auto simp: GetVMIPv6SubnetByID_def intro!: require_affected_keeps [where P = "ip_from rows"] other_table_from)
  then show ?thesis using SubnetRelease by simp
next
  case (SetCreate x)
  have "ip_from rows (snd (CreateIPSet x s))" unfolding CreateIPSet_def
    by (rule with_uuid_keeps [OF env_free_ip_from assms]) (rule other_table_from)
  then show ?thesis using SetCreate by simp
next
  case (SetUpdate x)
  have "ip_from rows (snd (UpdateIPSet x s))" unfolding UpdateIPSet_def
    by (rule require_affected_keeps [where P = "ip_from rows"]) (rule other_table_from [OF assms])
  then show ?thesis using SetUpdate by simp
next
  case (PrefixCreate p)
  have "ip_from rows (snd (CreateIPv6Prefix p s))" unfolding CreateIPv6Prefix_def
    by (rule with_uuid_keeps [OF env_free_ip_from assms]) (rule other_table_from)
  then show ?thesis using PrefixCreate by simp
next
  case (IPTick n)
  then show ?thesis using assms
    by (simp add: ip_from_def ips_ok_def ip_violation_def subnets_ok_def prefix_violation_def subnet_violation_def)
qed (use assms in \<open>simp_all add: allocate_from repo_ReleaseIPv4_from subnet_delete_from\<close>)

lemma run_ip_from: "ip_from rows s \<Longrightarrow> ip_from rows (run_ip key cmds s)"
  unfolding run_ip_def by (induction cmds arbitrary: s) (simp_all add: exec_ip_from)

section \<open>The layout of subnets\<close>

text \<open>The value of an address, most significant byte first.\<close>

definition addr_val :: "addr \<Rightarrow> nat" where
  "addr_val bytes = foldl (\<lambda>n b. 256 * n + unat b) 0 bytes"

lemma addr_val_foldl: "foldl (\<lambda>n b. 256 * n + unat (b :: 8 word)) k ys = k * 256 ^ length ys + addr_val ys"
proof (induction ys rule: rev_induct)
  case (snoc y ys)
  then show ?case by (simp add: addr_val_def algebra_simps)
qed (simp add: addr_val_def)

lemma addr_val_append: "addr_val (xs @ ys) = addr_val xs * 256 ^ length ys + addr_val ys"
  using addr_val_foldl [of "addr_val xs" ys] by (simp add: addr_val_def)

lemma addr_val_zeros [simp]: "addr_val (replicate n 0) = 0"
  by (induction n) (simp_all add: addr_val_def)

text \<open>A /48 prefix: sixteen bytes, the last ten of them zero.\<close>

definition slash48 :: "addr \<times> nat \<Rightarrow> bool" where
  "slash48 prefix \<longleftrightarrow> length (fst prefix) = 16 \<and> drop 6 (fst prefix) = replicate 10 0 \<and> snd prefix = 48"

lemma slash48_split:
  assumes "slash48 prefix"
  obtains net where "fst prefix = net @ replicate 10 0" "length net = 6"
proof
  show "fst prefix = take 6 (fst prefix) @ replicate 10 0"
    using assms append_take_drop_id [of 6 "fst prefix"] by (simp add: slash48_def)
  show "length (take 6 (fst prefix)) = 6" using assms by (simp add: slash48_def)
qed

lemma index_bytes:
  assumes "0 \<le> i" "i < 65536"
  shows "256 * unat (word_of_int (take_bit 8 (drop_bit 8 i)) :: 8 word) +
    unat (word_of_int (take_bit 8 i) :: 8 word) = nat i"
proof -
  have "unat (word_of_int (take_bit 8 x) :: 8 word) = nat (x mod 256)" if "0 \<le> x" for x :: int
    using that by (simp add: unat_eq_nat_uint uint_word_of_int take_bit_eq_mod)
  moreover have "0 \<le> drop_bit 8 i" "drop_bit 8 i = i div 256" using assms by (simp_all add: drop_bit_eq_div)
  moreover have "256 * nat ((i div 256) mod 256) + nat (i mod 256) = nat i"
  proof -
    have "i div 256 < 256" using assms by simp
    then have "(i div 256) mod 256 = i div 256" using assms by simp
    moreover have "int (256 * nat (i div 256) + nat (i mod 256)) = i"
      using assms by (simp add: pos_imp_zdiv_nonneg_iff)
    ultimately show ?thesis by (metis nat_int)
  qed
  ultimately show ?thesis using assms by simp
qed

lemma generate_layout:
  assumes "slash48 prefix" "0 \<le> i" "i < 65536" "generateIPv6Subnet prefix i = ((bytes, len), gateway)"
  shows "len = 64 \<and> length bytes = 16 \<and> length gateway = 16 \<and>
    addr_val bytes = addr_val (fst prefix) + nat i * 2 ^ 64 \<and> addr_val gateway = addr_val bytes + 1"
proof -
  obtain net where net: "fst prefix = net @ replicate 10 0" "length net = 6" using slash48_split [OF assms(1)] .
  let ?b6 = "word_of_int (take_bit 8 (drop_bit 8 i)) :: 8 word"
  let ?b7 = "word_of_int (take_bit 8 i) :: 8 word"
  have b: "bytes = net @ [?b6, ?b7] @ replicate 8 0"
    and g: "gateway = net @ [?b6, ?b7] @ replicate 7 0 @ [1]" and len: "len = 64"
    using assms(4) net
    by (auto simp: generateIPv6Subnet_def Let_def list_update_append numeral_eq_Suc)
  have two: "addr_val [?b6, ?b7] = nat i" using index_bytes [OF assms(2,3)] by (simp add: addr_val_def)
  have "addr_val bytes = addr_val net * 256 ^ 10 + nat i * 256 ^ 8"
    using two by (simp only: b addr_val_append) simp
  moreover have "addr_val (fst prefix) = addr_val net * 256 ^ 10"
    by (simp only: net(1) addr_val_append) simp
  moreover have "addr_val gateway = addr_val net * 256 ^ 10 + nat i * 256 ^ 8 + 1"
  proof -
    have "addr_val [1] = 1" by (simp add: addr_val_def)
    then have "addr_val (replicate 7 0 @ [1]) = 1" by (simp only: addr_val_append) simp
    then show ?thesis using two by (simp only: g addr_val_append) simp
  qed
  ultimately show ?thesis using b g len net(2) by simp
qed

section \<open>Properties\<close>

definition ex_ip :: "string \<Rightarrow> string \<Rightarrow> string \<Rightarrow> IPAddress" where
  "ex_ip i address st =
     \<lparr>ip_ID = i, ip_IPSetID = ''set1'', ip_Address = address, ip_IPVersion = 4, ip_VMID = None, ip_CustomerID = None,
      ip_IsPrimary = False, ip_RDNSHostname = None, ip_Status = st, ip_AssignedAt = None, ip_ReleasedAt = None,
      ip_CooldownUntil = None, ip_CreatedAt = 0\<rparr>"

definition ex_set :: IPSet where
  "ex_set = \<lparr>set_ID = ''set1'', set_Name = ''public'', set_LocationID = Some ''loc1'', set_Network = ''10.0.0.0/24'',
     set_Gateway = ''10.0.0.1'', set_VLANID = None, set_IPVersion = 4, set_NodeIDs = [], set_CreatedAt = 0\<rparr>"

definition ex_prefix :: IPv6Prefix where
  "ex_prefix = \<lparr>px_ID = ''px1'', px_NodeID = ''n1'',
     px_Prefix = ([0x20, 0x01, 0x0d, 0xb8, 0, 1] @ replicate 10 0, 48), px_CreatedAt = 0\<rparr>"

definition ex_ip_db :: "fault list \<Rightarrow> IPAddress list \<Rightarrow> ip_db" where
  "ex_ip_db fs rows =
     \<lparr>faults = fs, next_id = 0, gen_uuid = (\<lambda>n. replicate n (CHR ''a'')), clock = 1000,
      balances = Map.empty, ledger = [], vms = [], backend_required = True, billing_providers = Map.empty,
      tasks = [], task_columns = tasks_migrated, stream = [],
      ip_sets = [ex_set], ip_addresses = rows, ipv6_prefixes = [ex_prefix], vm_ipv6_subnets = []\<rparr>"

lemma ex_ip_db_simps [simp]:
  "faults (ex_ip_db fs rows) = fs" "ip_addresses (ex_ip_db fs rows) = rows" "clock (ex_ip_db fs rows) = 1000"
  "ip_sets (ex_ip_db fs rows) = [ex_set]" "ipv6_prefixes (ex_ip_db fs rows) = [ex_prefix]"
  "vm_ipv6_subnets (ex_ip_db fs rows) = []" "vms (ex_ip_db fs rows) = []"
  by (simp_all add: ex_ip_db_def)



text \<open>C32. The service never allocates an IPv4 address. It asks for the sets of the location without a
  page size, and a page of size zero is always empty; whatever sets and free addresses there are and
  whatever the connection does, every call ends in an error and changes no table.\<close>

theorem service_allocation_fails:
  "(\<exists>e. fst (AllocateIPv4 key locked locationID vmID customerID s) = Inl e) \<and>
   tables (snd (AllocateIPv4 key locked locationID vmID customerID s)) = tables s"
  using AllocateIPv4_stops by blast

text \<open>C34. The byte arithmetic of subnets agrees with the arithmetic of addresses: for a /48 prefix
  and an index below 65536 the generated /64 starts at the prefix plus the index times 2 to the 64,
  and the gateway is the address after it.\<close>

theorem subnet_layout:
  assumes "slash48 prefix" and "0 \<le> i" and "i < 65536"
  shows "case generateIPv6Subnet prefix i of ((bytes, len), gateway) \<Rightarrow>
    len = 64 \<and> length bytes = 16 \<and> length gateway = 16 \<and>
    addr_val bytes = addr_val (fst prefix) + nat i * 2 ^ 64 \<and> addr_val gateway = addr_val bytes + 1"
  using generate_layout [OF assms] by (auto split: prod.split)

theorem subnet_layout_witness:
  "case generateIPv6Subnet (px_Prefix ex_prefix) 4660 of ((bytes, len), gateway) \<Rightarrow>
     addr_val bytes = addr_val (fst (px_Prefix ex_prefix)) + 4660 * 2 ^ 64"
proof -
  have "slash48 (px_Prefix ex_prefix)" by (simp add: slash48_def ex_prefix_def)
  from subnet_layout [OF this, of 4660] show ?thesis by (auto split: prod.splits)
qed

text \<open>C33. Subnets never overlap: after any history of allocations and releases, two different subnets
  of a /48 prefix start at least 2 to the 64 addresses apart, and both lie inside the prefix.\<close>

theorem subnets_disjoint:
  assumes "ips_ok s" and "subnets_ok s" and "run_ip key cmds s = t"
    and "p \<in> set (ipv6_prefixes t)" and "slash48 (px_Prefix p)"
    and "n \<in> set (vm_ipv6_subnets t)" and "m \<in> set (vm_ipv6_subnets t)" and "n \<noteq> m"
    and "sn_IPv6PrefixID n = px_ID p" and "sn_IPv6PrefixID m = px_ID p"
  shows "let start = (\<lambda>k. addr_val (fst (sn_Subnet k))) in
    (start n + 2 ^ 64 \<le> start m \<or> start m + 2 ^ 64 \<le> start n) \<and>
    addr_val (fst (px_Prefix p)) \<le> start n \<and> start n + 2 ^ 64 \<le> addr_val (fst (px_Prefix p)) + 2 ^ 80"
proof -
  have "ip_from (ip_addresses s) s" using assms(1,2) by (simp add: ip_from_def)
  then have ok: "subnets_ok t" using run_ip_from assms(3) by (metis ip_from_def)
  have place: "0 \<le> sn_SubnetIndex k \<and> sn_SubnetIndex k < 65536 \<and>
      addr_val (fst (sn_Subnet k)) = addr_val (fst (px_Prefix p)) + nat (sn_SubnetIndex k) * 2 ^ 64"
    if "k \<in> set (vm_ipv6_subnets t)" "sn_IPv6PrefixID k = px_ID p" for k
  proof -
    from ok that(1) obtain q where q: "q \<in> set (ipv6_prefixes t)" "px_ID q = sn_IPv6PrefixID k"
      "(sn_Subnet k, sn_Gateway k) = generateIPv6Subnet (px_Prefix q) (sn_SubnetIndex k)"
      and i: "0 \<le> sn_SubnetIndex k" "sn_SubnetIndex k < 65536"
      by (auto simp: subnets_ok_def subnet_of_def)
    have "q = p" using q that(2) assms(4) ok
      by (auto simp: subnets_ok_def prefix_violation_def distinct_map inj_on_def split: if_splits)
    then show ?thesis
      using generate_layout [OF assms(5) i, of "fst (sn_Subnet k)" "snd (sn_Subnet k)" "sn_Gateway k"] q(3) i by simp
  qed
  have "(sn_IPv6PrefixID n, sn_SubnetIndex n) \<noteq> (sn_IPv6PrefixID m, sn_SubnetIndex m)"
    using ok assms(6,7,8) by (auto simp: subnets_ok_def subnet_violation_def distinct_map inj_on_def split: if_splits)
  then have "sn_SubnetIndex n \<noteq> sn_SubnetIndex m" using assms(9,10) by simp
  then show ?thesis using place [OF assms(6,9)] place [OF assms(7,10)] by (auto simp: Let_def)
qed

definition ex_subnet :: "int \<Rightarrow> VMIPv6Subnet" where
  "ex_subnet i = (case generateIPv6Subnet (px_Prefix ex_prefix) i of (subnet, gateway) \<Rightarrow>
     \<lparr>sn_ID = print_int i, sn_VMID = ''v1'', sn_IPv6PrefixID = ''px1'', sn_Subnet = subnet, sn_SubnetIndex = i,
      sn_Gateway = gateway, sn_CreatedAt = 0\<rparr>)"

theorem subnets_disjoint_witness:
  "let start = (\<lambda>k. addr_val (fst (sn_Subnet k))) in
    start (ex_subnet 0) + 2 ^ 64 \<le> start (ex_subnet 1) \<or> start (ex_subnet 1) + 2 ^ 64 \<le> start (ex_subnet 0)"
proof -
  let ?s = "(ex_ip_db [] [])\<lparr>vm_ipv6_subnets := [ex_subnet 0, ex_subnet 1]\<rparr>"
  have sub: "sn_SubnetIndex (ex_subnet i) = i" "sn_IPv6PrefixID (ex_subnet i) = ''px1''" "sn_ID (ex_subnet i) = print_int i"
    "(sn_Subnet (ex_subnet i), sn_Gateway (ex_subnet i)) = generateIPv6Subnet (px_Prefix ex_prefix) i" for i
    by (simp_all add: ex_subnet_def split: prod.split)
  have px: "px_ID ex_prefix = ''px1''" "slash48 (px_Prefix ex_prefix)" by (simp_all add: ex_prefix_def slash48_def)
  have ne: "print_int 0 \<noteq> print_int 1" by code_simp
  have "ips_ok ?s" by (simp add: ips_ok_def ip_violation_def List.map_filter_simps)
  moreover have "subnets_ok ?s"
    using sub px ne by (auto simp: subnets_ok_def prefix_violation_def subnet_violation_def subnet_of_def)
  moreover have "ex_subnet 0 \<noteq> ex_subnet 1" using sub(1) by (metis zero_neq_one)
  ultimately show ?thesis
    using subnets_disjoint [of ?s length "[]" ?s ex_prefix "ex_subnet 0" "ex_subnet 1"] px sub
    by (simp add: run_ip_def Let_def)
qed

end
