(* ===== verification/VM_Deletion.thy ===== *)
theory VM_Deletion
  imports IPAM
begin

text \<open>
  Deleting a virtual machine: \<open>DeleteVM\<close> of \<^verbatim>\<open>services/vm_service.go\<close>, which marks the row and
  publishes a task, and the handler of the task in \<^verbatim>\<open>tasks/handlers_vm_delete.go\<close>, which removes the
  domain from the node, releases the addresses, deletes the row softly and tells the billing provider.

  The node agent is a remote service: the state has the domains defined on the nodes and, call by
  call, the fate of the calls to come (\<open>node_faults\<close>), read as for database statements: a call takes
  effect, fails without effect, or takes effect although its reply is lost. \<open>hook_log\<close> is the list of
  VMs the billing providers have been told about; \<open>deleted_customers\<close> are the customers in status
  deleted.
\<close>

section \<open>State and dependencies\<close>

record del_db = ip_db +
  domains :: "(string \<times> string) list"
  node_faults :: "fault list"
  hook_log :: "string list"
  deleted_customers :: "string list"

text \<open>The fields of \<open>vmDeletion\<close> that may be nil: whether there is an IPAM service, and the providers
  registered for billing hooks. \<open>vm_id_of\<close> decodes a payload (\<open>json.Unmarshal\<close> into
  \<open>VMDeletePayload\<close>), \<open>print_payload\<close> and \<open>print_result\<close> are \<open>json.Marshal\<close> of the payload and of the
  result.\<close>

record vmDeletion =
  d_ipam :: bool
  d_hooks :: "(string \<Rightarrow> bool) option"
  vm_id_of :: "string \<Rightarrow> string option"
  print_payload :: "string \<Rightarrow> string"
  print_result :: "string \<Rightarrow> string"

section \<open>The node agent\<close>

definition node_call :: "('r del_db_scheme \<Rightarrow> (error + unit) \<times> 'r del_db_scheme) \<Rightarrow> ('r del_db_scheme, unit) db_op" where
  "node_call f s =
     (let s1 = s\<lparr>node_faults := tl (node_faults s)\<rparr> in
      case (case node_faults s of [] \<Rightarrow> NoFault | x # _ \<Rightarrow> x) of
        NoFault \<Rightarrow> f s1
      | StmtFails \<Rightarrow> (Inl ErrServiceDown, s1)
      | ReplyLost \<Rightarrow> (Inl ErrServiceDown, snd (f s1)))"

text \<open>Stopping leaves the domain defined; deleting removes it, and a domain that is not there is
  reported with the gRPC code NotFound.\<close>

definition node_StopVM :: "string \<Rightarrow> string \<Rightarrow> ('r del_db_scheme, unit) db_op" where
  "node_StopVM nodeID vmID = node_call (\<lambda>s. (Inr (), s))"

definition node_ForceStopVM :: "string \<Rightarrow> string \<Rightarrow> ('r del_db_scheme, unit) db_op" where
  "node_ForceStopVM nodeID vmID = node_call (\<lambda>s. (Inr (), s))"

definition grpc_NotFound :: error where "grpc_NotFound = ErrMsg ''rpc error: code = NotFound''"

definition node_DeleteVM :: "string \<Rightarrow> string \<Rightarrow> ('r del_db_scheme, unit) db_op" where
  "node_DeleteVM nodeID vmID = node_call (\<lambda>s.
     if (nodeID, vmID) \<in> set (domains s)
     then (Inr (), s\<lparr>domains := filter (\<lambda>d. d \<noteq> (nodeID, vmID)) (domains s)\<rparr>)
     else (Inl grpc_NotFound, s))"

section \<open>The handler\<close>

definition str_contains :: "string \<Rightarrow> string \<Rightarrow> bool" where
  "str_contains s sub \<longleftrightarrow> (\<exists>i\<in>set [0..<Suc (length s)]. take (length sub) (drop i s) = sub)"

text \<open>An error made from a message is compared by its text; of the sentinel errors only
  \<open>ErrNotFound\<close> has the words.\<close>

definition isAlreadyAbsent :: "error \<Rightarrow> bool" where
  "isAlreadyAbsent e \<longleftrightarrow> e = ErrNotFound \<or> e = grpc_NotFound \<or>
     (case e of ErrMsg m \<Rightarrow> str_contains (ToLower m) ''not found'' | _ \<Rightarrow> False)"

definition del_progress :: "string \<Rightarrow> int \<Rightarrow> string \<Rightarrow> ('r del_db_scheme, unit) db_op" where
  "del_progress taskID n message = log_error (UpdateProgress taskID n message)"

definition del_stopVM :: "string \<Rightarrow> string \<Rightarrow> ('r del_db_scheme, unit) db_op" where
  "del_stopVM nodeID vmID s =
     (case node_StopVM nodeID vmID s of
        (Inr _, s1) \<Rightarrow> (Inr (), s1)
      | (Inl _, s1) \<Rightarrow> node_ForceStopVM nodeID vmID s1)"

text \<open>\<open>err != nil \<and> \<not> isAlreadyAbsent(err)\<close> ends the operation; other errors are swallowed.\<close>

definition unless_absent :: "('s, unit) db_op \<Rightarrow> ('s, unit) db_op" where
  "unless_absent m s =
     (case m s of
        (Inl e, s1) \<Rightarrow> (if isAlreadyAbsent e then Inr () else Inl e, s1)
      | (Inr _, s1) \<Rightarrow> (Inr (), s1))"

definition cleanupNode :: "string \<Rightarrow> VM \<Rightarrow> ('r del_db_scheme, unit) db_op" where
  "cleanupNode taskID vm =
     (case vm_NodeID vm of
        None \<Rightarrow> return_db ()
      | Some nodeID \<Rightarrow>
          bind_db (del_progress taskID 15 ''Stopping virtual machine...'') (\<lambda>_.
          bind_db (if vm_Status vm = VMStatusRunning then log_error (del_stopVM nodeID (vm_ID vm)) else return_db ()) (\<lambda>_.
          bind_db (del_progress taskID 40 ''Deleting virtual machine from node...'') (\<lambda>_.
          unless_absent (node_DeleteVM nodeID (vm_ID vm))))))"

definition releaseIPs :: "vmDeletion \<Rightarrow> string \<Rightarrow> ('r del_db_scheme, unit) db_op" where
  "releaseIPs d vmID = (if d_ipam d then unless_absent (ReleaseIPsByVM vmID) else return_db ())"

definition del_complete :: "vmDeletion \<Rightarrow> string \<Rightarrow> string \<Rightarrow> ('r del_db_scheme, unit) db_op" where
  "del_complete d taskID vmID = SetCompleted taskID (Some (print_result d vmID))"

definition completeIfRecordMissing ::
  "vmDeletion \<Rightarrow> string \<Rightarrow> string \<Rightarrow> error \<Rightarrow> ('r del_db_scheme, unit) db_op" where
  "completeIfRecordMissing d taskID vmID e =
     (if \<not> isAlreadyAbsent e then throw_db e else del_complete d taskID vmID)"

text \<open>\<open>billingHook\<close> reads the provider of a customer who is not deleted (the empty name for NULL);
  \<open>notifyBilling\<close> only logs its errors. The callback's own outcome is only logged too.\<close>

definition billingHook :: "string \<Rightarrow> ('r del_db_scheme, string) db_op" where
  "billingHook customerID = auto_stmt (\<lambda>s.
     if balances s customerID = None \<or> customerID \<in> set (deleted_customers s) then (Inl ErrNotFound, s)
     else (Inr (string_or_empty (billing_providers s customerID)), s))"

definition notifyBilling :: "vmDeletion \<Rightarrow> VM \<Rightarrow> ('r del_db_scheme, unit) db_op" where
  "notifyBilling d vm s =
     (case d_hooks d of
        None \<Rightarrow> (Inr (), s)
      | Some registered \<Rightarrow>
          (case billingHook (vm_CustomerID vm) s of
             (Inl _, s1) \<Rightarrow> (Inr (), s1)
           | (Inr provider, s1) \<Rightarrow>
               (Inr (), if registered provider then s1\<lparr>hook_log := hook_log s1 @ [vm_ID vm]\<rparr> else s1)))"

definition delete_record :: "vmDeletion \<Rightarrow> VM \<Rightarrow> ('r del_db_scheme, unit) db_op" where
  "delete_record d vm =
     (if vm_DeletedAt vm \<noteq> None then return_db ()
      else bind_db (SoftDelete (vm_ID vm)) (\<lambda>_. notifyBilling d vm))"

text \<open>The body of \<open>execute\<close> once the record is found.\<close>

definition remove_found :: "vmDeletion \<Rightarrow> string \<Rightarrow> VM \<Rightarrow> ('r del_db_scheme, unit) db_op" where
  "remove_found d taskID vm =
     bind_db (cleanupNode taskID vm) (\<lambda>_.
     bind_db (del_progress taskID 70 ''Releasing IP addresses...'') (\<lambda>_.
     bind_db (releaseIPs d (vm_ID vm)) (\<lambda>_.
     bind_db (del_progress taskID 90 ''Removing VM record...'') (\<lambda>_.
     bind_db (delete_record d vm) (\<lambda>_.
     bind_db (del_progress taskID 100 ''VM deleted successfully'') (\<lambda>_.
     del_complete d taskID (vm_ID vm)))))))"

definition del_execute :: "vmDeletion \<Rightarrow> string \<Rightarrow> string \<Rightarrow> ('r del_db_scheme, unit) db_op" where
  "del_execute d taskID vmID s =
     (case del_progress taskID 5 ''Starting VM deletion...'' s of (_, s0) \<Rightarrow>
      case GetByIDIncludingDeleted vmID s0 of
        (Inl e, s1) \<Rightarrow> completeIfRecordMissing d taskID vmID e s1
      | (Inr vm, s1) \<Rightarrow> remove_found d taskID vm s1)"

definition handleVMDelete :: "vmDeletion \<Rightarrow> ('r del_db_scheme) task_handler" where
  "handleVMDelete d task =
     (case vm_id_of d (task_Payload task) of
        None \<Rightarrow> throw_db (ErrMsg ''parsing vm.delete payload'')
      | Some vmID \<Rightarrow> bind_db (del_execute d (task_ID task) vmID) (\<lambda>_. return_db task))"

section \<open>The request\<close>

definition TaskTypeVMDelete :: string where "TaskTypeVMDelete = ''vm.delete''"

definition getVMForDelete :: "string \<Rightarrow> string \<Rightarrow> bool \<Rightarrow> ('r del_db_scheme, VM) db_op" where
  "getVMForDelete vmID customerID isAdmin s =
     (case GetByIDIncludingDeleted vmID s of
        (Inl e, s1) \<Rightarrow> (Inl (not_found_message ''VM not found'' e), s1)
      | (Inr vm, s1) \<Rightarrow>
          (if \<not> isAdmin \<and> vm_CustomerID vm \<noteq> customerID then Inl ErrForbidden else Inr vm, s1))"

definition DeleteVM :: "vmDeletion \<Rightarrow> string \<Rightarrow> string \<Rightarrow> bool \<Rightarrow> ('r del_db_scheme, string) db_op" where
  "DeleteVM d vmID customerID isAdmin =
     bind_db (getVMForDelete vmID customerID isAdmin) (\<lambda>vm.
       if vm_DeletedAt vm \<noteq> None then throw_db ErrConflict
       else if vm_Status vm = VMStatusDeleting then throw_db ErrConflict
       else bind_db (TransitionStatus (vm_ID vm) (vm_Status vm) VMStatusDeleting) (\<lambda>_ s.
         case publisher_PublishTask TaskTypeVMDelete (Some (print_payload d (vm_ID vm))) s of
           (Inr taskID, s1) \<Rightarrow> (Inr taskID, s1)
         | (Inl e, s1) \<Rightarrow> (Inl e, snd (vm_UpdateStatus (vm_ID vm) (vm_Status vm) s1))))"

section \<open>What the steps leave alone\<close>

text \<open>\<open>blind_to put g\<close>: the part \<open>g\<close> of the state does not depend on the connection or on what \<open>put\<close>
  replaces.\<close>

definition blind_to :: "('row list \<Rightarrow> 'r db_env_scheme \<Rightarrow> 'r db_env_scheme) \<Rightarrow> ('r db_env_scheme \<Rightarrow> 'a) \<Rightarrow> bool" where
  "blind_to put g \<longleftrightarrow> (\<forall>s. g (tables s) = g s) \<and> (\<forall>rows s. g (put rows s) = g s)"

lemma blind_same: "blind_to put g \<Longrightarrow> tables s = tables t \<Longrightarrow> g s = g t"
  unfolding blind_to_def by metis

lemma blind_env_free: "blind_to put g \<Longrightarrow> env_free (\<lambda>t. g t = c)"
  by (simp add: blind_to_def env_free_def)

lemma set_task_blind:
  assumes "blind_to put_tasks g"
  shows "g (snd (set_task i cols f s)) = g s"
proof -
  have "g (snd (update_tasks cols P f s)) = g s" for P
    unfolding update_tasks_def
    by (rule with_columns_keeps [where P = "\<lambda>t. g t = g s"], rule tt.update_keeps [OF blind_env_free [OF assms]])
      (use assms blind_same [OF assms tables_pop_fault] in \<open>simp_all add: blind_to_def\<close>)
  then show ?thesis unfolding set_task_def by (rule require_affected_keeps [where P = "\<lambda>t. g t = g s"])
qed

lemma del_progress_blind: "blind_to put_tasks g \<Longrightarrow> g (snd (del_progress i n m s)) = g s"
  by (simp add: del_progress_def log_error_def UpdateProgress_def set_task_blind)

lemma del_complete_blind: "blind_to put_tasks g \<Longrightarrow> g (snd (del_complete d i vm s)) = g s"
  by (simp add: del_complete_def SetCompleted_def set_task_blind)

lemma blind_tasks:
  "blind_to put_tasks (vms :: 'r del_db_scheme \<Rightarrow> VM list)"
  "blind_to put_tasks (ip_addresses :: 'r del_db_scheme \<Rightarrow> IPAddress list)"
  "blind_to put_tasks (domains :: 'r del_db_scheme \<Rightarrow> (string \<times> string) list)"
  "blind_to put_tasks (vms_ok :: 'r del_db_scheme \<Rightarrow> bool)"
  "blind_to put_tasks (ips_ok :: 'r del_db_scheme \<Rightarrow> bool)"
  by (simp_all add: blind_to_def put_tasks_def tables_def vms_ok_def ips_ok_def ip_violation_def)

lemmas del_blind [simp] = blind_tasks [THEN del_progress_blind] blind_tasks [THEN del_complete_blind]

text \<open>A node call changes at most the domains.\<close>

lemma node_call_blind:
  assumes "\<And>s x. g (s\<lparr>node_faults := x\<rparr>) = g s" "\<And>s. g (snd (f s)) = g s"
  shows "g (snd (node_call f s)) = g s"
  using assms by (simp add: node_call_def Let_def split: fault.split)

lemma node_stop_blind:
  assumes "\<And>s x. g (s\<lparr>node_faults := x\<rparr>) = g s"
  shows "g (snd (del_stopVM n i s)) = g s"
proof -
  have "g (snd (node_StopVM n i s)) = g s" "g (snd (node_ForceStopVM n i s)) = g s" for s
    unfolding node_StopVM_def node_ForceStopVM_def using assms by (intro node_call_blind; simp)+
  then show ?thesis by (simp add: del_stopVM_def split: prod.split sum.split) (metis sndI)
qed

lemma unless_absent_snd [simp]: "snd (unless_absent m s) = snd (m s)"
  by (simp add: unless_absent_def split: prod.split sum.split)

lemma bind_blind:
  assumes "g (snd (m s)) = g s" "\<And>x s. g (snd (f x s)) = g s"
  shows "g (snd (bind_db m f s)) = g s"
  using assms by (cases "m s"; cases "fst (m s)") (force simp: bind_db_def)+

lemma cleanupNode_blind:
  assumes "blind_to put_tasks g" "\<And>s x. g (s\<lparr>node_faults := x\<rparr>) = g s" "\<And>s x. g (s\<lparr>domains := x\<rparr>) = g s"
  shows "g (snd (cleanupNode i vm s)) = g s"
proof (cases "vm_NodeID vm")
  case None
  then show ?thesis by (simp add: cleanupNode_def return_db_def)
next
  case (Some n)
  have stop: "g (snd ((if vm_Status vm = VMStatusRunning then log_error (del_stopVM n (vm_ID vm)) else return_db ()) s)) = g s" for s
    using node_stop_blind [of g, OF assms(2)] by (simp add: log_error_def return_db_def)
  have del: "g (snd (node_DeleteVM n (vm_ID vm) s)) = g s" for s
    unfolding node_DeleteVM_def using assms(2,3) by (intro node_call_blind) simp_all
  show ?thesis using Some assms(1) stop del
    by (simp add: cleanupNode_def bind_blind del_progress_blind)
qed

lemma node_update_ok [simp]:
  "vms_ok (s\<lparr>node_faults := x\<rparr>) = vms_ok s" "vms_ok (s\<lparr>domains := y\<rparr>) = vms_ok s"
  "ips_ok (s\<lparr>node_faults := x\<rparr>) = ips_ok s" "ips_ok (s\<lparr>domains := y\<rparr>) = ips_ok s"
  by (simp_all add: vms_ok_def ips_ok_def ip_violation_def)

lemma cleanup_keeps [simp]:
  "vms (snd (cleanupNode i vm s)) = vms s" "ip_addresses (snd (cleanupNode i vm s)) = ip_addresses s"
  "vms_ok (snd (cleanupNode i vm s)) = vms_ok s" "ips_ok (snd (cleanupNode i vm s)) = ips_ok s"
  by (rule cleanupNode_blind [OF blind_tasks(1)] cleanupNode_blind [OF blind_tasks(2)]
      cleanupNode_blind [OF blind_tasks(4)] cleanupNode_blind [OF blind_tasks(5)]; simp)+

section \<open>What a successful step has done\<close>

lemma absent_errors:
  "\<not> isAlreadyAbsent ErrDB" "\<not> isAlreadyAbsent ErrServiceDown" "\<not> isAlreadyAbsent (ErrMsg ''errors releasing IPs'')"
  "isAlreadyAbsent ErrNotFound" "isAlreadyAbsent grpc_NotFound"
  by (code_simp, code_simp, code_simp, simp_all add: isAlreadyAbsent_def)

lemma delete_domain:
  assumes "unless_absent (node_DeleteVM n i) s = (Inr (), t)"
  shows "(n, i) \<notin> set (domains t)"
  using assms absent_errors
  by (auto simp: unless_absent_def node_DeleteVM_def node_call_def Let_def
      split: prod.splits sum.splits fault.splits if_splits)

lemma cleanupNode_done:
  assumes "cleanupNode i vm s = (Inr (), t)" "vm_NodeID vm = Some n"
  shows "(n, vm_ID vm) \<notin> set (domains t)"
  using assms delete_domain by (auto simp: cleanupNode_def)

definition holds_ip :: "string \<Rightarrow> IPAddress \<Rightarrow> bool" where
  "holds_ip vm a \<longleftrightarrow> ip_VMID a = Some vm \<and> ip_Status a = IPStatusAssigned"

definition held_ips :: "string \<Rightarrow> 'r ip_db_scheme \<Rightarrow> string set" where
  "held_ips vm s = ip_ID ` {a \<in> set (ip_addresses s). holds_ip vm a}"

lemma release_held:
  assumes "repo_ReleaseIPv4 i s = (Inr (), t)"
  shows "held_ips vm t \<subseteq> held_ips vm s - {i}"
proof -
  let ?P = "\<lambda>a. ip_ID a = i \<and> ip_Status a = IPStatusAssigned"
  obtain n where "table_update ip_addresses put_ips ip_violation ?P release_ip s = (Inr n, t)"
    using assms by (auto simp: repo_ReleaseIPv4_def require_affected_def return_db_def throw_db_def split: if_splits)
  then show ?thesis
  proof (cases rule: ipt.update_cases)
    case written
    then have "ip_addresses t = updated_rows ?P release_ip (clock s) (ip_addresses s)"
      using ipt.same_tables(1) [OF written(1)] by simp
    then have rows: "set (ip_addresses t) = (\<lambda>a. if ?P a then release_ip (clock s) a else a) ` set (ip_addresses s)"
      by (simp add: updated_rows_def)
    show ?thesis
    proof
      fix x assume "x \<in> held_ips vm t"
      then obtain b where b: "b \<in> set (ip_addresses s)"
        "holds_ip vm (if ?P b then release_ip (clock s) b else b)" "x = ip_ID (if ?P b then release_ip (clock s) b else b)"
        unfolding held_ips_def rows by blast
      have "\<not> ?P b" using b(2) by (auto simp: holds_ip_def release_ip_def)
      then have "x = ip_ID b" "holds_ip vm b" using b(2,3) by (simp_all only: if_False)
      then show "x \<in> held_ips vm s - {i}" using b(1) \<open>\<not> ?P b\<close> by (auto simp: held_ips_def holds_ip_def)
    qed
  qed simp
qed

lemma release_each_held:
  "release_each ips s = ([], t) \<Longrightarrow>
   held_ips vm t \<subseteq> held_ips vm s - ip_ID ` {a \<in> set ips. ip_Status a = IPStatusAssigned}"
proof (induction ips arbitrary: s)
  case (Cons a ips)
  show ?case
  proof (cases "ip_Status a = IPStatusAssigned")
    case True
    obtain s1 where s1: "repo_ReleaseIPv4 (ip_ID a) s = (Inr (), s1)" "release_each ips s1 = ([], t)"
      using Cons.prems True by (auto split: prod.splits sum.splits)
    then show ?thesis using Cons.IH [OF s1(2)] release_held [OF s1(1), of vm] by auto
  next
    case False
    have "{b \<in> set (a # ips). ip_Status b = IPStatusAssigned} = {b \<in> set ips. ip_Status b = IPStatusAssigned}"
      using False by auto
    then show ?thesis using Cons.IH [of s] Cons.prems False by simp
  qed
qed simp

definition few_ips :: "string \<Rightarrow> 'r ip_db_scheme \<Rightarrow> bool" where
  "few_ips vm s \<longleftrightarrow> length (filter (\<lambda>a. ip_VMID a = Some vm) (ip_addresses s)) \<le> nat DefaultPerPage"

text \<open>With at most one page of addresses the listing returns them all.\<close>

lemma list_vm_ips:
  assumes "ListIPAddresses (vm_filter vm) s = (Inr (ips, hasMore, cursor), t)" "few_ips vm s"
  shows "set ips = {a \<in> set (ip_addresses s). ip_VMID a = Some vm} \<and> tables t = tables s"
proof -
  let ?mine = "id_desc ip_ID (filter (\<lambda>a. ip_VMID a = Some vm) (ip_addresses s))"
  let ?q = "\<lambda>_ rows. take (nat DefaultPerPage + 1) (id_desc ip_ID (filter (address_where (vm_filter vm)) rows))"
  have wh: "filter (address_where (vm_filter vm)) rows = filter (\<lambda>a. ip_VMID a = Some vm) rows" for rows
    by (rule filter_cong) (simp_all add: address_where_def vm_filter_def)
  have small: "length ?mine \<le> nat DefaultPerPage" using assms(2) by (simp add: few_ips_def)
  obtain page where sel: "table_select ip_addresses ?q s = (Inr page, t)"
    and ips: "ips = (if length page > nat DefaultPerPage then take (nat DefaultPerPage) page else page)"
    using assms(1) by (auto simp: ListIPAddresses_def vm_filter_def Let_def return_db_def)
  have t: "tables t = tables s" using table_select_reads [of ip_addresses ?q s] sel by (metis sndI)
  from sel have "page = ?q 0 (ip_addresses s)"
    unfolding table_select_def by (cases rule: auto_stmt_cases) (auto dest: ipt.same_tables(1))
  then have "page = ?mine" using small by (simp add: wh)
  then show ?thesis using ips small t by auto
qed

lemma ReleaseIPsByVM_done:
  assumes "unless_absent (ReleaseIPsByVM vm) s = (Inr (), t)" "few_ips vm s"
  shows "held_ips vm t = {}"
proof -
  obtain r s1 where l: "ListIPAddresses (vm_filter vm) s = (r, s1)" by (cases "ListIPAddresses (vm_filter vm) s")
  show ?thesis
  proof (cases r)
    case (Inl e)
    have "e = ErrDB"
      using l Inl unfolding ListIPAddresses_def vm_filter_def Let_def table_select_def
      by (auto simp: bind_db_def return_db_def auto_stmt_def Let_def split: prod.splits sum.splits fault.splits)
    then show ?thesis using assms(1) l Inl absent_errors(1)
      by (simp add: unless_absent_def ReleaseIPsByVM_def bind_db_def)
  next
    case (Inr x)
    obtain ips hasMore cursor where x: "x = (ips, hasMore, cursor)" by (cases x)
    obtain es s2 where rel: "release_each ips s1 = (es, s2)" by (cases "release_each ips s1")
    have t: "t = snd (DeleteVMIPv6SubnetsByVM vm s2)" and es: "es = []"
      using assms(1) l Inr x rel absent_errors(3)
      by (auto simp: unless_absent_def ReleaseIPsByVM_def bind_db_def Let_def split: if_splits)
    note list = list_vm_ips [OF l [unfolded Inr x] assms(2)]
    have "held_ips vm s2 \<subseteq> held_ips vm s1 - ip_ID ` {a \<in> set ips. ip_Status a = IPStatusAssigned}"
      using release_each_held rel es by blast
    moreover have "held_ips vm s1 \<subseteq> ip_ID ` {a \<in> set ips. ip_Status a = IPStatusAssigned}"
      using list ipt.same_tables(1) [of s1 s] by (auto simp: held_ips_def holds_ip_def)
    moreover have "ip_addresses t = ip_addresses s2"
      unfolding t DeleteVMIPv6SubnetsByVM_def
      by (rule bind_blind, rule snt.delete_keeps) (simp_all add: env_free_def return_db_def)
    then have "held_ips vm t = held_ips vm s2" by (simp add: held_ips_def)
    ultimately show ?thesis by blast
  qed
qed

lemma SoftDelete_done:
  assumes "SoftDelete i s = (Inr (), t)"
  shows "(\<forall>v\<in>set (vms t). vm_ID v = i \<longrightarrow> \<not> active v) \<and> tables t = tables (s\<lparr>vms := vms t\<rparr>)"
  using assms unfolding SoftDelete_def
proof (cases rule: require_affected_cases)
  case applied
  let ?rows = "updated (\<lambda>v. vm_ID v = i \<and> active v)
      (\<lambda>now v. v\<lparr>vm_DeletedAt := Some now, vm_Status := VMStatusDeleted, vm_UpdatedAt := now\<rparr>) (clock s) (vms s)"
  have rows: "vms t = ?rows" using vm_tables_eqD(1) [OF applied(3)] by simp
  have "\<forall>v\<in>set ?rows. vm_ID v = i \<longrightarrow> \<not> active v" unfolding updated_def set_map
  proof (intro ballI impI, elim imageE)
    fix v w
    assume v: "v = (if vm_ID w = i \<and> active w
        then w\<lparr>vm_DeletedAt := Some (clock s), vm_Status := VMStatusDeleted, vm_UpdatedAt := clock s\<rparr> else w)"
      "vm_ID v = i"
    show "\<not> active v"
    proof (cases "vm_ID w = i \<and> active w")
      case True
      then show ?thesis unfolding v(1) by (simp add: active_def)
    next
      case False
      then have "v = w" unfolding v(1) by (simp only: if_False)
      then show ?thesis using False v(2) by simp
    qed
  qed
  then show ?thesis unfolding rows using applied(3) by (rule conjI)
next
  case (refused e)
  then show ?thesis by (metis sum.simps(4))
next
  case none
  then show ?thesis by (metis sum.simps(4))
qed

lemma SetCompleted_done:
  assumes "SetCompleted i result s = (Inr (), t)"
  shows "\<exists>r\<in>set (tasks t). r_ID r = i \<and> r_Status r = TaskStatusCompleted \<and> r_Progress r = 100"
proof -
  let ?P = "\<lambda>r. r_ID r = i"
  let ?f = "\<lambda>now r. r\<lparr>r_Status := TaskStatusCompleted, r_CompletedAt := Some now, r_Result := result, r_Progress := 100\<rparr>"
  obtain n where n: "n \<noteq> 0" "table_update tasks put_tasks task_violation ?P ?f s = (Inr n, t)"
    using assms by (auto simp: SetCompleted_def set_task_def require_affected_def update_tasks_def with_columns_def
        return_db_def throw_db_def split: if_splits)
  from n(2) show ?thesis
  proof (cases rule: tt.update_cases)
    case written
    then have "filter ?P (tasks s) \<noteq> []" using n(1) by auto
    then obtain r where "r \<in> set (tasks s)" "?P r" by (auto simp: filter_empty_conv)
    then have "?f (clock s) r \<in> set (tasks t)"
      using updated_rows_in [of r "tasks s" ?P ?f "clock s"] tt.same_tables(1) [OF written(1)] by simp
    then show ?thesis using \<open>?P r\<close> by (intro bexI) auto
  qed simp
qed

lemma release_each_keeps:
  assumes "\<And>i s. P s \<Longrightarrow> P (snd (repo_ReleaseIPv4 i s))"
  shows "P s \<Longrightarrow> P (snd (release_each ips s))"
proof (induction ips arbitrary: s)
  case (Cons a ips)
  show ?case
  proof (cases "ip_Status a = IPStatusAssigned")
    case True
    obtain r s1 where r: "repo_ReleaseIPv4 (ip_ID a) s = (r, s1)" by (cases "repo_ReleaseIPv4 (ip_ID a) s")
    then have "P s1" using assms [OF Cons.prems] by (metis sndI)
    then show ?thesis using True r Cons.IH [of s1] by (auto split: sum.split prod.split)
  qed (use Cons in simp)
qed simp

lemma ReleaseIPsByVM_keeps:
  assumes "env_free P" and "P s"
    and one: "\<And>i s. P s \<Longrightarrow> P (snd (repo_ReleaseIPv4 i s))"
    and subnets: "\<And>s rows. P s \<Longrightarrow> P (put_subnets rows s)"
  shows "P (snd (ReleaseIPsByVM vm s))"
proof -
  have del: "P (snd (DeleteVMIPv6SubnetsByVM vm t))" if "P t" for t
    unfolding DeleteVMIPv6SubnetsByVM_def
    by (rule bind_keeps [where P = P], rule snt.delete_keeps [OF assms(1) that])
      (use that subnets in \<open>simp_all add: return_db_def\<close>)
  have "P (snd ((case x of (ips, _, _) \<Rightarrow> \<lambda>s. case release_each ips s of (es, s1) \<Rightarrow>
      let s2 = snd (DeleteVMIPv6SubnetsByVM vm s1) in
      if es \<noteq> [] then (Inl (ErrMsg ''errors releasing IPs''), s2) else (Inr (), s2)) t))" if "P t" for x t
    using release_each_keeps [of P, OF one that, of "fst x"] del by (auto simp: Let_def split: prod.split)
  moreover have "P (snd (ListIPAddresses (vm_filter vm) s))"
    using env_freeD [OF assms(1) ListIPAddresses_reads [of "vm_filter vm" s]] assms(2) by simp
  ultimately show ?thesis unfolding ReleaseIPsByVM_def by (intro bind_keeps [where P = P]) auto
qed

lemma ReleaseIPsByVM_blind:
  assumes "blind_to put_ips g" "blind_to put_subnets g"
  shows "g (snd (ReleaseIPsByVM vm s)) = g s"
proof (rule ReleaseIPsByVM_keeps [where P = "\<lambda>t. g t = g s"])
  fix i t assume t: "g t = g s"
  show "g (snd (repo_ReleaseIPv4 i t)) = g s" unfolding repo_ReleaseIPv4_def
    by (rule require_affected_keeps [where P = "\<lambda>t. g t = g s"], rule ipt.update_keeps [OF blind_env_free [OF assms(1)]])
      (use assms(1) t in \<open>simp_all add: blind_to_def\<close>)
qed (use assms blind_env_free [OF assms(1)] in \<open>simp_all add: blind_to_def\<close>)

lemma blind_ips:
  "blind_to put_ips (vms :: 'r del_db_scheme \<Rightarrow> VM list)" "blind_to put_subnets (vms :: 'r del_db_scheme \<Rightarrow> VM list)"
  "blind_to put_ips (domains :: 'r del_db_scheme \<Rightarrow> (string \<times> string) list)"
  "blind_to put_subnets (domains :: 'r del_db_scheme \<Rightarrow> (string \<times> string) list)"
  by (simp_all add: blind_to_def put_ips_def put_subnets_def tables_def)

lemma release_keeps [simp]:
  "vms (snd (releaseIPs d vm s)) = vms s" "domains (snd (releaseIPs d vm s)) = domains s"
  by (simp_all add: releaseIPs_def return_db_def ReleaseIPsByVM_blind blind_ips)

lemma notify_keeps [simp]:
  "vms (snd (notifyBilling d vm s)) = vms s" "ip_addresses (snd (notifyBilling d vm s)) = ip_addresses s"
  "domains (snd (notifyBilling d vm s)) = domains s"
proof -
  have "tables (snd (billingHook c s)) = tables s" for c
    unfolding billingHook_def by (rule auto_stmt_reads) simp
  then have "vms (snd (billingHook c s)) = vms s" "ip_addresses (snd (billingHook c s)) = ip_addresses s"
    "domains (snd (billingHook c s)) = domains s" for c
    using blind_same [OF blind_tasks(1)] blind_same [OF blind_tasks(2)] blind_same [OF blind_tasks(3)] by blast+
  then show "vms (snd (notifyBilling d vm s)) = vms s" "ip_addresses (snd (notifyBilling d vm s)) = ip_addresses s"
    "domains (snd (notifyBilling d vm s)) = domains s"
    by (auto simp: notifyBilling_def split: option.split prod.split sum.split) (metis sndI)+
qed

lemma delete_record_done:
  assumes "delete_record d vm s = (Inr (), t)"
    and "vm_DeletedAt vm \<noteq> None \<Longrightarrow> \<forall>v\<in>set (vms s). vm_ID v = vm_ID vm \<longrightarrow> \<not> active v"
  shows "(\<forall>v\<in>set (vms t). vm_ID v = vm_ID vm \<longrightarrow> \<not> active v) \<and>
    ip_addresses t = ip_addresses s \<and> domains t = domains s"
proof (cases "vm_DeletedAt vm = None")
  case False
  then show ?thesis using assms by (simp add: delete_record_def return_db_def)
next
  case True
  then obtain s1 where s1: "SoftDelete (vm_ID vm) s = (Inr (), s1)" "notifyBilling d vm s1 = (Inr (), t)"
    using assms(1) by (auto simp: delete_record_def)
  note soft = SoftDelete_done [OF s1(1)]
  have "ip_addresses s1 = ip_addresses s" "domains s1 = domains s"
    using blind_same [OF blind_tasks(2) conjunct2 [OF soft]] blind_same [OF blind_tasks(3) conjunct2 [OF soft]] by simp_all
  then show ?thesis using soft notify_keeps [of d vm s1] s1(2) by simp
qed

lemma found_row:
  assumes "GetByIDIncludingDeleted i s = (Inr vm, t)"
  obtains v where "v \<in> set (vms s)" "vm_ID v = i" "vm = scanVM v" "tables t = tables s"
  using assms unfolding GetByIDIncludingDeleted_def select_vm_def
proof (cases rule: auto_stmt_cases)
  case (2 s1)
  then obtain v where v: "find (\<lambda>v. vm_ID v = i) (vms s) = Some v" "vm = scanVM v" "t = s1"
    unfolding vm_tables_eqD(1) [OF 2(1)] by (auto split: option.splits)
  then show ?thesis using that [of v] 2(1) by (auto simp: find_Some_iff)
qed simp_all

lemma no_row:
  assumes "GetByIDIncludingDeleted i s = (Inl e, t)" "isAlreadyAbsent e"
  shows "(\<forall>v\<in>set (vms s). vm_ID v \<noteq> i) \<and> tables t = tables s"
  using assms(1) unfolding GetByIDIncludingDeleted_def select_vm_def
proof (cases rule: auto_stmt_cases)
  case (2 s1)
  then have "find (\<lambda>v. vm_ID v = i) (vms s) = None" "t = s1"
    unfolding vm_tables_eqD(1) [OF 2(1)] by (auto split: option.splits)
  then show ?thesis using 2(1) by (simp add: find_None_iff)
qed (use assms(2) absent_errors(1) in simp_all)

lemma scanVM_simps [simp]:
  "vm_NodeID (scanVM v) = vm_NodeID v" "vm_DeletedAt (scanVM v) = vm_DeletedAt v" "vm_Status (scanVM v) = vm_Status v"
  "vm_CustomerID (scanVM v) = vm_CustomerID v"
  by (simp_all add: scanVM_def)

lemma del_execute_run:
  assumes "GetByIDIncludingDeleted vmID (snd (del_progress taskID 5 ''Starting VM deletion...'' s)) = (r, s1)"
  shows "del_execute d taskID vmID s =
    (case r of Inl e \<Rightarrow> completeIfRecordMissing d taskID vmID e s1 | Inr vm \<Rightarrow> remove_found d taskID vm s1)"
proof -
  obtain r0 s0 where p: "del_progress taskID 5 ''Starting VM deletion...'' s = (r0, s0)"
    by (cases "del_progress taskID 5 ''Starting VM deletion...'' s")
  then have "GetByIDIncludingDeleted vmID s0 = (r, s1)" using assms by simp
  then show ?thesis by (cases r) (simp_all add: del_execute_def p)
qed

lemma remove_found_done:
  assumes "remove_found d taskID vm s = (Inr (), t)" and "d_ipam d" and "few_ips (vm_ID vm) s"
    and gone: "vm_DeletedAt vm \<noteq> None \<Longrightarrow> \<forall>w\<in>set (vms s). vm_ID w = vm_ID vm \<longrightarrow> \<not> active w"
  shows "\<forall>w\<in>set (vms t). vm_ID w = vm_ID vm \<longrightarrow> \<not> active w" "held_ips (vm_ID vm) t = {}"
    "\<And>n. vm_NodeID vm = Some n \<Longrightarrow> (n, vm_ID vm) \<notin> set (domains t)"
    "\<exists>r\<in>set (tasks t). r_ID r = taskID \<and> r_Status r = TaskStatusCompleted \<and> r_Progress r = 100"
proof -
  from assms(1) obtain s2 s3 s4 s5 s6 s7 u3 u5 u7 where
    s2: "cleanupNode taskID vm s = (Inr (), s2)" and
    s3: "del_progress taskID 70 ''Releasing IP addresses...'' s2 = (Inr u3, s3)" and
    s4: "releaseIPs d (vm_ID vm) s3 = (Inr (), s4)" and
    s5: "del_progress taskID 90 ''Removing VM record...'' s4 = (Inr u5, s5)" and
    s6: "delete_record d vm s5 = (Inr (), s6)" and
    s7: "del_progress taskID 100 ''VM deleted successfully'' s6 = (Inr u7, s7)" and
    fin: "del_complete d taskID (vm_ID vm) s7 = (Inr (), t)"
    by (auto simp: remove_found_def)
  note p3 = del_blind(1-3) [of taskID 70 "''Releasing IP addresses...''" s2, unfolded s3 snd_conv]
  note p5 = del_blind(1-3) [of taskID 90 "''Removing VM record...''" s4, unfolded s5 snd_conv]
  note p7 = del_blind(1-3) [of taskID 100 "''VM deleted successfully''" s6, unfolded s7 snd_conv]
    del_blind(6-8) [of d taskID "vm_ID vm" s7, unfolded fin snd_conv]
  note before = cleanup_keeps(1,2) [of taskID vm s, unfolded s2 snd_conv]
    release_keeps [of d "vm_ID vm" s3, unfolded s4 snd_conv]
  have "held_ips (vm_ID vm) s4 = {}"
    using s4 assms(2,3) p3 before ReleaseIPsByVM_done [of "vm_ID vm" s3 s4] by (simp add: releaseIPs_def few_ips_def)
  moreover have "vms s5 = vms s" using p3 p5 before by simp
  then have rec: "(\<forall>v\<in>set (vms s6). vm_ID v = vm_ID vm \<longrightarrow> \<not> active v) \<and>
      ip_addresses s6 = ip_addresses s5 \<and> domains s6 = domains s5"
    using delete_record_done [OF s6] gone by simp
  ultimately show "held_ips (vm_ID vm) t = {}" using p5 p7 by (simp add: held_ips_def)
  show "\<forall>w\<in>set (vms t). vm_ID w = vm_ID vm \<longrightarrow> \<not> active w" using rec p7 by simp
  show "(n, vm_ID vm) \<notin> set (domains t)" if "vm_NodeID vm = Some n" for n
    using cleanupNode_done [OF s2 that] rec p3 p5 p7 before by simp
  show "\<exists>r\<in>set (tasks t). r_ID r = taskID \<and> r_Status r = TaskStatusCompleted \<and> r_Progress r = 100"
    using SetCompleted_done fin unfolding del_complete_def by blast
qed

section \<open>Retries\<close>

text \<open>What an attempt needs of the database: the columns the handler writes, the constraints of the
  tables, the row of the task and at most a page of addresses.\<close>

definition deletable :: "string \<Rightarrow> string \<Rightarrow> 'r del_db_scheme \<Rightarrow> bool" where
  "deletable i vm s \<longleftrightarrow>
     {''status'', ''completed_at'', ''result'', ''progress'', ''progress_message''} \<subseteq> set (task_columns s) \<and>
     tasks_ok s \<and> i \<in> r_ID ` set (tasks s) \<and> vms_ok s \<and> ips_ok s \<and> few_ips vm s"

lemma env_free_deletable: "env_free (deletable i vm)"
  by (simp add: env_free_def deletable_def tasks_ok_def task_violation_def vms_ok_def ips_ok_def ip_violation_def
      few_ips_def tables_def)

lemma reads_deletable: "deletable i vm s \<Longrightarrow> tables t = tables s \<Longrightarrow> deletable i vm t"
  using env_freeD [OF env_free_deletable] by blast

lemma deletable_frame [simp]:
  "deletable i vm (s\<lparr>node_faults := x\<rparr>) = deletable i vm s" "deletable i vm (s\<lparr>domains := y\<rparr>) = deletable i vm s"
  "deletable i vm (s\<lparr>hook_log := z\<rparr>) = deletable i vm s" "deletable i vm (s\<lparr>faults := fs\<rparr>) = deletable i vm s"
  by (simp_all add: deletable_def tasks_ok_def task_violation_def vms_ok_def ips_ok_def ip_violation_def few_ips_def)

lemma deletable_put_tasks:
  assumes "deletable i vm s" and "task_violation s rows = None" and "map r_ID rows = map r_ID (tasks s)"
  shows "deletable i vm (put_tasks rows s)"
proof -
  have "r_ID ` set rows = r_ID ` set (tasks s)" using assms(3) by (metis list.set_map)
  then show ?thesis using assms(1,2)
    by (simp add: deletable_def tasks_ok_def task_violation_def vms_ok_def ips_ok_def ip_violation_def few_ips_def put_tasks_def)
qed

lemma set_task_deletable:
  assumes "deletable i vm s" and "\<And>now r. r_ID (f now r) = r_ID r"
  shows "deletable i vm (snd (set_task i cols f s))"
proof -
  let ?P = "\<lambda>r. r_ID r = i"
  have "map r_ID (updated_rows ?P f (clock s) (tasks s)) = map r_ID (tasks s)"
    by (rule updated_rows_map) (use assms(2) in simp)
  then have "deletable i vm (snd (update_tasks cols ?P f s))"
    unfolding update_tasks_def using assms(1)
    by (intro with_columns_keeps [where P = "deletable i vm"] tt.update_keeps [OF env_free_deletable]
        deletable_put_tasks reads_deletable [OF _ tables_pop_fault])
  then show ?thesis unfolding set_task_def by (rule require_affected_keeps [where P = "deletable i vm"])
qed

lemma progress_deletable: "deletable i vm s \<Longrightarrow> deletable i vm (snd (del_progress i n m s))"
  by (simp add: del_progress_def log_error_def UpdateProgress_def set_task_deletable)

lemma complete_deletable: "deletable i vm s \<Longrightarrow> deletable i vm (snd (del_complete d i v s))"
  by (simp add: del_complete_def SetCompleted_def set_task_deletable)

lemma node_call_keeps:
  assumes "P s" "\<And>s x. P (s\<lparr>node_faults := x\<rparr>) = P s" "\<And>s. P s \<Longrightarrow> P (snd (f s))"
  shows "P (snd (node_call f s))"
  using assms by (simp add: node_call_def Let_def split: fault.split)

lemma cleanup_deletable:
  assumes "deletable i vm s"
  shows "deletable i vm (snd (cleanupNode i v s))"
proof (cases "vm_NodeID v")
  case None
  then show ?thesis using assms by (simp add: cleanupNode_def return_db_def)
next
  case (Some n)
  have stop: "deletable i vm (snd ((if b then log_error (del_stopVM n k) else return_db ()) t))"
    if "deletable i vm t" for b k and t :: "'a del_db_scheme"
    using node_stop_blind [of "deletable i vm" n k t] that by (simp add: log_error_def return_db_def)
  have del: "deletable i vm (snd (node_DeleteVM n k t))" if "deletable i vm t" for k and t :: "'a del_db_scheme"
    unfolding node_DeleteVM_def using that by (intro node_call_keeps [where P = "deletable i vm"]) simp_all
  show ?thesis unfolding cleanupNode_def Some option.case using assms
    by (intro bind_keeps [where P = "deletable i vm"]) (simp_all add: progress_deletable stop del)
qed

text \<open>Releasing and deleting rows only frees keys.\<close>

lemma map_filter_freed:
  assumes "distinct (List.map_filter f xs)" and "\<And>x. x \<in> set xs \<Longrightarrow> h x = None \<or> h x = f x"
  shows "distinct (List.map_filter h xs)"
proof -
  have sub: "set (List.map_filter h ys) \<subseteq> set (List.map_filter f ys)" if "set ys \<subseteq> set xs" for ys
    using assms(2) that by (force simp: map_filter_set)
  have "distinct (List.map_filter h ys)" if "distinct (List.map_filter f ys)" "set ys \<subseteq> set xs" for ys
    using that
  proof (induction ys)
    case (Cons y ys)
    then show ?case using sub [of ys] assms(2) [of y]
      by (fastforce simp: List.map_filter_simps split: option.splits)
  qed (simp add: List.map_filter_simps)
  then show ?thesis using assms(1) by blast
qed

lemma map_filter_filter: "List.map_filter f (filter P xs) = List.map_filter (\<lambda>x. if P x then f x else None) xs"
  by (induction xs) (simp_all add: List.map_filter_simps split: option.split)

lemma release_violation:
  assumes "ip_violation s rows = None"
  shows "ip_violation s (updated_rows P release_ip now rows) = None"
proof -
  have keys: "map ip_ID (updated_rows P release_ip now rows) = map ip_ID rows"
    "map ip_Address (updated_rows P release_ip now rows) = map ip_Address rows"
    by (rule updated_rows_map; simp add: release_ip_def)+
  have "distinct (List.map_filter primary_vm (updated_rows P release_ip now rows))"
    unfolding updated_rows_def map_filter_map
    by (rule map_filter_freed [where f = primary_vm])
      (use assms in \<open>auto simp: ip_violation_def primary_vm_def release_ip_def split: if_splits\<close>)
  moreover have "ip_Status a \<in> set ip_statuses \<and> ip_IPVersion a \<in> {4, 6}"
    if "a \<in> set (updated_rows P release_ip now rows)" for a
    using that by (rule updated_rows_all [rotated 2])
      (use assms in \<open>auto simp: ip_violation_def release_ip_def ip_statuses_def split: if_splits\<close>)
  ultimately show ?thesis using assms keys by (simp add: ip_violation_def split: if_splits)
qed

lemma release_few:
  "length (filter (\<lambda>a. ip_VMID a = Some vm) (updated_rows P release_ip now rows)) \<le>
   length (filter (\<lambda>a. ip_VMID a = Some vm) rows)"
  by (induction rows) (auto simp: updated_rows_def release_ip_def)

lemma soft_delete_violation:
  assumes "vm_violation req rows = None"
  shows "vm_violation req (updated (\<lambda>v. vm_ID v = i \<and> active v)
    (\<lambda>now v. v\<lparr>vm_DeletedAt := Some now, vm_Status := VMStatusDeleted, vm_UpdatedAt := now\<rparr>) now rows) = None"
    (is "vm_violation req (updated ?P ?f now rows) = None")
proof -
  let ?g = "\<lambda>v. if ?P v then ?f now v else v"
  have act: "filter active (map ?g rows) = filter active (filter (\<lambda>v. vm_ID v \<noteq> i) rows)"
    by (induction rows) (auto simp: active_def)
  have cols: "map vm_ID (map ?g rows) = map vm_ID rows" "map vm_MACAddress (map ?g rows) = map vm_MACAddress rows"
    by auto
  have host: "distinct (map vm_Hostname (filter active (map ?g rows)))"
    using assms unfolding act vm_violation_None by (auto simp: filter_filter distinct_map inj_on_def)
  have svc: "distinct (active_services (map ?g rows))"
    unfolding active_services_def act filter_filter map_filter_filter
    by (rule map_filter_freed [where f = "\<lambda>v. if active v then vm_ExternalServiceID v else None"])
      (use assms in \<open>auto simp: vm_violation_None active_services_def map_filter_filter\<close>)
  have row: "vm_Status v \<in> set vm_statuses \<and> (req \<longrightarrow> vm_StorageBackendID v \<noteq> None)" if "v \<in> set (map ?g rows)" for v
  proof -
    from that obtain w where "w \<in> set rows" "v = ?g w" unfolding set_map by (rule imageE)
    then show ?thesis using assms unfolding vm_violation_None
      by (cases "?P w") (simp_all only: if_True if_False, auto simp: vm_statuses_def)
  qed
  show ?thesis using assms [unfolded vm_violation_None] host svc row unfolding updated_def vm_violation_None cols by blast
qed

lemma put_ips_ok [simp]:
  "ips_ok (put_ips rows s) \<longleftrightarrow> ip_violation s rows = None"
  "vms_ok (put_ips rows (s :: 'r del_db_scheme)) = vms_ok s" "tasks_ok (put_ips rows s) = tasks_ok s"
  by (simp_all add: ips_ok_def vms_ok_def tasks_ok_def put_ips_def ip_violation_def task_violation_def)

lemma put_subnets_ok [simp]:
  "ips_ok (put_subnets rows s) = ips_ok s"
  "vms_ok (put_subnets rows s) = vms_ok s" "tasks_ok (put_subnets rows s) = tasks_ok s"
  by (simp_all add: ips_ok_def vms_ok_def tasks_ok_def put_subnets_def ip_violation_def task_violation_def)

lemma release_deletable:
  assumes "deletable i vm s"
  shows "deletable i vm (snd (releaseIPs d v s))"
proof -
  have "deletable i vm (snd (repo_ReleaseIPv4 k t))" if "deletable i vm t" for k and t :: "'a del_db_scheme"
  proof -
    have put: "deletable i vm (put_ips rows t)" if "ip_violation t rows = None"
        "length (filter (\<lambda>a. ip_VMID a = Some vm) rows) \<le> length (filter (\<lambda>a. ip_VMID a = Some vm) (ip_addresses t))"
      for rows using that \<open>deletable i vm t\<close> by (simp add: deletable_def few_ips_def)
    show ?thesis unfolding repo_ReleaseIPv4_def
      by (rule require_affected_keeps [where P = "deletable i vm"], rule ipt.update_keeps [OF env_free_deletable that])
        (rule put [OF _ release_few])
  qed
  then have "deletable i vm (snd (ReleaseIPsByVM v s))"
    by (rule ReleaseIPsByVM_keeps [OF env_free_deletable assms]) (simp_all add: deletable_def few_ips_def)
  then show ?thesis using assms by (simp add: releaseIPs_def return_db_def)
qed

lemma billingHook_reads: "tables (snd (billingHook c s)) = tables s"
  unfolding billingHook_def by (rule auto_stmt_reads) simp

lemma delete_record_deletable:
  assumes "deletable i vm s"
  shows "deletable i vm (snd (delete_record d v s))"
proof -
  have soft: "deletable i vm (snd (SoftDelete k s))" for k
  proof -
    obtain r t where rt: "SoftDelete k s = (r, t)" by (cases "SoftDelete k s")
    then have "deletable i vm t" unfolding SoftDelete_def
    proof (cases rule: require_affected_cases)
      case applied
      then show ?thesis using assms by (intro reads_deletable [OF _ applied(3)])
        (simp add: deletable_def tasks_ok_def task_violation_def vms_ok_def ips_ok_def ip_violation_def few_ips_def)
    qed (use assms reads_deletable in auto)
    then show ?thesis using rt by simp
  qed
  have "deletable i vm (snd (notifyBilling d v t))" if "deletable i vm t" for t :: "'a del_db_scheme"
    using reads_deletable [OF that billingHook_reads, of "vm_CustomerID v"] that
    by (auto simp: notifyBilling_def split: option.split prod.split sum.split)
  then show ?thesis unfolding delete_record_def using assms soft
    by (auto simp: return_db_def intro: bind_keeps [where P = "deletable i vm"])
qed

lemma del_execute_deletable:
  assumes "deletable i vm s"
  shows "deletable i vm (snd (del_execute d i vm s))"
proof -
  let ?s0 = "snd (del_progress i 5 ''Starting VM deletion...'' s)"
  obtain r s1 where get: "GetByIDIncludingDeleted vm ?s0 = (r, s1)" by (cases "GetByIDIncludingDeleted vm ?s0")
  have "tables (snd (GetByIDIncludingDeleted vm ?s0)) = tables ?s0"
    unfolding GetByIDIncludingDeleted_def select_vm_def by (rule auto_stmt_reads) (simp split: option.split)
  then have s1: "deletable i vm s1" using get reads_deletable [OF progress_deletable [OF assms]] by simp
  have "deletable i vm (snd (remove_found d i v s1))" for v
    unfolding remove_found_def using s1
    by (intro bind_keeps [where P = "deletable i vm"])
      (simp_all add: cleanup_deletable progress_deletable release_deletable delete_record_deletable complete_deletable)
  then show ?thesis unfolding del_execute_run [OF get]
    using s1 by (simp add: completeIfRecordMissing_def throw_db_def complete_deletable split: sum.split)
qed

section \<open>An attempt without faults\<close>

definition calm :: "'r del_db_scheme \<Rightarrow> bool" where
  "calm s \<longleftrightarrow> faults s = [] \<and> node_faults s = []"

lemma calm_put [simp]:
  "calm (put_tasks rows s) = calm s" "calm (put_ips xs s) = calm s" "calm (put_subnets ys s) = calm s"
  "calm (s\<lparr>vms := vs\<rparr>) = calm s" "calm (s\<lparr>domains := ds\<rparr>) = calm s" "calm (s\<lparr>hook_log := hs\<rparr>) = calm s"
  by (simp_all add: calm_def put_tasks_def put_ips_def put_subnets_def)

lemma calm_pop [simp]: "calm s \<Longrightarrow> calm (pop_fault s)"
  by (simp add: calm_def pop_fault_def)

lemma calm_auto_stmt: "calm s \<Longrightarrow> auto_stmt f s = f s"
  by (simp add: calm_def auto_stmt_no_faults)

lemma set_task_calm: "calm s \<Longrightarrow> calm (snd (set_task i cols f s))"
  unfolding set_task_def
  by (rule require_affected_keeps [where P = calm])
    (simp add: update_tasks_def with_columns_def table_update_def calm_auto_stmt table_write_def split: option.split)

lemma progress_calm: "calm s \<Longrightarrow> calm (snd (del_progress i n m s)) \<and> fst (del_progress i n m s) = Inr ()"
  by (simp add: del_progress_def log_error_def UpdateProgress_def set_task_calm)

lemma complete_live:
  assumes "deletable i vm s" "calm s"
  shows "fst (del_complete d i v s) = Inr ()"
proof -
  let ?P = "\<lambda>r. r_ID r = i"
  let ?f = "\<lambda>now r. r\<lparr>r_Status := TaskStatusCompleted, r_CompletedAt := Some now, r_Result := Some (print_result d v),
    r_Progress := 100\<rparr>"
  have "task_violation s (updated_rows ?P ?f (clock s) (tasks s)) = None"
    using assms(1) by (intro violation_updated) (simp_all add: deletable_def tasks_ok_def)
  then have "table_update tasks put_tasks task_violation ?P ?f s =
      (Inr (length (filter ?P (tasks s))), put_tasks (updated_rows ?P ?f (clock s) (tasks s)) s)"
    using assms(2) by (intro tt.update_run) (simp_all add: calm_def)
  moreover have "filter ?P (tasks s) \<noteq> []" using assms(1) by (auto simp: deletable_def filter_empty_conv)
  ultimately show ?thesis using assms(1)
    by (simp add: del_complete_def SetCompleted_def set_task_def require_affected_def update_tasks_def with_columns_def
        deletable_def bind_db_def return_db_def)
qed

lemma node_call_calm: "calm s \<Longrightarrow> node_call f s = f s"
  by (cases s) (simp add: node_call_def calm_def)

lemma cleanup_live: "calm s \<Longrightarrow> fst (cleanupNode i v s) = Inr () \<and> calm (snd (cleanupNode i v s))"
proof (cases "vm_NodeID v")
  case (Some n)
  assume "calm s"
  then obtain s1 where s1: "del_progress i 15 ''Stopping virtual machine...'' s = (Inr (), s1)" "calm s1"
    using progress_calm [of s i 15 "''Stopping virtual machine...''"] by (metis prod.collapse)
  then obtain s2 where s2: "del_progress i 40 ''Deleting virtual machine from node...'' s1 = (Inr (), s2)" "calm s2"
    using progress_calm [of s1 i 40 "''Deleting virtual machine from node...''"] by (metis prod.collapse)
  have stop: "(if b then log_error (del_stopVM n k) else return_db ()) s1 = (Inr (), s1)" for b k
    using s1(2) by (simp add: log_error_def del_stopVM_def node_StopVM_def node_call_calm return_db_def)
  show ?thesis using Some s1(1) s2 stop absent_errors(5)
    by (simp add: cleanupNode_def bind_db_def unless_absent_def node_DeleteVM_def node_call_calm)
qed (simp add: cleanupNode_def return_db_def)

lemma release_one_live:
  assumes "ips_ok s" "calm s" "a \<in> set (ip_addresses s)" "ip_ID a = k" "ip_Status a = IPStatusAssigned"
  obtains t where "repo_ReleaseIPv4 k s = (Inr (), t)" "ips_ok t" "calm t"
    "\<And>b. b \<in> set (ip_addresses s) \<Longrightarrow> ip_ID b \<noteq> k \<Longrightarrow> b \<in> set (ip_addresses t)"
proof -
  let ?P = "\<lambda>a. ip_ID a = k \<and> ip_Status a = IPStatusAssigned"
  let ?rows = "updated_rows ?P release_ip (clock s) (ip_addresses s)"
  have ok: "ip_violation s ?rows = None" using assms(1) release_violation by (simp add: ips_ok_def)
  have "table_update ip_addresses put_ips ip_violation ?P release_ip s =
      (Inr (length (filter ?P (ip_addresses s))), put_ips ?rows s)"
    using assms(2) ok by (intro ipt.update_run) (simp_all add: calm_def)
  moreover have "filter ?P (ip_addresses s) \<noteq> []" using assms(3-5) by (auto simp: filter_empty_conv)
  ultimately have "repo_ReleaseIPv4 k s = (Inr (), put_ips ?rows s)"
    by (simp add: repo_ReleaseIPv4_def require_affected_def bind_db_def return_db_def)
  moreover have "b \<in> set (ip_addresses (put_ips ?rows s))" if "b \<in> set (ip_addresses s)" "ip_ID b \<noteq> k" for b
    using updated_rows_in [OF that(1), of ?P release_ip "clock s"] that(2) by simp
  ultimately show ?thesis using that [of "put_ips ?rows s"] ok assms(2) by simp
qed

lemma release_each_live:
  assumes "distinct (map ip_ID ips)" "ips_ok s" "calm s" "set ips \<subseteq> set (ip_addresses s)"
  shows "fst (release_each ips s) = [] \<and> calm (snd (release_each ips s))"
  using assms
proof (induction ips arbitrary: s)
  case (Cons a ips)
  show ?case
  proof (cases "ip_Status a = IPStatusAssigned")
    case True
    obtain t where t: "repo_ReleaseIPv4 (ip_ID a) s = (Inr (), t)" "ips_ok t" "calm t"
      "\<And>b. b \<in> set (ip_addresses s) \<Longrightarrow> ip_ID b \<noteq> ip_ID a \<Longrightarrow> b \<in> set (ip_addresses t)"
      using release_one_live [OF Cons.prems(2,3), of a "ip_ID a"] Cons.prems(4) True by auto
    have "set ips \<subseteq> set (ip_addresses t)"
    proof
      fix b assume "b \<in> set ips"
      then show "b \<in> set (ip_addresses t)" using Cons.prems(1,4) by (intro t(4)) (auto, metis image_eqI)
    qed
    then show ?thesis using Cons.IH [of t] t(1-3) Cons.prems(1) True by simp
  qed (use Cons in simp)
qed simp

lemma distinct_id_desc: "distinct (map f (id_desc f rows)) = distinct (map f rows)"
  by (simp add: id_desc_def rev_map [symmetric] distinct_map)

lemma release_live:
  assumes "ips_ok s" "calm s"
  shows "fst (releaseIPs d vm s) = Inr () \<and> calm (snd (releaseIPs d vm s))"
proof -
  let ?all = "id_desc ip_ID (filter (address_where (vm_filter vm)) (ip_addresses s))"
  have "distinct (map ip_ID (filter (address_where (vm_filter vm)) (ip_addresses s)))"
    using assms(1) by (auto simp: ips_ok_def ip_violation_def distinct_map inj_on_def split: if_splits)
  then have ids: "distinct (map ip_ID ?all)" and sub: "set ?all \<subseteq> set (ip_addresses s)"
    by (auto simp: distinct_id_desc)
  let ?page = "take (nat DefaultPerPage + 1) ?all"
  define ips where "ips = (if length ?page > nat DefaultPerPage then take (nat DefaultPerPage) ?page else ?page)"
  have run: "table_select ip_addresses q s = (Inr (q (clock s) (ip_addresses s)), s)" for q
    using assms(2) by (intro table_select_run) (simp add: calm_def)
  obtain more1 cursor where l: "ListIPAddresses (vm_filter vm) s = (Inr (ips, more1, cursor), s)"
    by (simp add: ListIPAddresses_def vm_filter_def Let_def return_db_def bind_db_def run ips_def)
  have "ips = take (nat DefaultPerPage) ?all \<or> ips = ?page" by (simp add: ips_def)
  then obtain n where ips: "ips = take n ?all" by blast
  have "distinct (map ip_ID ips)" "set ips \<subseteq> set (ip_addresses s)"
    using ips ids sub by (auto simp: take_map [symmetric] dest: in_set_takeD)
  note each = release_each_live [OF this(1) assms this(2)]
  obtain s1 where s1: "release_each ips s = ([], s1)" "calm s1" using each by (metis prod.collapse)
  have "calm (snd (DeleteVMIPv6SubnetsByVM vm s1))"
    unfolding DeleteVMIPv6SubnetsByVM_def
    by (rule bind_keeps [where P = calm])
      (use s1(2) in \<open>simp_all add: table_delete_def calm_auto_stmt table_write_def return_db_def split: option.split\<close>)
  then show ?thesis using assms(2) l s1
    by (simp add: releaseIPs_def unless_absent_def ReleaseIPsByVM_def bind_db_def Let_def return_db_def)
qed

lemma delete_record_live:
  assumes "vms_ok s" "calm s" "v \<in> set (vms s)" "vm = scanVM v"
  shows "fst (delete_record d vm s) = Inr () \<and> calm (snd (delete_record d vm s))"
proof (cases "vm_DeletedAt vm = None")
  case True
  let ?P = "\<lambda>w. vm_ID w = vm_ID vm \<and> active w"
  let ?f = "\<lambda>now v. v\<lparr>vm_DeletedAt := Some now, vm_Status := VMStatusDeleted, vm_UpdatedAt := now\<rparr>"
  let ?t = "s\<lparr>vms := updated ?P ?f (clock s) (vms s)\<rparr>"
  have "?P v" using True assms(4) by (simp add: active_def)
  then have "filter ?P (vms s) \<noteq> []" using assms(3) by (auto simp: filter_empty_conv)
  then have soft: "SoftDelete (vm_ID vm) s = (Inr (), ?t)"
    unfolding SoftDelete_def using assms(1,2) soft_delete_violation
    by (intro updated_require_affected) (simp_all add: calm_def vms_ok_def)
  have "fst (notifyBilling d vm ?t) = Inr () \<and> calm (snd (notifyBilling d vm ?t))"
    using assms(2) by (simp add: notifyBilling_def billingHook_def calm_auto_stmt split: option.split)
  then show ?thesis using True soft by (simp add: delete_record_def bind_db_def)
qed (use assms in \<open>simp add: delete_record_def return_db_def\<close>)

lemma bind_live:
  assumes "fst (m s) = Inr x" "fst (f x (snd (m s))) = Inr y"
  shows "fst (bind_db m f s) = Inr y"
  using assms by (cases "m s") (simp add: bind_db_def)

lemma remove_found_live:
  assumes "deletable i vmID s" "calm s" "v \<in> set (vms s)" "vm = scanVM v"
  shows "fst (remove_found d i vm s) = Inr ()"
proof -
  define s2 where "s2 = snd (cleanupNode i vm s)"
  define s3 where "s3 = snd (del_progress i 70 ''Releasing IP addresses...'' s2)"
  define s4 where "s4 = snd (releaseIPs d (vm_ID vm) s3)"
  define s5 where "s5 = snd (del_progress i 90 ''Removing VM record...'' s4)"
  define s6 where "s6 = snd (delete_record d vm s5)"
  define s7 where "s7 = snd (del_progress i 100 ''VM deleted successfully'' s6)"
  have ok: "deletable i vmID s3" "deletable i vmID s5" "deletable i vmID s7"
    using assms(1) by (simp_all add: s2_def s3_def s4_def s5_def s6_def s7_def cleanup_deletable progress_deletable
        release_deletable delete_record_deletable)
  have c3: "calm s3" using cleanup_live [OF assms(2), of i vm] by (simp add: s2_def s3_def progress_calm)
  have r: "fst (releaseIPs d (vm_ID vm) s3) = Inr ()" "calm s4"
    using release_live [OF _ c3] ok(1) by (simp_all add: deletable_def s4_def)
  have c5: "calm s5" using r(2) by (simp add: s5_def progress_calm)
  have v: "v \<in> set (vms s5)" using assms(3) by (simp add: s2_def s3_def s4_def s5_def)
  have del: "fst (delete_record d vm s5) = Inr ()" "calm s6"
    using delete_record_live [OF _ c5 v assms(4)] ok(2) by (simp_all add: deletable_def s6_def)
  have c7: "calm s7" using del(2) by (simp add: s7_def progress_calm)
  show ?thesis unfolding remove_found_def
    using cleanup_live [OF assms(2), of i vm] c3 c5 r del complete_live [OF ok(3) c7, of d "vm_ID vm"]
    by (intro bind_live) (auto simp: progress_calm s2_def [symmetric] s3_def [symmetric] s4_def [symmetric]
        s5_def [symmetric] s6_def [symmetric] s7_def [symmetric])
qed

lemma del_execute_live:
  assumes "deletable i vmID s" "calm s"
  shows "fst (del_execute d i vmID s) = Inr ()"
proof -
  let ?s0 = "snd (del_progress i 5 ''Starting VM deletion...'' s)"
  have s0: "deletable i vmID ?s0" "calm ?s0" using assms progress_deletable progress_calm by blast+
  have get: "GetByIDIncludingDeleted vmID ?s0 = (case find (\<lambda>v. vm_ID v = vmID) (vms ?s0) of
      None \<Rightarrow> (Inl ErrNotFound, ?s0) | Some v \<Rightarrow> (Inr (scanVM v), ?s0))"
    using s0(2) by (simp add: GetByIDIncludingDeleted_def select_vm_def calm_auto_stmt)
  show ?thesis
  proof (cases "find (\<lambda>v. vm_ID v = vmID) (vms ?s0)")
    case None
    then show ?thesis using del_execute_run [OF get [unfolded None option.case]] complete_live [OF s0] absent_errors(4)
      by (simp add: completeIfRecordMissing_def)
  next
    case (Some v)
    then have "v \<in> set (vms ?s0)" by (auto simp: find_Some_iff)
    then show ?thesis using del_execute_run [OF get [unfolded Some option.case]] remove_found_live [OF s0]
      by simp
  qed
qed

text \<open>A successful run.\<close>

lemma del_execute_done:
  assumes "del_execute d taskID vmID s = (Inr (), t)"
    and "vms_ok s" and "d_ipam d" and "few_ips vmID s"
  shows "(\<forall>v\<in>set (vms t). vm_ID v = vmID \<longrightarrow> \<not> active v) \<and>
    (\<forall>v\<in>set (vms s). vm_ID v = vmID \<longrightarrow>
       (\<forall>n. vm_NodeID v = Some n \<longrightarrow> (n, vmID) \<notin> set (domains t)) \<and> held_ips vmID t = {}) \<and>
    (\<exists>r\<in>set (tasks t). r_ID r = taskID \<and> r_Status r = TaskStatusCompleted \<and> r_Progress r = 100)"
proof -
  let ?s0 = "snd (del_progress taskID 5 ''Starting VM deletion...'' s)"
  obtain r s1 where get: "GetByIDIncludingDeleted vmID ?s0 = (r, s1)" by (cases "GetByIDIncludingDeleted vmID ?s0")
  note run = del_execute_run [OF get, of d, unfolded assms(1)]
  show ?thesis
  proof (cases r)
    case (Inl e)
    then have absent: "isAlreadyAbsent e" and fin: "del_complete d taskID vmID s1 = (Inr (), t)"
      using run by (auto simp: completeIfRecordMissing_def throw_db_def split: if_splits)
    note none = no_row [OF get [unfolded Inl] absent]
    have "vms t = vms s1" using fin del_blind(6) [of d taskID vmID s1] by simp
    then have "vms t = vms s" using none vm_tables_eqD(1) [of s1 ?s0] by simp
    then show ?thesis using none SetCompleted_done fin unfolding del_complete_def by auto
  next
    case (Inr vm)
    have s0: "vms ?s0 = vms s" "ip_addresses ?s0 = ip_addresses s" by simp_all
    from found_row [OF get [unfolded Inr]] obtain v where v: "v \<in> set (vms ?s0)" "vm_ID v = vmID" "vm = scanVM v"
      and s1: "tables s1 = tables ?s0" .
    note v = v(1) [unfolded s0] v(2,3)
    have only: "w = v" if "w \<in> set (vms s)" "vm_ID w = vmID" for w using that v vms_ok_unique [OF assms(2)] by auto
    have s1_rows: "vms s1 = vms s" "ip_addresses s1 = ip_addresses s"
      using vm_tables_eqD(1) [OF s1] ipt.same_tables(1) [OF s1] by simp_all
    have "remove_found d taskID vm s1 = (Inr (), t)" using run Inr by simp
    note finished = remove_found_done [OF this assms(3)]
    have id: "vm_ID vm = vmID" "vm_NodeID vm = vm_NodeID v" using v by simp_all
    have "few_ips (vm_ID vm) s1" using assms(4) id s1_rows by (simp add: few_ips_def)
    moreover have "\<forall>w\<in>set (vms s1). vm_ID w = vm_ID vm \<longrightarrow> \<not> active w" if "vm_DeletedAt vm \<noteq> None"
    proof (intro ballI impI)
      fix w assume "w \<in> set (vms s1)" "vm_ID w = vm_ID vm"
      then have "w = v" using only id(1) s1_rows by metis
      then show "\<not> active w" using that v(3) by (simp add: active_def)
    qed
    ultimately show ?thesis using finished only unfolding id by blast
  qed
qed

text \<open>The records stay where they are.\<close>

definition machine_nodes :: "'r del_db_scheme \<Rightarrow> (string \<times> string option) list" where
  "machine_nodes s = map (\<lambda>v. (vm_ID v, vm_NodeID v)) (vms s)"

lemma delete_record_nodes: "machine_nodes (snd (delete_record d v s)) = machine_nodes s"
proof -
  have soft: "machine_nodes (snd (SoftDelete k s)) = machine_nodes s" for k
  proof -
    obtain r t where rt: "SoftDelete k s = (r, t)" by (cases "SoftDelete k s")
    then have "machine_nodes t = machine_nodes s" unfolding SoftDelete_def
    proof (cases rule: require_affected_cases)
      case applied
      then show ?thesis using vm_tables_eqD(1) [OF applied(3)] by (simp add: machine_nodes_def updated_def)
    next
      case refused
      then show ?thesis using vm_tables_eqD(1) [OF refused(2)] by (simp add: machine_nodes_def)
    next
      case none
      then show ?thesis using vm_tables_eqD(1) [OF none(3)] by (simp add: machine_nodes_def)
    qed
    then show ?thesis using rt by simp
  qed
  show ?thesis unfolding delete_record_def using soft
    by (auto simp: return_db_def machine_nodes_def intro: bind_keeps [where P = "\<lambda>t. machine_nodes t = machine_nodes s",
        unfolded machine_nodes_def])
qed

lemma del_execute_nodes: "machine_nodes (snd (del_execute d i vm s)) = machine_nodes s"
proof -
  let ?s0 = "snd (del_progress i 5 ''Starting VM deletion...'' s)"
  obtain r s1 where get: "GetByIDIncludingDeleted vm ?s0 = (r, s1)" by (cases "GetByIDIncludingDeleted vm ?s0")
  have "tables (snd (GetByIDIncludingDeleted vm ?s0)) = tables ?s0"
    unfolding GetByIDIncludingDeleted_def select_vm_def by (rule auto_stmt_reads) (simp split: option.split)
  then have "vms s1 = vms ?s0" using get vm_tables_eqD(1) [of s1 ?s0] by simp
  then have s1: "machine_nodes s1 = machine_nodes s" by (simp add: machine_nodes_def)
  have step: "vms (snd (m t)) = vms t \<Longrightarrow> machine_nodes (snd (m t)) = machine_nodes t" for m and t :: "'a del_db_scheme"
    by (simp add: machine_nodes_def)
  have "machine_nodes (snd (remove_found d i v s1)) = machine_nodes s1" for v
    unfolding remove_found_def by (intro bind_blind step delete_record_nodes; simp)
  then show ?thesis unfolding del_execute_run [OF get] using s1
    by (simp add: completeIfRecordMissing_def throw_db_def machine_nodes_def split: sum.split)
qed

text \<open>A series of attempts, each with the faults the database and the node agent show it.\<close>

definition attempts ::
  "vmDeletion \<Rightarrow> string \<Rightarrow> string \<Rightarrow> (fault list \<times> fault list) list \<Rightarrow> 'r del_db_scheme \<Rightarrow> 'r del_db_scheme" where
  "attempts d taskID vmID runs =
     fold (\<lambda>(fs, ns) s. snd (del_execute d taskID vmID (s\<lparr>faults := fs, node_faults := ns\<rparr>))) runs"

lemma attempts_keep:
  "deletable i vm s \<Longrightarrow> deletable i vm (attempts d i vm runs s) \<and> machine_nodes (attempts d i vm runs s) = machine_nodes s"
proof (induction runs arbitrary: s)
  case (Cons x runs)
  obtain fs ns where x: "x = (fs, ns)" by (cases x)
  let ?s = "s\<lparr>faults := fs, node_faults := ns\<rparr>"
  have "deletable i vm (snd (del_execute d i vm ?s))" using Cons.prems by (intro del_execute_deletable) simp
  moreover have "machine_nodes (snd (del_execute d i vm ?s)) = machine_nodes s"
    unfolding del_execute_nodes by (simp add: machine_nodes_def)
  ultimately show ?case using Cons.IH x by (simp add: attempts_def)
qed (simp add: attempts_def)

text \<open>A machine being deleted, with its domain and an address.\<close>

definition ex_deletion :: vmDeletion where
  "ex_deletion = \<lparr>d_ipam = True, d_hooks = None, vm_id_of = Some, print_payload = (\<lambda>v. v), print_result = (\<lambda>v. v)\<rparr>"

definition ex_held :: IPAddress where
  "ex_held = (ex_ip ''ip1'' ''10.0.0.2'' IPStatusAssigned)\<lparr>ip_VMID := Some ''v1'', ip_CustomerID := Some ''c1''\<rparr>"

definition ex_del_db :: del_db where
  "ex_del_db =
     \<lparr>faults = [], next_id = 0, gen_uuid = (\<lambda>n. replicate n (CHR ''a'')), clock = 1000,
      balances = Map.empty, ledger = [], vms = [ex_vm ''v1'' ''c1'' VMStatusDeleting], backend_required = True,
      billing_providers = Map.empty,
      tasks = [ex_row ''t1'' TaskStatusRunning], task_columns = tasks_migrated, stream = [],
      ip_sets = [ex_set], ip_addresses = [ex_held], ipv6_prefixes = [ex_prefix], vm_ipv6_subnets = [],
      domains = [(''n1'', ''v1'')], node_faults = [], hook_log = [],
      deleted_customers = []\<rparr>"

lemma ex_del_simps [simp]:
  "faults ex_del_db = []" "node_faults ex_del_db = []" "vms ex_del_db = [ex_vm ''v1'' ''c1'' VMStatusDeleting]"
  "tasks ex_del_db = [ex_row ''t1'' TaskStatusRunning]" "task_columns ex_del_db = tasks_migrated"
  "ip_addresses ex_del_db = [ex_held]" "backend_required ex_del_db" "d_ipam ex_deletion"
  by (simp_all add: ex_del_db_def ex_deletion_def)

lemma ex_deletable: "deletable ''t1'' ''v1'' ex_del_db" "calm ex_del_db"
proof -
  have "vms_ok ex_del_db" "ips_ok ex_del_db" "tasks_ok ex_del_db" by code_simp+
  then show "deletable ''t1'' ''v1'' ex_del_db" by (simp add: deletable_def tasks_migrated_def few_ips_def DefaultPerPage_def)
qed (simp add: calm_def)

section \<open>Properties\<close>





end
