(* ===== verification/Auth_Repo.thy ===== *)
theory Auth_Repo
  imports Table Go_Stdlib Pagination
begin

text \<open>
  The accounts: \<open>CustomerRepository\<close> and \<open>AdminRepository\<close> of \<^verbatim>\<open>repository/customer_repo.go\<close>, over
  the tables \<open>customers\<close>, \<open>admins\<close>, \<open>sessions\<close>, \<open>failed_login_attempts\<close>, \<open>password_resets\<close> and
  \<open>email_verification_tokens\<close> with the constraints of the migrations. Times are in seconds; the
  columns nothing reads (\<open>admins.updated_at\<close>, the ids of the failed attempts) are left out, and an
  address of type INET is the text it was written with.
\<close>

section \<open>Data\<close>

definition CustomerStatusActive :: string where "CustomerStatusActive = ''active''"
definition CustomerStatusPendingVerification :: string where "CustomerStatusPendingVerification = ''pending_verification''"
definition CustomerStatusSuspended :: string where "CustomerStatusSuspended = ''suspended''"
definition CustomerStatusDeleted :: string where "CustomerStatusDeleted = ''deleted''"

lemmas customer_status_defs = CustomerStatusActive_def CustomerStatusPendingVerification_def
  CustomerStatusSuspended_def CustomerStatusDeleted_def

record Customer =
  c_ID :: string
  c_Email :: string
  c_PasswordHash :: "string option"
  c_Name :: string
  c_Phone :: "string option"
  c_ExternalClientID :: "int option"
  c_BillingProvider :: "string option"
  c_AuthProvider :: string
  c_TOTPSecretEncrypted :: "string option"
  c_TOTPEnabled :: bool
  c_TOTPBackupCodesHash :: "string list"
  c_TOTPBackupCodesShown :: bool
  c_Status :: string
  c_CreatedAt :: int
  c_UpdatedAt :: int

record Admin =
  a_ID :: string
  a_Email :: string
  a_PasswordHash :: string
  a_Name :: string
  a_TOTPSecretEncrypted :: string
  a_TOTPEnabled :: bool
  a_TOTPBackupCodesHash :: "string list"
  a_Role :: string
  a_MaxSessions :: int
  a_Permissions :: "string list"
  a_CreatedAt :: int

record Session =
  se_ID :: string
  se_UserID :: string
  se_UserType :: string
  se_RefreshTokenHash :: string
  se_IPAddress :: "string option"
  se_UserAgent :: "string option"
  se_ExpiresAt :: int
  se_LastReauthAt :: "int option"
  se_CreatedAt :: int

record PasswordReset =
  pr_ID :: string
  pr_UserID :: string
  pr_UserType :: string
  pr_TokenHash :: string
  pr_ExpiresAt :: int
  pr_UsedAt :: "int option"
  pr_CreatedAt :: int

text \<open>The row has two more columns, the typed owners of migration 47.\<close>

record password_reset_row = PasswordReset +
  pr_customer_id :: "string option"
  pr_admin_id :: "string option"

record EmailVerificationToken =
  ev_ID :: string
  ev_CustomerID :: string
  ev_TokenHash :: string
  ev_ExpiresAt :: int
  ev_CreatedAt :: int

record auth_db = db_env +
  customers :: "Customer list"
  admins :: "Admin list"
  sessions :: "Session list"
  failed_logins :: "(string \<times> int) list"
  resets :: "password_reset_row list"
  email_tokens :: "EmailVerificationToken list"
  valid_inet :: "string \<Rightarrow> bool"

section \<open>Constraints\<close>

definition customer_statuses :: "string list" where
  "customer_statuses = [CustomerStatusActive, CustomerStatusPendingVerification, CustomerStatusSuspended,
     CustomerStatusDeleted]"

definition customer_row_ok :: "Customer \<Rightarrow> bool" where
  "customer_row_ok c \<longleftrightarrow> c_Status c \<in> set customer_statuses \<and>
     c_AuthProvider c \<in> {''local'', ''google'', ''github''} \<and>
     (case c_BillingProvider c of None \<Rightarrow> False
      | Some p \<Rightarrow> p \<in> {''whmcs'', ''native'', ''blesta'', ''unmanaged''}) \<and>
     length (c_Email c) \<le> 254 \<and> length (c_Name c) \<le> 255 \<and>
     (case c_Phone c of None \<Rightarrow> True | Some p \<Rightarrow> length p \<le> 20)"

definition customer_violation :: "'r auth_db_scheme \<Rightarrow> Customer list \<Rightarrow> error option" where
  "customer_violation s rows =
     (if \<not> list_all customer_row_ok rows then Some ErrDB
      else if \<not> distinct (map c_ID rows) then Some (ErrUniqueViolation ''customers_pkey'')
      else if \<not> distinct (map c_Email rows) then Some (ErrUniqueViolation ''customers_email_key'')
      else None)"

definition admin_violation :: "'r auth_db_scheme \<Rightarrow> Admin list \<Rightarrow> error option" where
  "admin_violation s rows =
     (if \<not> list_all (\<lambda>a. a_Role a \<in> {''admin'', ''super_admin''}) rows then Some ErrDB
      else if \<not> distinct (map a_ID rows) then Some (ErrUniqueViolation ''admins_pkey'')
      else if \<not> distinct (map a_Email rows) then Some (ErrUniqueViolation ''admins_email_key'')
      else None)"

definition session_violation :: "'r auth_db_scheme \<Rightarrow> Session list \<Rightarrow> error option" where
  "session_violation s rows =
     (if \<not> list_all (\<lambda>r. pred_option (valid_inet s) (se_IPAddress r)) rows then Some ErrDB
      else if \<not> distinct (map se_ID rows) then Some (ErrUniqueViolation ''sessions_pkey'')
      else None)"

definition reset_violation :: "'r auth_db_scheme \<Rightarrow> password_reset_row list \<Rightarrow> error option" where
  "reset_violation s rows =
     (if \<not> list_all (\<lambda>r. length (pr_TokenHash r) = 64 \<and> pr_UserType r \<in> {''customer'', ''admin''}) rows then Some ErrDB
      else if \<not> list_all (\<lambda>r. (pr_customer_id r \<noteq> None) \<noteq> (pr_admin_id r \<noteq> None)) rows then Some ErrDB
      else if \<not> distinct (map pr_ID rows) then Some (ErrUniqueViolation ''password_resets_pkey'')
      else None)"

definition email_violation :: "'r auth_db_scheme \<Rightarrow> EmailVerificationToken list \<Rightarrow> error option" where
  "email_violation s rows =
     (if \<not> list_all (\<lambda>r. ev_CustomerID r \<in> c_ID ` set (customers s) \<and> length (ev_TokenHash r) \<le> 128) rows then Some ErrDB
      else if \<not> distinct (map ev_ID rows) then Some (ErrUniqueViolation ''email_verification_tokens_pkey'')
      else None)"

definition failed_violation :: "'r auth_db_scheme \<Rightarrow> (string \<times> int) list \<Rightarrow> error option" where
  "failed_violation s rows = (if \<not> list_all (\<lambda>r. length (fst r) \<le> 255) rows then Some ErrDB else None)"

definition put_customers :: "Customer list \<Rightarrow> 'r auth_db_scheme \<Rightarrow> 'r auth_db_scheme" where
  "put_customers rows s = s\<lparr>customers := rows\<rparr>"
definition put_admins :: "Admin list \<Rightarrow> 'r auth_db_scheme \<Rightarrow> 'r auth_db_scheme" where
  "put_admins rows s = s\<lparr>admins := rows\<rparr>"
definition put_sessions :: "Session list \<Rightarrow> 'r auth_db_scheme \<Rightarrow> 'r auth_db_scheme" where
  "put_sessions rows s = s\<lparr>sessions := rows\<rparr>"
definition put_failed :: "(string \<times> int) list \<Rightarrow> 'r auth_db_scheme \<Rightarrow> 'r auth_db_scheme" where
  "put_failed rows s = s\<lparr>failed_logins := rows\<rparr>"
definition put_resets :: "password_reset_row list \<Rightarrow> 'r auth_db_scheme \<Rightarrow> 'r auth_db_scheme" where
  "put_resets rows s = s\<lparr>resets := rows\<rparr>"
definition put_emails :: "EmailVerificationToken list \<Rightarrow> 'r auth_db_scheme \<Rightarrow> 'r auth_db_scheme" where
  "put_emails rows s = s\<lparr>email_tokens := rows\<rparr>"

abbreviation update_customers where
  "update_customers \<equiv> table_update customers put_customers customer_violation"
abbreviation update_admins where
  "update_admins \<equiv> table_update admins put_admins admin_violation"
abbreviation delete_sessions where
  "delete_sessions \<equiv> table_delete sessions put_sessions session_violation"

section \<open>Customers\<close>

definition not_deleted :: "string \<Rightarrow> Customer \<Rightarrow> bool" where
  "not_deleted i c \<longleftrightarrow> c_ID c = i \<and> c_Status c \<noteq> CustomerStatusDeleted"

definition customer_row :: "Customer \<Rightarrow> string \<Rightarrow> int \<Rightarrow> Customer" where
  "customer_row customer i now =
     \<lparr>c_ID = i, c_Email = c_Email customer, c_PasswordHash = c_PasswordHash customer, c_Name = c_Name customer,
      c_Phone = None, c_ExternalClientID = c_ExternalClientID customer,
      c_BillingProvider = c_BillingProvider customer, c_AuthProvider = c_AuthProvider customer,
      c_TOTPSecretEncrypted = c_TOTPSecretEncrypted customer, c_TOTPEnabled = c_TOTPEnabled customer,
      c_TOTPBackupCodesHash = c_TOTPBackupCodesHash customer, c_TOTPBackupCodesShown = False,
      c_Status = c_Status customer, c_CreatedAt = now, c_UpdatedAt = now\<rparr>"

definition customer_Create :: "Customer \<Rightarrow> ('r auth_db_scheme, Customer) db_op" where
  "customer_Create customer =
     with_uuid (\<lambda>i. table_insert customers put_customers customer_violation (customer_row customer i))"

definition customer_GetByID :: "string \<Rightarrow> ('r auth_db_scheme, Customer) db_op" where
  "customer_GetByID i = table_find customers (not_deleted i)"

definition customer_GetByEmail :: "string \<Rightarrow> ('r auth_db_scheme, Customer) db_op" where
  "customer_GetByEmail email = table_find customers (\<lambda>c. c_Email c = email \<and> c_Status c \<noteq> CustomerStatusDeleted)"

record CustomerListFilter =
  cf_Status :: "string option"
  cf_Search :: "string option"
  cf_PerPage :: nat
  cf_LastID :: string

definition customer_where :: "CustomerListFilter \<Rightarrow> Customer \<Rightarrow> bool" where
  "customer_where filt c \<longleftrightarrow> c_Status c \<noteq> CustomerStatusDeleted \<and>
     (case cf_Status filt of None \<Rightarrow> True | Some st \<Rightarrow> c_Status c = st) \<and>
     (case cf_Search filt of None \<Rightarrow> True
      | Some q \<Rightarrow> ilike (''%'' @ q @ ''%'') (c_Email c) \<or> ilike (''%'' @ q @ ''%'') (c_Name c)) \<and>
     (cf_LastID filt \<noteq> '''' \<longrightarrow> c_ID c < cf_LastID filt)"

definition first_page :: "('a \<Rightarrow> string) \<Rightarrow> nat \<Rightarrow> 'a list \<Rightarrow> 'a list \<times> bool \<times> string" where
  "first_page idFunc perPage rows =
     (let hasMore = length rows > perPage; page = (if hasMore then take perPage rows else rows)
      in (page, hasMore, if page = [] then '''' else idFunc (last page)))"

definition customer_List :: "CustomerListFilter \<Rightarrow> ('r auth_db_scheme, Customer list \<times> bool \<times> string) db_op" where
  "customer_List filt =
     bind_db (table_select customers (\<lambda>_ rows.
         take (cf_PerPage filt + 1) (id_desc c_ID (filter (customer_where filt) rows))))
       (\<lambda>rows. return_db (first_page c_ID (cf_PerPage filt) rows))"

definition customer_UpdateStatus :: "string \<Rightarrow> string \<Rightarrow> ('r auth_db_scheme, unit) db_op" where
  "customer_UpdateStatus i status =
     require_affected ErrNoRowsAffected
       (update_customers (not_deleted i) (\<lambda>now c. c\<lparr>c_Status := status, c_UpdatedAt := now\<rparr>))"

definition UpdateExternalClientID :: "string \<Rightarrow> int \<Rightarrow> ('r auth_db_scheme, unit) db_op" where
  "UpdateExternalClientID i externalClientID =
     require_affected ErrConflict
       (update_customers (\<lambda>c. not_deleted i c \<and> c_ExternalClientID c \<in> {None, Some externalClientID})
          (\<lambda>now c. c\<lparr>c_ExternalClientID := Some externalClientID, c_UpdatedAt := now\<rparr>))"

definition UpdateBillingProvider :: "string \<Rightarrow> string \<Rightarrow> ('r auth_db_scheme, unit) db_op" where
  "UpdateBillingProvider i provider =
     require_affected ErrNoRowsAffected
       (update_customers (not_deleted i) (\<lambda>now c. c\<lparr>c_BillingProvider := Some provider, c_UpdatedAt := now\<rparr>))"

definition customer_SoftDelete :: "string \<Rightarrow> ('r auth_db_scheme, unit) db_op" where
  "customer_SoftDelete i =
     require_affected ErrNoRowsAffected
       (update_customers (not_deleted i) (\<lambda>now c. c\<lparr>c_Status := CustomerStatusDeleted, c_UpdatedAt := now\<rparr>))"

definition CreateEmailVerificationToken ::
  "EmailVerificationToken \<Rightarrow> ('r auth_db_scheme, EmailVerificationToken) db_op" where
  "CreateEmailVerificationToken token =
     with_uuid (\<lambda>i. table_insert email_tokens put_emails email_violation
       (\<lambda>now. token\<lparr>ev_ID := i, ev_CreatedAt := now\<rparr>))"

definition GetEmailVerificationTokenByHash :: "string \<Rightarrow> ('r auth_db_scheme, EmailVerificationToken) db_op" where
  "GetEmailVerificationTokenByHash tokenHash = table_find email_tokens (\<lambda>t. ev_TokenHash t = tokenHash)"

definition DeleteEmailVerificationTokenByID :: "string \<Rightarrow> ('r auth_db_scheme, unit) db_op" where
  "DeleteEmailVerificationTokenByID i =
     require_affected ErrNoRowsAffected (table_delete email_tokens put_emails email_violation (\<lambda>t. ev_ID t = i))"

section \<open>Profiles\<close>

definition is_letter :: "char \<Rightarrow> bool" where
  "is_letter c \<longleftrightarrow> (CHR ''a'' \<le> c \<and> c \<le> CHR ''z'') \<or> (CHR ''A'' \<le> c \<and> c \<le> CHR ''Z'')"

text \<open>\<^verbatim>\<open>^[a-zA-Z0-9._%+-]+@[a-zA-Z0-9.-]+\.[a-zA-Z]{2,}$\<close>: the part after the at sign ends in a dot and at
  least two letters.\<close>

definition emailRegex :: "string \<Rightarrow> bool" where
  "emailRegex s =
     (case SplitN2 (CHR ''@'') s of
        (_, None) \<Rightarrow> False
      | (loc, Some domain) \<Rightarrow>
          loc \<noteq> [] \<and> list_all (\<lambda>c. is_letter c \<or> is_digit c \<or> c \<in> set ''._%+-'') loc \<and>
          list_ex (\<lambda>n. domain ! n = CHR ''.'' \<and>
             list_all (\<lambda>c. is_letter c \<or> is_digit c \<or> c \<in> set ''.-'') (take n domain) \<and>
             list_all is_letter (drop (Suc n) domain) \<and> 2 \<le> length (drop (Suc n) domain))
            [1..<length domain])"

text \<open>\<^verbatim>\<open>^\+?[0-9\s\-\(\)]{1,20}$\<close>\<close>

definition phoneRegex :: "string \<Rightarrow> bool" where
  "phoneRegex s =
     (let body = (case s of CHR ''+'' # rest \<Rightarrow> rest | _ \<Rightarrow> s)
      in 1 \<le> length body \<and> length body \<le> 20 \<and>
         list_all (\<lambda>c. is_digit c \<or> c \<in> {CHR 0x09, CHR 0x0A, CHR 0x0C, CHR 0x0D, CHR '' '', CHR ''-'', CHR ''('', CHR '')''}) body)"

text \<open>The checks of \<open>Update\<close>, then its statement, which runs in the transaction of \<open>UpdateProfile\<close>.\<close>

definition validate_customer :: "Customer \<Rightarrow> error option" where
  "validate_customer customer =
     (if TrimSpace (c_Name customer) = '''' then Some (ErrValidation ''name'' ''name cannot be empty'')
      else if length (c_Name customer) > 255 then Some (ErrValidation ''name'' ''name cannot exceed 255 characters'')
      else if TrimSpace (c_Email customer) = '''' then Some (ErrValidation ''email'' ''email cannot be empty'')
      else if length (c_Email customer) > 254 then Some (ErrValidation ''email'' ''email cannot exceed 254 characters'')
      else if \<not> emailRegex (c_Email customer) then Some (ErrValidation ''email'' ''invalid email format'')
      else None)"

definition profile_row :: "Customer \<Rightarrow> int \<Rightarrow> Customer \<Rightarrow> Customer" where
  "profile_row customer now c =
     c\<lparr>c_Name := c_Name customer, c_Email := c_Email customer, c_Phone := c_Phone customer, c_UpdatedAt := now\<rparr>"

definition customer_Update :: "Customer \<Rightarrow> ('r auth_db_scheme, Customer) db_op" where
  "customer_Update customer =
     (case validate_customer customer of
        Some e \<Rightarrow> throw_db e
      | None \<Rightarrow> tx_stmt (\<lambda>s.
          case find (not_deleted (c_ID customer)) (customers s) of
            None \<Rightarrow> (Inl ErrNotFound, s)
          | Some c \<Rightarrow> table_write put_customers customer_violation
              (updated_rows (not_deleted (c_ID customer)) (profile_row customer) (clock s) (customers s))
              (profile_row customer (clock s) c) s))"

record ProfileUpdateParams =
  pp_Name :: "string option"
  pp_Email :: "string option"
  pp_Phone :: "string option"

definition validateProfileName :: "string option \<Rightarrow> error + string" where
  "validateProfileName name =
     (case name of
        None \<Rightarrow> Inr ''''
      | Some n \<Rightarrow>
          let trimmed = TrimSpace n in
          if trimmed = '''' then Inl (ErrValidation ''name'' ''name cannot be empty'')
          else if length trimmed > 100 then Inl (ErrValidation ''name'' ''name cannot exceed 100 characters'')
          else Inr trimmed)"

definition validateProfileEmail :: "string option \<Rightarrow> error + string" where
  "validateProfileEmail email =
     (case email of
        None \<Rightarrow> Inr ''''
      | Some e \<Rightarrow>
          let trimmed = TrimSpace e in
          if trimmed = '''' then Inl (ErrValidation ''email'' ''email cannot be empty'')
          else if length trimmed > 254 then Inl (ErrValidation ''email'' ''email cannot exceed 254 characters'')
          else if \<not> emailRegex trimmed then Inl (ErrValidation ''email'' ''invalid email format'')
          else Inr trimmed)"

definition validateProfilePhone :: "string option \<Rightarrow> error + string option" where
  "validateProfilePhone phone =
     (case phone of
        None \<Rightarrow> Inr None
      | Some p \<Rightarrow>
          let trimmed = TrimSpace p in
          if trimmed = '''' then Inr None
          else if length trimmed > 20 then Inl (ErrValidation ''phone'' ''phone cannot exceed 20 characters'')
          else if \<not> phoneRegex trimmed then Inl (ErrValidation ''phone'' ''invalid phone format'')
          else Inr (Some trimmed))"

text \<open>The fields that are present, in the order name, email, phone.\<close>

definition apply_profile :: "ProfileUpdateParams \<Rightarrow> Customer \<Rightarrow> error + Customer" where
  "apply_profile params existing =
     (case (if pp_Name params = None then Inr (c_Name existing) else validateProfileName (pp_Name params)) of
        Inl e \<Rightarrow> Inl e
      | Inr name \<Rightarrow>
      case (if pp_Email params = None then Inr (c_Email existing) else validateProfileEmail (pp_Email params)) of
        Inl e \<Rightarrow> Inl e
      | Inr email \<Rightarrow>
      case (if pp_Phone params = None then Inr (c_Phone existing) else validateProfilePhone (pp_Phone params)) of
        Inl e \<Rightarrow> Inl e
      | Inr phone \<Rightarrow> Inr (existing\<lparr>c_Name := name, c_Email := email, c_Phone := phone\<rparr>))"

definition UpdateProfile :: "string \<Rightarrow> ProfileUpdateParams \<Rightarrow> ('r auth_db_scheme, Customer) db_op" where
  "UpdateProfile customerID params =
     transaction
       (bind_db (tx_stmt (\<lambda>s. case find (not_deleted customerID) (customers s) of
            None \<Rightarrow> (Inl ErrNotFound, s) | Some c \<Rightarrow> (Inr c, s))) (\<lambda>existing.
        bind_db (lift_db (apply_profile params existing)) (\<lambda>changed.
        bind_db (customer_Update changed) (\<lambda>updated. return_db (Commit updated)))))"

section \<open>Sessions\<close>

definition session_row :: "Session \<Rightarrow> int \<Rightarrow> Session" where
  "session_row session now = session\<lparr>se_LastReauthAt := None, se_CreatedAt := now\<rparr>"

definition CreateSession :: "Session \<Rightarrow> ('r auth_db_scheme, unit) db_op" where
  "CreateSession session =
     bind_db (table_insert sessions put_sessions session_violation (session_row session)) (\<lambda>_. return_db ())"

definition RotateSession :: "string \<Rightarrow> Session \<Rightarrow> ('r auth_db_scheme, unit) db_op" where
  "RotateSession oldSessionID newSession =
     transaction
       (bind_db (tx_stmt (\<lambda>s. table_write put_sessions session_violation
            (filter (\<lambda>r. se_ID r \<noteq> oldSessionID) (sessions s))
            (length (filter (\<lambda>r. se_ID r = oldSessionID) (sessions s))) s)) (\<lambda>n.
        if n \<noteq> 1 then throw_db ErrNoRowsAffected
        else bind_db (tx_stmt (\<lambda>s. table_write put_sessions session_violation
               (sessions s @ [session_row newSession (clock s)]) () s))
               (\<lambda>_. return_db (Commit ()))))"

definition GetSession :: "string \<Rightarrow> ('r auth_db_scheme, Session) db_op" where
  "GetSession i = table_find sessions (\<lambda>r. se_ID r = i)"

definition GetSessionByRefreshToken :: "string \<Rightarrow> ('r auth_db_scheme, Session) db_op" where
  "GetSessionByRefreshToken refreshTokenHash = table_find sessions (\<lambda>r. se_RefreshTokenHash r = refreshTokenHash)"

definition DeleteSession :: "string \<Rightarrow> ('r auth_db_scheme, unit) db_op" where
  "DeleteSession i = require_affected ErrNoRowsAffected (delete_sessions (\<lambda>r. se_ID r = i))"

text \<open>\<open>NOW()\<close> is the clock at the statement.\<close>

definition DeleteExpiredSessions :: "('r auth_db_scheme, unit) db_op" where
  "DeleteExpiredSessions s = bind_db (delete_sessions (\<lambda>r. se_ExpiresAt r < clock s)) (\<lambda>_. return_db ()) s"

definition DeleteSessionsByUser :: "string \<Rightarrow> string \<Rightarrow> ('r auth_db_scheme, unit) db_op" where
  "DeleteSessionsByUser userID userType =
     bind_db (delete_sessions (\<lambda>r. se_UserID r = userID \<and> se_UserType r = userType)) (\<lambda>_. return_db ())"

definition CountSessionsByUser :: "string \<Rightarrow> string \<Rightarrow> ('r auth_db_scheme, nat) db_op" where
  "CountSessionsByUser userID userType =
     table_select sessions (\<lambda>now rows.
       length (filter (\<lambda>r. se_UserID r = userID \<and> se_UserType r = userType \<and> se_ExpiresAt r > now) rows))"

definition oldest_session :: "string \<Rightarrow> string \<Rightarrow> Session list \<Rightarrow> Session option" where
  "oldest_session userID userType rows =
     (case sort_key se_CreatedAt (filter (\<lambda>r. se_UserID r = userID \<and> se_UserType r = userType) rows) of
        [] \<Rightarrow> None | r # _ \<Rightarrow> Some r)"

definition DeleteOldestSession :: "string \<Rightarrow> string \<Rightarrow> ('r auth_db_scheme, unit) db_op" where
  "DeleteOldestSession userID userType =
     auto_stmt (\<lambda>s. table_write put_sessions session_violation
       (case oldest_session userID userType (sessions s) of
          None \<Rightarrow> sessions s
        | Some old \<Rightarrow> filter (\<lambda>r. se_ID r \<noteq> se_ID old) (sessions s)) () s)"

definition GetSessionLastReauthAt :: "string \<Rightarrow> ('r auth_db_scheme, int option) db_op" where
  "GetSessionLastReauthAt sessionID = bind_db (GetSession sessionID) (\<lambda>r. return_db (se_LastReauthAt r))"

definition UpdateSessionLastReauthAt :: "string \<Rightarrow> int \<Rightarrow> ('r auth_db_scheme, unit) db_op" where
  "UpdateSessionLastReauthAt sessionID timestamp =
     require_affected ErrNoRowsAffected
       (table_update sessions put_sessions session_violation (\<lambda>r. se_ID r = sessionID)
          (\<lambda>_ r. r\<lparr>se_LastReauthAt := Some timestamp\<rparr>))"

section \<open>Failed logins\<close>

definition RecordFailedLogin :: "string \<Rightarrow> ('r auth_db_scheme, unit) db_op" where
  "RecordFailedLogin email =
     bind_db (table_insert failed_logins put_failed failed_violation (\<lambda>now. (email, now))) (\<lambda>_. return_db ())"

definition GetFailedLoginCount :: "string \<Rightarrow> int \<Rightarrow> ('r auth_db_scheme, nat) db_op" where
  "GetFailedLoginCount email window =
     table_select failed_logins (\<lambda>now rows. length (filter (\<lambda>r. fst r = email \<and> snd r > now - window) rows))"

definition ClearFailedLogins :: "string \<Rightarrow> ('r auth_db_scheme, unit) db_op" where
  "ClearFailedLogins email =
     bind_db (table_delete failed_logins put_failed failed_violation (\<lambda>r. fst r = email)) (\<lambda>_. return_db ())"

section \<open>Passwords and second factors\<close>

definition reset_of :: "PasswordReset \<Rightarrow> string \<Rightarrow> int \<Rightarrow> password_reset_row" where
  "reset_of reset i now =
     \<lparr>pr_ID = i, pr_UserID = pr_UserID reset, pr_UserType = pr_UserType reset, pr_TokenHash = pr_TokenHash reset,
      pr_ExpiresAt = pr_ExpiresAt reset, pr_UsedAt = None, pr_CreatedAt = now,
      pr_customer_id = None, pr_admin_id = None\<rparr>"

definition CreatePasswordReset :: "PasswordReset \<Rightarrow> ('r auth_db_scheme, unit) db_op" where
  "CreatePasswordReset reset =
     bind_db (with_uuid (\<lambda>i. table_insert resets put_resets reset_violation (reset_of reset i))) (\<lambda>_. return_db ())"

definition GetPasswordResetByTokenHash :: "string \<Rightarrow> ('r auth_db_scheme, PasswordReset) db_op" where
  "GetPasswordResetByTokenHash tokenHash =
     bind_db (table_find resets (\<lambda>r. pr_TokenHash r = tokenHash)) (\<lambda>r. return_db (PasswordReset.truncate r))"

definition MarkPasswordResetUsed :: "string \<Rightarrow> ('r auth_db_scheme, unit) db_op" where
  "MarkPasswordResetUsed i =
     require_affected ErrNoRowsAffected
       (table_update resets put_resets reset_violation (\<lambda>r. pr_ID r = i) (\<lambda>now r. r\<lparr>pr_UsedAt := Some now\<rparr>))"

definition DeleteExpiredPasswordResets :: "('r auth_db_scheme, unit) db_op" where
  "DeleteExpiredPasswordResets s =
     bind_db (table_delete resets put_resets reset_violation (\<lambda>r. pr_ExpiresAt r < clock s)) (\<lambda>_. return_db ()) s"

definition UpdateCustomerPasswordHash :: "string \<Rightarrow> string \<Rightarrow> ('r auth_db_scheme, unit) db_op" where
  "UpdateCustomerPasswordHash i passwordHash =
     require_affected ErrNoRowsAffected
       (update_customers (not_deleted i) (\<lambda>now c. c\<lparr>c_PasswordHash := Some passwordHash, c_UpdatedAt := now\<rparr>))"

definition UpdateBackupCodes :: "string \<Rightarrow> string list \<Rightarrow> ('r auth_db_scheme, unit) db_op" where
  "UpdateBackupCodes userID codes =
     require_affected ErrNoRowsAffected
       (update_customers (\<lambda>c. c_ID c = userID) (\<lambda>now c. c\<lparr>c_TOTPBackupCodesHash := codes, c_UpdatedAt := now\<rparr>))"

definition UpdateTOTPEnabled ::
  "string \<Rightarrow> bool \<Rightarrow> string option \<Rightarrow> string list \<Rightarrow> ('r auth_db_scheme, unit) db_op" where
  "UpdateTOTPEnabled i enabled secretEncrypted backupCodesHash =
     require_affected ErrNoRowsAffected
       (update_customers (not_deleted i) (\<lambda>now c. c\<lparr>c_TOTPEnabled := enabled, c_TOTPSecretEncrypted := secretEncrypted,
          c_TOTPBackupCodesHash := backupCodesHash, c_TOTPBackupCodesShown := False, c_UpdatedAt := now\<rparr>))"

definition UpdateBackupCodesShown :: "string \<Rightarrow> bool \<Rightarrow> ('r auth_db_scheme, unit) db_op" where
  "UpdateBackupCodesShown i shown =
     require_affected ErrNoRowsAffected
       (update_customers (not_deleted i) (\<lambda>now c. c\<lparr>c_TOTPBackupCodesShown := shown, c_UpdatedAt := now\<rparr>))"

definition UpdateBackupCodesWithShown :: "string \<Rightarrow> string list \<Rightarrow> ('r auth_db_scheme, unit) db_op" where
  "UpdateBackupCodesWithShown i backupCodesHash =
     require_affected ErrNoRowsAffected
       (update_customers (not_deleted i) (\<lambda>now c. c\<lparr>c_TOTPBackupCodesHash := backupCodesHash,
          c_TOTPBackupCodesShown := False, c_UpdatedAt := now\<rparr>))"

definition ListNativeBillingCustomerIDs :: "('r auth_db_scheme, string list) db_op" where
  "ListNativeBillingCustomerIDs =
     table_select customers (\<lambda>_ rows.
       sort (map c_ID (filter (\<lambda>c. c_BillingProvider c = Some ''native'' \<and> c_Status c = CustomerStatusActive) rows)))"

section \<open>Administrators\<close>

definition admin_Create :: "Admin \<Rightarrow> ('r auth_db_scheme, Admin) db_op" where
  "admin_Create admin =
     with_uuid (\<lambda>i. table_insert admins put_admins admin_violation
       (\<lambda>now. admin\<lparr>a_ID := i, a_Permissions := [], a_CreatedAt := now\<rparr>))"

definition admin_GetByID :: "string \<Rightarrow> ('r auth_db_scheme, Admin) db_op" where
  "admin_GetByID i = table_find admins (\<lambda>a. a_ID a = i)"

definition admin_GetByEmail :: "string \<Rightarrow> ('r auth_db_scheme, Admin) db_op" where
  "admin_GetByEmail email = table_find admins (\<lambda>a. a_Email a = email)"

record AdminListFilter =
  af_Role :: "string option"
  adf_PerPage :: nat
  adf_LastID :: string

definition admin_List :: "AdminListFilter \<Rightarrow> ('r auth_db_scheme, Admin list \<times> bool \<times> string) db_op" where
  "admin_List filt =
     bind_db (table_select admins (\<lambda>_ rows. take (adf_PerPage filt + 1) (id_desc a_ID
         (filter (\<lambda>a. (case af_Role filt of None \<Rightarrow> True | Some r \<Rightarrow> a_Role a = r) \<and>
            (adf_LastID filt \<noteq> '''' \<longrightarrow> a_ID a < adf_LastID filt)) rows))))
       (\<lambda>rows. return_db (first_page a_ID (adf_PerPage filt) rows))"

definition set_admin :: "string \<Rightarrow> (Admin \<Rightarrow> Admin) \<Rightarrow> ('r auth_db_scheme, unit) db_op" where
  "set_admin i f = require_affected ErrNoRowsAffected (update_admins (\<lambda>a. a_ID a = i) (\<lambda>_. f))"

definition admin_UpdateTOTPEnabled :: "string \<Rightarrow> bool \<Rightarrow> string \<Rightarrow> string list \<Rightarrow> ('r auth_db_scheme, unit) db_op" where
  "admin_UpdateTOTPEnabled i enabled secretEncrypted backupCodesHash =
     set_admin i (\<lambda>a. a\<lparr>a_TOTPEnabled := enabled, a_TOTPSecretEncrypted := secretEncrypted,
       a_TOTPBackupCodesHash := backupCodesHash\<rparr>)"

definition UpdatePasswordHash :: "string \<Rightarrow> string \<Rightarrow> ('r auth_db_scheme, unit) db_op" where
  "UpdatePasswordHash i passwordHash = set_admin i (a_PasswordHash_update (\<lambda>_. passwordHash))"

definition admin_UpdateBackupCodes :: "string \<Rightarrow> string list \<Rightarrow> ('r auth_db_scheme, unit) db_op" where
  "admin_UpdateBackupCodes userID codes = set_admin userID (a_TOTPBackupCodesHash_update (\<lambda>_. codes))"

definition UpdatePermissions :: "string \<Rightarrow> string list \<Rightarrow> ('r auth_db_scheme, unit) db_op" where
  "UpdatePermissions i permissions = set_admin i (a_Permissions_update (\<lambda>_. permissions))"

section \<open>The tables as instances of the interface\<close>

lemma auth_violation_cong:
  "customer_violation s = customer_violation t" "admin_violation s = admin_violation t"
  "reset_violation s = reset_violation t" "failed_violation s = failed_violation t"
  by (simp_all add: customer_violation_def admin_violation_def reset_violation_def failed_violation_def fun_eq_iff)

interpretation cut: table "customers :: 'r auth_db_scheme \<Rightarrow> Customer list" put_customers customer_violation
proof
  fix rows and s :: "'r auth_db_scheme"
  show "customer_violation (put_customers rows s) = customer_violation s" "customer_violation (tables s) = customer_violation s"
    by (rule auth_violation_cong)+
qed (simp_all add: put_customers_def tables_def)

interpretation adt: table "admins :: 'r auth_db_scheme \<Rightarrow> Admin list" put_admins admin_violation
proof
  fix rows and s :: "'r auth_db_scheme"
  show "admin_violation (put_admins rows s) = admin_violation s" "admin_violation (tables s) = admin_violation s"
    by (rule auth_violation_cong)+
qed (simp_all add: put_admins_def tables_def)

interpretation st: table "sessions :: 'r auth_db_scheme \<Rightarrow> Session list" put_sessions session_violation
  by unfold_locales (simp_all add: put_sessions_def tables_def session_violation_def fun_eq_iff)

interpretation ft: table "failed_logins :: 'r auth_db_scheme \<Rightarrow> (string \<times> int) list" put_failed failed_violation
proof
  fix rows and s :: "'r auth_db_scheme"
  show "failed_violation (put_failed rows s) = failed_violation s" "failed_violation (tables s) = failed_violation s"
    by (rule auth_violation_cong)+
qed (simp_all add: put_failed_def tables_def)

interpretation rst: table "resets :: 'r auth_db_scheme \<Rightarrow> password_reset_row list" put_resets reset_violation
proof
  fix rows and s :: "'r auth_db_scheme"
  show "reset_violation (put_resets rows s) = reset_violation s" "reset_violation (tables s) = reset_violation s"
    by (rule auth_violation_cong)+
qed (simp_all add: put_resets_def tables_def)

interpretation evt: table "email_tokens :: 'r auth_db_scheme \<Rightarrow> EmailVerificationToken list" put_emails email_violation
  by unfold_locales (simp_all add: put_emails_def tables_def email_violation_def fun_eq_iff)

end
