(* ===== verification/Auth_Tokens.thy ===== *)
theory Auth_Tokens
  imports Auth_Repo
begin

text \<open>
  Tokens and request authentication, \<^verbatim>\<open>api/middleware/auth.go\<close>: JSON web tokens with a purpose, the
  middleware that turns a request into a principal, and the checks of roles, permissions and machine
  scopes. The JWT library is a parameter: signing claims, and checking the signature of a token; the
  checks of the registered claims it documents (issuer, expiry, not-before) are written out. A draw of
  an identifier or of random bytes takes the next position of the source \<open>next_id\<close>.
\<close>

section \<open>Tokens\<close>

record AuthConfig =
  JWTSecret :: string
  cfg_Issuer :: string

record JWTClaims =
  cl_UserID :: string
  cl_UserType :: string
  cl_Role :: string
  cl_Purpose :: string
  cl_Issuer :: string
  cl_IssuedAt :: int
  cl_NotBefore :: "int option"
  cl_ExpiresAt :: "int option"
  cl_ID :: string

record jwt_lib =
  jwt_sign :: "string \<Rightarrow> JWTClaims \<Rightarrow> error + string"
  jwt_verify :: "string \<Rightarrow> string \<Rightarrow> JWTClaims option"

definition tempTokenPurposeValue :: string where "tempTokenPurposeValue = ''2fa''"
definition tempTokenDuration :: int where "tempTokenDuration = 5 * 60"
definition reauthTokenPurposeValue :: string where "reauthTokenPurposeValue = ''reauth''"
definition ReauthTokenDuration :: int where "ReauthTokenDuration = 15 * 60"

definition draw :: "(nat \<Rightarrow> error + 'a) \<Rightarrow> ('r db_env_scheme, 'a) db_op" where
  "draw source s = (source (next_id s), s\<lparr>next_id := Suc (next_id s)\<rparr>)"

definition new_uuid :: "('r db_env_scheme, string) db_op" where
  "new_uuid s = draw (\<lambda>n. Inr (gen_uuid s n)) s"

definition sign_claims :: "jwt_lib \<Rightarrow> AuthConfig \<Rightarrow> (int \<Rightarrow> string \<Rightarrow> JWTClaims) \<Rightarrow> ('r db_env_scheme, string) db_op" where
  "sign_claims jwt config mk =
     bind_db new_uuid (\<lambda>i s. (jwt_sign jwt (JWTSecret config) (mk (clock s) i), s))"

definition GenerateAccessToken ::
  "jwt_lib \<Rightarrow> AuthConfig \<Rightarrow> string \<Rightarrow> string \<Rightarrow> string \<Rightarrow> int \<Rightarrow> ('r db_env_scheme, string) db_op" where
  "GenerateAccessToken jwt config userID userType role duration =
     sign_claims jwt config (\<lambda>now i.
       \<lparr>cl_UserID = userID, cl_UserType = userType, cl_Role = role, cl_Purpose = '''', cl_Issuer = cfg_Issuer config,
        cl_IssuedAt = now, cl_NotBefore = Some now, cl_ExpiresAt = Some (now + duration), cl_ID = i\<rparr>)"

definition GenerateTempToken :: "jwt_lib \<Rightarrow> AuthConfig \<Rightarrow> string \<Rightarrow> string \<Rightarrow> ('r db_env_scheme, string) db_op" where
  "GenerateTempToken jwt config userID userType =
     sign_claims jwt config (\<lambda>now i.
       \<lparr>cl_UserID = userID, cl_UserType = userType, cl_Role = '''', cl_Purpose = tempTokenPurposeValue,
        cl_Issuer = cfg_Issuer config, cl_IssuedAt = now, cl_NotBefore = None,
        cl_ExpiresAt = Some (now + tempTokenDuration), cl_ID = i\<rparr>)"

definition GenerateReauthToken :: "jwt_lib \<Rightarrow> AuthConfig \<Rightarrow> string \<Rightarrow> string \<Rightarrow> ('r db_env_scheme, string) db_op" where
  "GenerateReauthToken jwt config userID userType =
     sign_claims jwt config (\<lambda>now i.
       \<lparr>cl_UserID = userID, cl_UserType = userType, cl_Role = '''', cl_Purpose = reauthTokenPurposeValue,
        cl_Issuer = cfg_Issuer config, cl_IssuedAt = now, cl_NotBefore = None,
        cl_ExpiresAt = Some (now + ReauthTokenDuration), cl_ID = i\<rparr>)"

definition parseAndValidateJWT :: "jwt_lib \<Rightarrow> AuthConfig \<Rightarrow> int \<Rightarrow> string \<Rightarrow> error + JWTClaims" where
  "parseAndValidateJWT jwt config now tokenString =
     (case jwt_verify jwt (JWTSecret config) tokenString of
        None \<Rightarrow> Inl (ErrMsg ''parsing jwt'')
      | Some claims \<Rightarrow>
          if cl_Issuer claims = cfg_Issuer config \<and>
             (case cl_ExpiresAt claims of None \<Rightarrow> False | Some e \<Rightarrow> now < e) \<and>
             (case cl_NotBefore claims of None \<Rightarrow> True | Some n \<Rightarrow> n \<le> now)
          then Inr claims else Inl (ErrMsg ''parsing jwt''))"

definition ValidateTempToken :: "jwt_lib \<Rightarrow> AuthConfig \<Rightarrow> int \<Rightarrow> string \<Rightarrow> error + JWTClaims" where
  "ValidateTempToken jwt config now tokenString =
     (case parseAndValidateJWT jwt config now tokenString of
        Inl e \<Rightarrow> Inl e
      | Inr claims \<Rightarrow>
          if cl_Purpose claims \<noteq> tempTokenPurposeValue then Inl (ErrMsg ''token is not a temp token'') else Inr claims)"

definition ValidateReauthToken :: "jwt_lib \<Rightarrow> AuthConfig \<Rightarrow> int \<Rightarrow> string \<Rightarrow> error + JWTClaims" where
  "ValidateReauthToken jwt config now tokenString =
     (case parseAndValidateJWT jwt config now tokenString of
        Inl e \<Rightarrow> Inl e
      | Inr claims \<Rightarrow>
          if cl_Purpose claims \<noteq> reauthTokenPurposeValue then Inl (ErrMsg ''token is not a reauth token'')
          else Inr claims)"

definition ValidateJWT :: "jwt_lib \<Rightarrow> AuthConfig \<Rightarrow> int \<Rightarrow> string \<Rightarrow> error + JWTClaims" where
  "ValidateJWT jwt config now tokenString = parseAndValidateJWT jwt config now tokenString"

section \<open>Requests\<close>

text \<open>What the middleware reads of a request: the access token cookie, two headers, the client's
  address and the path parameters \<open>id\<close> and \<open>vmId\<close>.\<close>

record http_request =
  hr_access_cookie :: "string option"
  hr_Authorization :: string
  hr_X_API_Key :: string
  hr_ClientIP :: string
  hr_param_id :: string
  hr_param_vmId :: string

record Principal =
  p_UserID :: string
  p_UserType :: string
  p_Role :: string
  p_ActorType :: string
  p_APIKeyID :: string
  p_Permissions :: "string list option"
  p_VMIDs :: "string list option"

text \<open>The keys of the gin context; a slice that is nil is \<open>None\<close>.\<close>

record gin_context =
  ctx_principal :: "Principal option"
  ctx_api_key_id :: string
  ctx_actor_type :: string

datatype handled = Next gin_context | Abort nat string

definition GetAccessTokenFromCookie :: "http_request \<Rightarrow> string" where
  "GetAccessTokenFromCookie c =
     (case hr_access_cookie c of
        Some (x # xs) \<Rightarrow> x # xs
      | _ \<Rightarrow>
          (case SplitN2 (CHR '' '') (hr_Authorization c) of
             (scheme, Some token) \<Rightarrow> if EqualFold scheme ''Bearer'' then token else ''''
           | (_, None) \<Rightarrow> ''''))"

definition setPrincipal :: "Principal \<Rightarrow> gin_context \<Rightarrow> gin_context" where
  "setPrincipal who c =
     c\<lparr>ctx_principal := Some who,
       ctx_api_key_id := (if p_APIKeyID who \<noteq> '''' then p_APIKeyID who else ctx_api_key_id c),
       ctx_actor_type := (if p_ActorType who \<noteq> '''' then p_ActorType who else ctx_actor_type c)\<rparr>"

definition setAuthContext :: "JWTClaims \<Rightarrow> gin_context \<Rightarrow> gin_context" where
  "setAuthContext claims =
     setPrincipal \<lparr>p_UserID = cl_UserID claims, p_UserType = cl_UserType claims, p_Role = cl_Role claims,
       p_ActorType = cl_UserType claims, p_APIKeyID = '''', p_Permissions = None, p_VMIDs = None\<rparr>"

definition JWTAuth :: "jwt_lib \<Rightarrow> AuthConfig \<Rightarrow> int \<Rightarrow> http_request \<Rightarrow> gin_context \<Rightarrow> handled" where
  "JWTAuth jwt config now req c =
     (let tokenString = GetAccessTokenFromCookie req in
      if tokenString = '''' then Abort 401 ''MISSING_TOKEN''
      else case parseAndValidateJWT jwt config now tokenString of
        Inl _ \<Rightarrow> Abort 401 ''INVALID_TOKEN''
      | Inr claims \<Rightarrow>
          if cl_Purpose claims = tempTokenPurposeValue then Abort 401 ''INVALID_TOKEN''
          else Next (setAuthContext claims c))"

definition OptionalJWTAuth :: "jwt_lib \<Rightarrow> AuthConfig \<Rightarrow> int \<Rightarrow> http_request \<Rightarrow> gin_context \<Rightarrow> handled" where
  "OptionalJWTAuth jwt config now req c =
     (let tokenString = GetAccessTokenFromCookie req in
      if tokenString = '''' then Next c
      else case parseAndValidateJWT jwt config now tokenString of
        Inl _ \<Rightarrow> Next c
      | Inr claims \<Rightarrow> Next (if cl_Purpose claims \<noteq> tempTokenPurposeValue then setAuthContext claims c else c))"

section \<open>API keys\<close>

text \<open>\<open>net.ParseIP\<close> and \<open>net.ParseCIDR\<close> with \<open>Contains\<close> are a parameter: an address as its bytes, a network
  as the addresses in it.\<close>

record net_lib =
  ParseIP :: "string \<Rightarrow> nat list option"
  ParseCIDR :: "string \<Rightarrow> (nat list \<Rightarrow> bool) option"

definition checkAllowedIP :: "net_lib \<Rightarrow> http_request \<Rightarrow> string list \<Rightarrow> bool" where
  "checkAllowedIP net req allowedIPs =
     (case ParseIP net (hr_ClientIP req) of
        None \<Rightarrow> False
      | Some clientIP \<Rightarrow>
          list_ex (\<lambda>allowed.
            if CHR ''/'' \<in> set allowed then
              (case ParseCIDR net allowed of None \<Rightarrow> False | Some network \<Rightarrow> network clientIP)
            else ParseIP net allowed = Some clientIP) allowedIPs)"

record CustomerAPIKeyInfo =
  ki_KeyID :: string
  ki_CustomerID :: string
  ki_Permissions :: "string list"
  ki_AllowedIPs :: "string list"
  ki_VMIDs :: "string list"

text \<open>\<open>append([]string(nil), xs...)\<close> copies the slice; a copy of an empty slice is nil.\<close>

definition copy_slice :: "'a list \<Rightarrow> 'a list option" where
  "copy_slice xs = (if xs = [] then None else Some xs)"

definition setCustomerAPIKeyContext :: "CustomerAPIKeyInfo \<Rightarrow> gin_context \<Rightarrow> gin_context" where
  "setCustomerAPIKeyContext info =
     setPrincipal \<lparr>p_UserID = ki_CustomerID info, p_UserType = ''customer'', p_Role = '''',
       p_ActorType = ''customer_api_key'', p_APIKeyID = ki_KeyID info,
       p_Permissions = copy_slice (ki_Permissions info), p_VMIDs = copy_slice (ki_VMIDs info)\<rparr>"

definition APIKeyAuth ::
  "net_lib \<Rightarrow> (string \<Rightarrow> string) \<Rightarrow> (string \<Rightarrow> error + string \<times> string list) \<Rightarrow> http_request \<Rightarrow> gin_context \<Rightarrow> handled" where
  "APIKeyAuth net hashAPIKey validator req c =
     (if hr_X_API_Key req = '''' then Abort 401 ''MISSING_API_KEY''
      else case validator (hashAPIKey (hr_X_API_Key req)) of
        Inl _ \<Rightarrow> Abort 401 ''INVALID_API_KEY''
      | Inr (keyID, allowedIPs) \<Rightarrow>
          if allowedIPs \<noteq> [] \<and> \<not> checkAllowedIP net req allowedIPs then Abort 403 ''IP_NOT_ALLOWED''
          else Next (c\<lparr>ctx_api_key_id := keyID, ctx_actor_type := ''provisioning''\<rparr>))"

definition accept_customer_key ::
  "net_lib \<Rightarrow> (string \<Rightarrow> error + CustomerAPIKeyInfo) \<Rightarrow> http_request \<Rightarrow> gin_context \<Rightarrow> handled" where
  "accept_customer_key net validator req c =
     (case validator (hr_X_API_Key req) of
        Inl _ \<Rightarrow> Abort 401 ''INVALID_API_KEY''
      | Inr info \<Rightarrow>
          if ki_AllowedIPs info \<noteq> [] \<and> \<not> checkAllowedIP net req (ki_AllowedIPs info) then Abort 403 ''IP_NOT_ALLOWED''
          else Next (setCustomerAPIKeyContext info c))"

definition CustomerAPIKeyAuth ::
  "net_lib \<Rightarrow> (string \<Rightarrow> error + CustomerAPIKeyInfo) \<Rightarrow> http_request \<Rightarrow> gin_context \<Rightarrow> handled" where
  "CustomerAPIKeyAuth net validator req c =
     (if hr_X_API_Key req = '''' then Abort 401 ''MISSING_API_KEY'' else accept_customer_key net validator req c)"

definition JWTOrCustomerAPIKeyAuth ::
  "jwt_lib \<Rightarrow> net_lib \<Rightarrow> AuthConfig \<Rightarrow> (string \<Rightarrow> error + CustomerAPIKeyInfo) \<Rightarrow> int \<Rightarrow> http_request \<Rightarrow> gin_context \<Rightarrow> handled" where
  "JWTOrCustomerAPIKeyAuth jwt net config validator now req c =
     (let tokenString = GetAccessTokenFromCookie req in
      if tokenString \<noteq> '''' then
        (case parseAndValidateJWT jwt config now tokenString of
           Inl _ \<Rightarrow> Abort 401 ''INVALID_TOKEN''
         | Inr claims \<Rightarrow>
             if cl_Purpose claims \<noteq> tempTokenPurposeValue then Next (setAuthContext claims c)
             else Abort 401 ''INVALID_TOKEN'')
      else if hr_X_API_Key req = '''' then Abort 401 ''MISSING_AUTH''
      else accept_customer_key net validator req c)"

section \<open>Authorisation\<close>

definition GetUserID :: "gin_context \<Rightarrow> string" where
  "GetUserID c = (case ctx_principal c of Some p \<Rightarrow> p_UserID p | None \<Rightarrow> '''')"

definition GetUserType :: "gin_context \<Rightarrow> string" where
  "GetUserType c = (case ctx_principal c of Some p \<Rightarrow> p_UserType p | None \<Rightarrow> '''')"

definition GetRole :: "gin_context \<Rightarrow> string" where
  "GetRole c = (case ctx_principal c of Some p \<Rightarrow> p_Role p | None \<Rightarrow> '''')"

definition GetPermissions :: "gin_context \<Rightarrow> string list option" where
  "GetPermissions c = (case ctx_principal c of Some p \<Rightarrow> p_Permissions p | None \<Rightarrow> None)"

definition GetVMIDs :: "gin_context \<Rightarrow> string list option" where
  "GetVMIDs c = (case ctx_principal c of Some p \<Rightarrow> p_VMIDs p | None \<Rightarrow> None)"

definition RequireRole :: "string list \<Rightarrow> gin_context \<Rightarrow> handled" where
  "RequireRole roles c = (if GetRole c \<notin> set roles then Abort 403 ''INSUFFICIENT_ROLE'' else Next c)"

definition RequireUserType :: "string list \<Rightarrow> gin_context \<Rightarrow> handled" where
  "RequireUserType userTypes c =
     (if GetUserType c \<notin> set userTypes then Abort 403 ''INSUFFICIENT_PERMISSIONS'' else Next c)"

definition IsVMAllowed :: "gin_context \<Rightarrow> string \<Rightarrow> bool" where
  "IsVMAllowed c vmID = (case GetVMIDs c of None \<Rightarrow> True | Some vmIDs \<Rightarrow> vmIDs = [] \<or> vmID \<in> set vmIDs)"

definition CheckVMScope :: "gin_context \<Rightarrow> string \<Rightarrow> handled" where
  "CheckVMScope c vmID = (if IsVMAllowed c vmID then Next c else Abort 403 ''VM_NOT_IN_SCOPE'')"

definition RequireVMScope :: "http_request \<Rightarrow> gin_context \<Rightarrow> handled" where
  "RequireVMScope req c =
     (let vmID = (if hr_param_id req = '''' then hr_param_vmId req else hr_param_id req) in
      if vmID = '''' then Next c
      else if \<not> IsVMAllowed c vmID then Abort 403 ''VM_NOT_IN_SCOPE'' else Next c)"

definition HasPermission :: "gin_context \<Rightarrow> string \<Rightarrow> bool" where
  "HasPermission c permission =
     (case GetPermissions c of
        None \<Rightarrow> ctx_actor_type c \<noteq> ''customer_api_key''
      | Some perms \<Rightarrow> permission \<in> set perms)"

definition RequirePermission :: "string \<Rightarrow> gin_context \<Rightarrow> handled" where
  "RequirePermission permission c =
     (if \<not> HasPermission c permission then Abort 403 ''INSUFFICIENT_PERMISSIONS'' else Next c)"

section \<open>What the middleware lets through\<close>

text \<open>The library checks what it signed.\<close>

definition jwt_faithful :: "jwt_lib \<Rightarrow> bool" where
  "jwt_faithful jwt \<longleftrightarrow> (\<forall>secret claims token. jwt_sign jwt secret claims = Inr token \<longrightarrow>
     jwt_verify jwt secret token = Some claims)"

lemma signed_claims:
  assumes "sign_claims jwt config mk s = (Inr token, t)" and "jwt_faithful jwt"
  obtains i where "jwt_verify jwt (JWTSecret config) token = Some (mk (clock s) i)"
  using assms by (auto simp: sign_claims_def new_uuid_def draw_def bind_db_def jwt_faithful_def)

text \<open>A challenge for the second factor is never accepted in place of an access token.\<close>

lemma temp_token_refused:
  assumes "GenerateTempToken jwt config userID userType s = (Inr token, t)" and "jwt_faithful jwt"
    and "GetAccessTokenFromCookie req = token" and "token \<noteq> ''''"
  shows "JWTAuth jwt config now req c = Abort 401 ''INVALID_TOKEN''"
    "JWTOrCustomerAPIKeyAuth jwt net config v now req c = Abort 401 ''INVALID_TOKEN''"
proof -
  obtain i where "jwt_verify jwt (JWTSecret config) token =
      Some \<lparr>cl_UserID = userID, cl_UserType = userType, cl_Role = '''', cl_Purpose = tempTokenPurposeValue,
        cl_Issuer = cfg_Issuer config, cl_IssuedAt = clock s, cl_NotBefore = None,
        cl_ExpiresAt = Some (clock s + tempTokenDuration), cl_ID = i\<rparr>"
    by (rule signed_claims [OF assms(1) [unfolded GenerateTempToken_def] assms(2)])
  then show "JWTAuth jwt config now req c = Abort 401 ''INVALID_TOKEN''"
    "JWTOrCustomerAPIKeyAuth jwt net config v now req c = Abort 401 ''INVALID_TOKEN''"
    using assms(3,4) by (auto simp: JWTAuth_def JWTOrCustomerAPIKeyAuth_def parseAndValidateJWT_def Let_def)
qed

text \<open>A token issued to confirm a destructive operation is accepted as an access token, as long as it
  lives: the middleware refuses only the purpose of the second factor.\<close>

lemma reauth_token_accepted:
  assumes "GenerateReauthToken jwt config userID userType s = (Inr token, t)" and "jwt_faithful jwt"
    and "GetAccessTokenFromCookie req = token" and "token \<noteq> ''''" and "now < clock s + ReauthTokenDuration"
  shows "\<exists>c'. JWTAuth jwt config now req c = Next c' \<and> GetUserID c' = userID \<and> GetUserType c' = userType"
proof -
  obtain i where "jwt_verify jwt (JWTSecret config) token =
      Some \<lparr>cl_UserID = userID, cl_UserType = userType, cl_Role = '''', cl_Purpose = reauthTokenPurposeValue,
        cl_Issuer = cfg_Issuer config, cl_IssuedAt = clock s, cl_NotBefore = None,
        cl_ExpiresAt = Some (clock s + ReauthTokenDuration), cl_ID = i\<rparr>"
    by (rule signed_claims [OF assms(1) [unfolded GenerateReauthToken_def] assms(2)])
  then show ?thesis
    using assms(3-5) by (simp add: JWTAuth_def parseAndValidateJWT_def Let_def tempTokenPurposeValue_def
        reauthTokenPurposeValue_def setAuthContext_def setPrincipal_def GetUserID_def GetUserType_def)
qed

text \<open>A key with a list of machines reaches those machines only, and a key has exactly the permissions
  in its list: an empty list grants nothing.\<close>

lemma key_scope:
  assumes "accept_customer_key net validator req c = Next c'"
  obtains info where "validator (hr_X_API_Key req) = Inr info" "GetUserID c' = ki_CustomerID info"
    "\<And>perm. HasPermission c' perm \<longleftrightarrow> perm \<in> set (ki_Permissions info)"
    "\<And>vm. IsVMAllowed c' vm \<longleftrightarrow> ki_VMIDs info = [] \<or> vm \<in> set (ki_VMIDs info)"
    "ki_AllowedIPs info = [] \<or> checkAllowedIP net req (ki_AllowedIPs info)"
  using assms
  by (auto simp: accept_customer_key_def setCustomerAPIKeyContext_def setPrincipal_def GetUserID_def HasPermission_def
      GetPermissions_def IsVMAllowed_def GetVMIDs_def copy_slice_def split: sum.splits if_splits)

end
