(* ===== verification/Auth_Service.thy ===== *)
theory Auth_Service
  imports Auth_Tokens
begin

text \<open>
  \<open>AuthService\<close> (\<^verbatim>\<open>services/auth_service*.go\<close>): logins with lockout, second factors and backup codes,
  sessions with rotating refresh tokens, password changes and resets. Argon2id, TOTP, AES-GCM, SHA-256
  and the random source are parameters; what a draw yields depends on its position. Errors the code
  only logs are swallowed by \<open>log_error\<close>. Log lines and the audit entry of a reset are left out.
\<close>

section \<open>Parameters and constants\<close>

record auth_lib =
  compare_hash :: "string \<Rightarrow> string \<Rightarrow> error + bool"
  create_hash :: "nat \<Rightarrow> string \<Rightarrow> error + string"
  HashSHA256 :: "string \<Rightarrow> string"
  random_token :: "nat \<Rightarrow> error + string"
  random_digits :: "nat \<Rightarrow> error + string"
  encrypt :: "nat \<Rightarrow> string \<Rightarrow> error + string"
  decrypt :: "string \<Rightarrow> error + string"
  totp_generate :: "nat \<Rightarrow> string \<Rightarrow> error + string \<times> string"
  totp_validate :: "nat \<Rightarrow> string \<Rightarrow> string \<Rightarrow> int \<Rightarrow> error + bool"
  au_jwt :: jwt_lib
  authConfig :: AuthConfig

definition AccessTokenDuration :: int where "AccessTokenDuration = 15 * 60"
definition CustomerRefreshTokenDuration :: int where "CustomerRefreshTokenDuration = 7 * 24 * 60 * 60"
definition AdminRefreshTokenDuration :: int where "AdminRefreshTokenDuration = 4 * 60 * 60"
definition PasswordResetTokenDuration :: int where "PasswordResetTokenDuration = 24 * 60 * 60"
definition MaxAdminSessions :: nat where "MaxAdminSessions = 3"
definition MaxCustomerSessions :: nat where "MaxCustomerSessions = 10"
definition MaxFailedLoginAttempts :: nat where "MaxFailedLoginAttempts = 5"
definition LockoutWindow :: int where "LockoutWindow = 15 * 60"

record AuthTokens =
  at_AccessToken :: string
  at_TokenType :: string
  at_ExpiresIn :: int
  at_Requires2FA :: bool
  at_TempToken :: string

section \<open>Sessions\<close>

definition GenerateRefreshToken :: "auth_lib \<Rightarrow> ('r db_env_scheme, string) db_op" where
  "GenerateRefreshToken lib = draw (random_token lib)"

definition access_tokens :: "string \<Rightarrow> AuthTokens" where
  "access_tokens accessToken =
     \<lparr>at_AccessToken = accessToken, at_TokenType = ''Bearer'', at_ExpiresIn = AccessTokenDuration,
      at_Requires2FA = False, at_TempToken = ''''\<rparr>"

definition new_session :: "auth_lib \<Rightarrow> string \<Rightarrow> string \<Rightarrow> string \<Rightarrow> string \<Rightarrow> string \<Rightarrow> string \<Rightarrow> int \<Rightarrow> Session" where
  "new_session lib i userID userType refreshToken ipAddress userAgent expiresAt =
     \<lparr>se_ID = i, se_UserID = userID, se_UserType = userType, se_RefreshTokenHash = HashSHA256 lib refreshToken,
      se_IPAddress = Some ipAddress, se_UserAgent = Some userAgent, se_ExpiresAt = expiresAt,
      se_LastReauthAt = None, se_CreatedAt = 0\<rparr>"

definition createLoginSession ::
  "auth_lib \<Rightarrow> string \<Rightarrow> string \<Rightarrow> string \<Rightarrow> string \<Rightarrow> string \<Rightarrow> int \<Rightarrow> ('r auth_db_scheme, AuthTokens \<times> string) db_op" where
  "createLoginSession lib userID userType role ipAddress userAgent refreshDuration =
     bind_db (GenerateAccessToken (au_jwt lib) (authConfig lib) userID userType role AccessTokenDuration) (\<lambda>accessToken.
     bind_db (GenerateRefreshToken lib) (\<lambda>refreshToken.
     bind_db new_uuid (\<lambda>i s.
     bind_db (CreateSession (new_session lib i userID userType refreshToken ipAddress userAgent (clock s + refreshDuration)))
       (\<lambda>_. return_db (access_tokens accessToken, refreshToken)) s)))"

definition enforce_limit :: "nat \<Rightarrow> string \<Rightarrow> string \<Rightarrow> ('r auth_db_scheme, unit) db_op" where
  "enforce_limit limit userID userType =
     log_error (bind_db (CountSessionsByUser userID userType) (\<lambda>count.
       if count \<ge> limit then DeleteOldestSession userID userType else return_db ()))"

definition enforceCustomerSessionLimit :: "string \<Rightarrow> ('r auth_db_scheme, unit) db_op" where
  "enforceCustomerSessionLimit customerID = enforce_limit MaxCustomerSessions customerID ''customer''"

definition enforceAdminSessionLimit :: "string \<Rightarrow> ('r auth_db_scheme, unit) db_op" where
  "enforceAdminSessionLimit adminID = enforce_limit MaxAdminSessions adminID ''admin''"

definition CreateCustomerSSOSession ::
  "auth_lib \<Rightarrow> string \<Rightarrow> string \<Rightarrow> string \<Rightarrow> ('r auth_db_scheme, AuthTokens \<times> string) db_op" where
  "CreateCustomerSSOSession lib customerID ipAddress userAgent =
     bind_db (customer_GetByID customerID) (\<lambda>customer.
     if c_Status customer \<noteq> CustomerStatusActive then throw_db ErrUnauthorized
     else bind_db (enforceCustomerSessionLimit customerID) (\<lambda>_.
       createLoginSession lib customerID ''customer'' '''' ipAddress userAgent CustomerRefreshTokenDuration))"

section \<open>Customer login\<close>

definition lockout_key :: "string \<Rightarrow> string \<Rightarrow> string" where
  "lockout_key userType email = userType @ '':'' @ email"

definition checkLoginLockoutForType :: "string \<Rightarrow> string \<Rightarrow> ('r auth_db_scheme, unit) db_op" where
  "checkLoginLockoutForType email userType =
     bind_db (GetFailedLoginCount (lockout_key userType email) LockoutWindow) (\<lambda>failedCount.
       if failedCount \<ge> MaxFailedLoginAttempts then throw_db ErrAccountLocked else return_db ())"

definition checkLoginLockout :: "string \<Rightarrow> ('r auth_db_scheme, unit) db_op" where
  "checkLoginLockout email = checkLoginLockoutForType email ''customer''"

definition verifyPassword :: "auth_lib \<Rightarrow> string \<Rightarrow> string \<Rightarrow> error + bool" where
  "verifyPassword lib password hash = compare_hash lib password hash"

text \<open>The verification against a dummy hash for an unknown address only takes time.\<close>

definition refuse_login :: "string \<Rightarrow> ('r auth_db_scheme, 'a) db_op" where
  "refuse_login key = bind_db (log_error (RecordFailedLogin key)) (\<lambda>_. throw_db ErrUnauthorized)"

definition verifyLoginCredentials :: "auth_lib \<Rightarrow> string \<Rightarrow> string \<Rightarrow> ('r auth_db_scheme, Customer) db_op" where
  "verifyLoginCredentials lib email password s =
     (case customer_GetByEmail email s of
        (Inl e, s1) \<Rightarrow> (Inl (if e = ErrNotFound then ErrUnauthorized else e), s1)
      | (Inr customer, s1) \<Rightarrow>
          (case c_PasswordHash customer of
             None \<Rightarrow> refuse_login (lockout_key ''customer'' email)
           | Some hash \<Rightarrow>
               bind_db (lift_db (verifyPassword lib password hash)) (\<lambda>match.
                 if \<not> match then refuse_login (lockout_key ''customer'' email) else return_db customer)) s1)"

definition challenge_tokens :: "string \<Rightarrow> AuthTokens" where
  "challenge_tokens tempToken =
     \<lparr>at_AccessToken = '''', at_TokenType = ''Bearer'', at_ExpiresIn = 0, at_Requires2FA = True, at_TempToken = tempToken\<rparr>"

definition build2FAChallenge :: "auth_lib \<Rightarrow> string \<Rightarrow> string \<Rightarrow> ('r auth_db_scheme, AuthTokens) db_op" where
  "build2FAChallenge lib userID userType =
     bind_db (GenerateTempToken (au_jwt lib) (authConfig lib) userID userType) (\<lambda>tempToken.
       return_db (challenge_tokens tempToken))"

definition needs_2fa :: "Customer \<Rightarrow> bool" where
  "needs_2fa customer \<longleftrightarrow> c_TOTPEnabled customer \<and> c_TOTPSecretEncrypted customer \<noteq> None"

definition Login ::
  "auth_lib \<Rightarrow> string \<Rightarrow> string \<Rightarrow> string \<Rightarrow> string \<Rightarrow> ('r auth_db_scheme, AuthTokens \<times> string) db_op" where
  "Login lib email password ipAddress userAgent =
     bind_db (checkLoginLockout email) (\<lambda>_.
     bind_db (verifyLoginCredentials lib email password) (\<lambda>customer.
     bind_db (log_error (ClearFailedLogins (lockout_key ''customer'' email))) (\<lambda>_.
     if c_Status customer \<noteq> CustomerStatusActive then throw_db (ErrMsg (''account is '' @ c_Status customer))
     else if needs_2fa customer then
       bind_db (build2FAChallenge lib (c_ID customer) ''customer'') (\<lambda>tokens. return_db (tokens, ''''))
     else bind_db (enforceCustomerSessionLimit (c_ID customer)) (\<lambda>_.
       createLoginSession lib (c_ID customer) ''customer'' '''' ipAddress userAgent CustomerRefreshTokenDuration))))"

text \<open>Customers may be one step of thirty seconds off, administrators may not.\<close>

definition validate_totp :: "auth_lib \<Rightarrow> nat \<Rightarrow> string \<Rightarrow> string \<Rightarrow> ('r auth_db_scheme, bool) db_op" where
  "validate_totp lib skew encryptedSecret totpCode s =
     (case decrypt lib encryptedSecret of
        Inl e \<Rightarrow> Inl e
      | Inr totpSecret \<Rightarrow> totp_validate lib skew totpCode totpSecret (clock s), s)"

definition validateTOTPCode :: "auth_lib \<Rightarrow> string \<Rightarrow> string \<Rightarrow> ('r auth_db_scheme, bool) db_op" where
  "validateTOTPCode lib = validate_totp lib 1"

definition validateTOTPCodeStrict :: "auth_lib \<Rightarrow> string \<Rightarrow> string \<Rightarrow> ('r auth_db_scheme, bool) db_op" where
  "validateTOTPCodeStrict lib = validate_totp lib 0"

definition checkBackupCode :: "auth_lib \<Rightarrow> string \<Rightarrow> string \<Rightarrow> error + bool" where
  "checkBackupCode lib code hash = compare_hash lib code hash"

text \<open>The codes without the first one that matches.\<close>

fun spend_code :: "auth_lib \<Rightarrow> string \<Rightarrow> string list \<Rightarrow> string list option" where
  "spend_code lib code [] = None"
| "spend_code lib code (h # hs) =
     (if checkBackupCode lib code h = Inr True then Some hs else map_option (Cons h) (spend_code lib code hs))"

definition consumeBackupCode ::
  "auth_lib \<Rightarrow> string \<Rightarrow> string \<Rightarrow> string list \<Rightarrow> (string \<Rightarrow> string list \<Rightarrow> ('r auth_db_scheme, unit) db_op) \<Rightarrow>
   ('r auth_db_scheme, bool) db_op" where
  "consumeBackupCode lib userID totpCode backupCodesHash updateFn =
     (case spend_code lib totpCode backupCodesHash of
        None \<Rightarrow> return_db False
      | Some remaining \<Rightarrow> bind_db (log_error (updateFn userID remaining)) (\<lambda>_. return_db True))"

definition Verify2FA ::
  "auth_lib \<Rightarrow> string \<Rightarrow> string \<Rightarrow> string \<Rightarrow> string \<Rightarrow> ('r auth_db_scheme, AuthTokens \<times> string) db_op" where
  "Verify2FA lib tempToken totpCode ipAddress userAgent s =
     (case ValidateTempToken (au_jwt lib) (authConfig lib) (clock s) tempToken of
        Inl e \<Rightarrow> (Inl e, s)
      | Inr claims \<Rightarrow>
          (if cl_UserType claims \<noteq> ''customer'' then throw_db (ErrMsg ''temp token is not for customer'')
           else bind_db (customer_GetByID (cl_UserID claims)) (\<lambda>customer.
             case c_TOTPSecretEncrypted customer of
               None \<Rightarrow> throw_db (ErrMsg ''2FA not enabled for this customer'')
             | Some secret \<Rightarrow>
                 if \<not> c_TOTPEnabled customer then throw_db (ErrMsg ''2FA not enabled for this customer'')
                 else
                   bind_db (validateTOTPCode lib secret totpCode) (\<lambda>valid.
                   bind_db (if valid then return_db True
                            else consumeBackupCode lib (c_ID customer) totpCode (c_TOTPBackupCodesHash customer)
                                   UpdateBackupCodes) (\<lambda>valid.
                   if \<not> valid then throw_db ErrUnauthorized
                   else bind_db (enforceCustomerSessionLimit (c_ID customer)) (\<lambda>_.
                     createLoginSession lib (c_ID customer) ''customer'' '''' ipAddress userAgent
                       CustomerRefreshTokenDuration))))) s)"

section \<open>Administrator login\<close>

definition verifyAdminCredentials :: "auth_lib \<Rightarrow> string \<Rightarrow> string \<Rightarrow> ('r auth_db_scheme, Admin) db_op" where
  "verifyAdminCredentials lib email password s =
     (case admin_GetByEmail email s of
        (Inl e, s1) \<Rightarrow>
          if e = ErrNotFound then refuse_login (lockout_key ''admin'' email) s1 else (Inl e, s1)
      | (Inr admin, s1) \<Rightarrow>
          bind_db (lift_db (verifyPassword lib password (a_PasswordHash admin))) (\<lambda>match.
            if \<not> match then refuse_login (lockout_key ''admin'' email) else return_db admin) s1)"

definition AdminLogin :: "auth_lib \<Rightarrow> string \<Rightarrow> string \<Rightarrow> ('r auth_db_scheme, AuthTokens) db_op" where
  "AdminLogin lib email password =
     bind_db (checkLoginLockoutForType email ''admin'') (\<lambda>_.
     bind_db (verifyAdminCredentials lib email password) (\<lambda>admin.
     bind_db (log_error (ClearFailedLogins (lockout_key ''admin'' email))) (\<lambda>_.
     if \<not> a_TOTPEnabled admin then throw_db ErrUnauthorized
     else build2FAChallenge lib (a_ID admin) ''admin'')))"

definition AdminVerify2FA ::
  "auth_lib \<Rightarrow> string \<Rightarrow> string \<Rightarrow> string \<Rightarrow> string \<Rightarrow> ('r auth_db_scheme, AuthTokens \<times> string) db_op" where
  "AdminVerify2FA lib tempToken totpCode ipAddress userAgent s =
     (case ValidateTempToken (au_jwt lib) (authConfig lib) (clock s) tempToken of
        Inl e \<Rightarrow> (Inl e, s)
      | Inr claims \<Rightarrow>
          (if cl_UserType claims \<noteq> ''admin'' then throw_db (ErrMsg ''temp token is not for admin'')
           else bind_db (admin_GetByID (cl_UserID claims)) (\<lambda>admin.
             if \<not> a_TOTPEnabled admin then throw_db (ErrMsg ''2FA not enabled for this admin'')
             else
               bind_db (validateTOTPCodeStrict lib (a_TOTPSecretEncrypted admin) totpCode) (\<lambda>valid.
               bind_db (if valid then return_db True
                        else consumeBackupCode lib (a_ID admin) totpCode (a_TOTPBackupCodesHash admin)
                               admin_UpdateBackupCodes) (\<lambda>valid.
               if \<not> valid then throw_db ErrUnauthorized
               else bind_db (enforceAdminSessionLimit (a_ID admin)) (\<lambda>_.
                 createLoginSession lib (a_ID admin) ''admin'' (a_Role admin) ipAddress userAgent
                   AdminRefreshTokenDuration))))) s)"

definition UpdateAdminPermissions :: "string \<Rightarrow> string list \<Rightarrow> ('r auth_db_scheme, Admin) db_op" where
  "UpdateAdminPermissions adminID permissions =
     bind_db (admin_GetByID adminID) (\<lambda>_.
     bind_db (UpdatePermissions adminID permissions) (\<lambda>_. admin_GetByID adminID))"

section \<open>Refreshing and leaving\<close>

text \<open>\<open>RefreshToken\<close> after the session has been read and found alive: the role of an administrator,
  new tokens, and the rotation.\<close>

definition finish_refresh ::
  "auth_lib \<Rightarrow> Session \<Rightarrow> string \<Rightarrow> string \<Rightarrow> ('r auth_db_scheme, AuthTokens \<times> string) db_op" where
  "finish_refresh lib session ipAddress userAgent =
     bind_db (if se_UserType session = ''admin''
              then bind_db (admin_GetByID (se_UserID session)) (\<lambda>admin. return_db (AdminRefreshTokenDuration, a_Role admin))
              else return_db (CustomerRefreshTokenDuration, '''')) (\<lambda>(refreshDuration, role).
     bind_db (GenerateAccessToken (au_jwt lib) (authConfig lib) (se_UserID session) (se_UserType session) role
                AccessTokenDuration) (\<lambda>accessToken.
     bind_db (GenerateRefreshToken lib) (\<lambda>newRefreshToken.
     bind_db new_uuid (\<lambda>i s.
       case RotateSession (se_ID session) (new_session lib i (se_UserID session) (se_UserType session) newRefreshToken
              ipAddress userAgent (clock s + refreshDuration)) s of
         (Inl e, s1) \<Rightarrow> (Inl (if e = ErrNoRowsAffected then ErrUnauthorized else e), s1)
       | (Inr _, s1) \<Rightarrow> (Inr (access_tokens accessToken, newRefreshToken), s1)))))"

definition RefreshToken ::
  "auth_lib \<Rightarrow> string \<Rightarrow> string \<Rightarrow> string \<Rightarrow> ('r auth_db_scheme, AuthTokens \<times> string) db_op" where
  "RefreshToken lib refreshToken ipAddress userAgent s =
     (case GetSessionByRefreshToken (HashSHA256 lib refreshToken) s of
        (Inl e, s1) \<Rightarrow> (Inl (if e = ErrNotFound then ErrUnauthorized else e), s1)
      | (Inr session, s1) \<Rightarrow>
          (if clock s1 > se_ExpiresAt session
           then bind_db (log_error (DeleteSession (se_ID session))) (\<lambda>_. throw_db ErrUnauthorized)
           else finish_refresh lib session ipAddress userAgent) s1)"

definition Logout :: "string \<Rightarrow> ('r auth_db_scheme, unit) db_op" where
  "Logout sessionID s =
     (case DeleteSession sessionID s of
        (Inl e, s1) \<Rightarrow> (if e = ErrNotFound then Inr () else Inl e, s1)
      | (Inr _, s1) \<Rightarrow> (Inr (), s1))"

definition LogoutAll :: "string \<Rightarrow> string \<Rightarrow> ('r auth_db_scheme, unit) db_op" where
  "LogoutAll userID userType = DeleteSessionsByUser userID userType"

section \<open>Passwords\<close>

definition hashPassword :: "auth_lib \<Rightarrow> string \<Rightarrow> ('r db_env_scheme, string) db_op" where
  "hashPassword lib password = draw (\<lambda>n. create_hash lib n password)"

definition current_hash :: "string \<Rightarrow> string \<Rightarrow> ('r auth_db_scheme, string) db_op" where
  "current_hash userID userType =
     (if userType = ''customer'' then
        bind_db (customer_GetByID userID) (\<lambda>customer.
          case c_PasswordHash customer of
            None \<Rightarrow> throw_db (ErrValidation ''password'' ''no password set'')
          | Some h \<Rightarrow> return_db h)
      else if userType = ''admin'' then bind_db (admin_GetByID userID) (\<lambda>admin. return_db (a_PasswordHash admin))
      else throw_db (ErrMsg (''invalid user type: '' @ userType)))"

definition set_password :: "string \<Rightarrow> string \<Rightarrow> string \<Rightarrow> ('r auth_db_scheme, unit) db_op" where
  "set_password userID userType newHash =
     (if userType = ''customer'' then UpdateCustomerPasswordHash userID newHash
      else if userType = ''admin'' then UpdatePasswordHash userID newHash
      else throw_db (ErrMsg (''invalid user type: '' @ userType)))"

definition ChangePassword :: "auth_lib \<Rightarrow> string \<Rightarrow> string \<Rightarrow> string \<Rightarrow> string \<Rightarrow> ('r auth_db_scheme, unit) db_op" where
  "ChangePassword lib userID oldPassword newPassword userType =
     bind_db (current_hash userID userType) (\<lambda>currentHash.
     bind_db (lift_db (verifyPassword lib oldPassword currentHash)) (\<lambda>match.
     if \<not> match then throw_db ErrUnauthorized
     else bind_db (hashPassword lib newPassword) (\<lambda>newHash.
       bind_db (set_password userID userType newHash) (\<lambda>_.
       log_error (LogoutAll userID userType)))))"

text \<open>An unknown address is answered like a known one, by an empty token.\<close>

definition RequestPasswordReset :: "auth_lib \<Rightarrow> string \<Rightarrow> ('r auth_db_scheme, string) db_op" where
  "RequestPasswordReset lib email s =
     (case customer_GetByEmail email s of
        (Inl e, s1) \<Rightarrow> (if e = ErrNotFound then Inr '''' else Inl e, s1)
      | (Inr customer, s1) \<Rightarrow>
          bind_db (draw (random_token lib)) (\<lambda>resetToken s2.
            bind_db (CreatePasswordReset
              \<lparr>pr_ID = '''', pr_UserID = c_ID customer, pr_UserType = ''customer'',
               pr_TokenHash = HashSHA256 lib resetToken, pr_ExpiresAt = clock s2 + PasswordResetTokenDuration,
               pr_UsedAt = None, pr_CreatedAt = 0\<rparr>)
              (\<lambda>_. return_db resetToken) s2) s1)"

definition ResetPassword :: "auth_lib \<Rightarrow> string \<Rightarrow> string \<Rightarrow> ('r auth_db_scheme, unit) db_op" where
  "ResetPassword lib token newPassword s =
     (case GetPasswordResetByTokenHash (HashSHA256 lib token) s of
        (Inl e, s1) \<Rightarrow> (Inl (if e = ErrNotFound then ErrUnauthorized else e), s1)
      | (Inr reset, s1) \<Rightarrow>
          (if clock s1 > pr_ExpiresAt reset then throw_db (ErrMsg ''reset token has expired'')
           else if pr_UsedAt reset \<noteq> None then throw_db (ErrMsg ''reset token has already been used'')
           else bind_db (hashPassword lib newPassword) (\<lambda>newHash.
             bind_db (set_password (pr_UserID reset) (pr_UserType reset) newHash) (\<lambda>_.
             bind_db (log_error (MarkPasswordResetUsed (pr_ID reset))) (\<lambda>_.
             log_error (LogoutAll (pr_UserID reset) (pr_UserType reset)))))) s1)"

section \<open>Second factors\<close>

fun draw_codes :: "auth_lib \<Rightarrow> nat \<Rightarrow> ('r db_env_scheme, (string \<times> string) list) db_op" where
  "draw_codes lib 0 = return_db []"
| "draw_codes lib (Suc n) =
     bind_db (draw (random_digits lib)) (\<lambda>code.
     bind_db (draw (\<lambda>k. create_hash lib k code)) (\<lambda>h.
     bind_db (draw_codes lib n) (\<lambda>rest. return_db ((code, h) # rest))))"

definition Initiate2FA ::
  "auth_lib \<Rightarrow> string \<Rightarrow> string \<Rightarrow> ('r auth_db_scheme, string \<times> string \<times> string list) db_op" where
  "Initiate2FA lib customerID email =
     bind_db (customer_GetByID customerID) (\<lambda>customer.
     if c_TOTPEnabled customer then throw_db (ErrMsg ''2FA is already enabled'')
     else bind_db (draw (\<lambda>n. totp_generate lib n email)) (\<lambda>(secret, url).
       bind_db (draw_codes lib 10) (\<lambda>codes.
       bind_db (draw (\<lambda>n. encrypt lib n secret)) (\<lambda>encryptedSecret.
       bind_db (UpdateTOTPEnabled customerID False (Some encryptedSecret) (map snd codes)) (\<lambda>_.
       return_db (secret, url, map fst codes))))))"

definition Enable2FA :: "auth_lib \<Rightarrow> string \<Rightarrow> string \<Rightarrow> ('r auth_db_scheme, unit) db_op" where
  "Enable2FA lib customerID totpCode =
     bind_db (customer_GetByID customerID) (\<lambda>customer.
     if c_TOTPEnabled customer then throw_db (ErrMsg ''2FA is already enabled'')
     else case c_TOTPSecretEncrypted customer of
       None \<Rightarrow> throw_db (ErrMsg ''2FA setup not initiated'')
     | Some secret \<Rightarrow>
         bind_db (validateTOTPCode lib secret totpCode) (\<lambda>valid.
         if \<not> valid then throw_db ErrUnauthorized
         else bind_db (UpdateTOTPEnabled customerID True (Some secret) (c_TOTPBackupCodesHash customer)) (\<lambda>_.
           log_error (LogoutAll customerID ''customer''))))"

definition Disable2FA :: "auth_lib \<Rightarrow> string \<Rightarrow> string \<Rightarrow> ('r auth_db_scheme, unit) db_op" where
  "Disable2FA lib customerID password =
     bind_db (customer_GetByID customerID) (\<lambda>customer.
     if \<not> c_TOTPEnabled customer then throw_db (ErrMsg ''2FA is not enabled'')
     else case c_PasswordHash customer of
       None \<Rightarrow> throw_db (ErrValidation ''password'' ''no password set'')
     | Some hash \<Rightarrow>
         bind_db (lift_db (verifyPassword lib password hash)) (\<lambda>match.
         if \<not> match then throw_db ErrUnauthorized else UpdateTOTPEnabled customerID False None []))"

definition Get2FAStatus :: "string \<Rightarrow> ('r auth_db_scheme, bool \<times> int) db_op" where
  "Get2FAStatus customerID =
     bind_db (customer_GetByID customerID) (\<lambda>customer. return_db (c_TOTPEnabled customer, c_UpdatedAt customer))"

definition GetBackupCodes :: "string \<Rightarrow> ('r auth_db_scheme, string list \<times> bool) db_op" where
  "GetBackupCodes customerID =
     bind_db (customer_GetByID customerID) (\<lambda>customer.
     if \<not> c_TOTPEnabled customer then throw_db (ErrMsg ''2FA is not enabled'')
     else if c_TOTPBackupCodesHash customer = [] then throw_db (ErrMsg ''no backup codes available'')
     else return_db ([], True))"

definition RegenerateBackupCodes :: "auth_lib \<Rightarrow> string \<Rightarrow> ('r auth_db_scheme, string list) db_op" where
  "RegenerateBackupCodes lib customerID =
     bind_db (customer_GetByID customerID) (\<lambda>customer.
     if \<not> c_TOTPEnabled customer then throw_db (ErrMsg ''2FA is not enabled'')
     else bind_db (draw_codes lib 10) (\<lambda>codes.
       bind_db (UpdateBackupCodesWithShown customerID (map snd codes)) (\<lambda>_. return_db (map fst codes))))"

section \<open>Steps that only read\<close>

lemma draw_reads [simp]: "tables (snd (draw src s)) = tables s"
  by (simp add: draw_def)

lemma new_uuid_reads [simp]: "tables (snd (new_uuid s)) = tables s"
  by (simp add: new_uuid_def)

lemma sign_claims_reads [simp]: "tables (snd (sign_claims jwt config mk s)) = tables s"
  unfolding sign_claims_def by (rule bind_reads) simp_all

lemma token_reads [simp]:
  "tables (snd (GenerateAccessToken jwt config u ty role d s)) = tables s"
  "tables (snd (GenerateTempToken jwt config u ty s)) = tables s"
  "tables (snd (GenerateRefreshToken lib s)) = tables s"
  "tables (snd (hashPassword lib pw s)) = tables s"
  by (simp_all add: GenerateAccessToken_def GenerateTempToken_def GenerateRefreshToken_def hashPassword_def)

lemma build2FAChallenge_reads [simp]: "tables (snd (build2FAChallenge lib u ty s)) = tables s"
  unfolding build2FAChallenge_def by (rule bind_reads) (simp_all add: return_db_def)

lemma auth_tables_eqD:
  assumes "tables s = tables t"
  shows "customers s = customers t" "sessions s = sessions t" "failed_logins s = failed_logins t" "admins s = admins t"
    "resets s = resets t"
  using cut.same_tables(1) [OF assms] st.same_tables(1) [OF assms] ft.same_tables(1) [OF assms]
    adt.same_tables(1) [OF assms] rst.same_tables(1) [OF assms] by simp_all

section \<open>What a successful step has seen\<close>

definition recent_failures :: "string \<Rightarrow> 'r auth_db_scheme \<Rightarrow> nat" where
  "recent_failures key s =
     length (filter (\<lambda>r. fst r = key \<and> snd r > clock s - LockoutWindow) (failed_logins s))"

lemma select_Inr:
  assumes "table_select get q s = (Inr x, t)" and "\<And>s. get (tables s) = get s"
  shows "x = q (clock s) (get s) \<and> tables t = tables s"
  using assms(1) unfolding table_select_def
proof (cases rule: auto_stmt_cases)
  case (2 s1)
  moreover have "get s1 = get s" "clock s1 = clock s" using 2(1) assms(2) clock_tables by metis+
  ultimately show ?thesis by auto
qed simp_all

lemma lockout_passed:
  assumes "checkLoginLockoutForType email userType s = (Inr (), t)"
  shows "recent_failures (lockout_key userType email) s < MaxFailedLoginAttempts \<and> tables t = tables s"
proof -
  obtain n s1 where n: "GetFailedLoginCount (lockout_key userType email) LockoutWindow s = (Inr n, s1)"
    and rest: "(if n \<ge> MaxFailedLoginAttempts then throw_db ErrAccountLocked else return_db ()) s1 = (Inr (), t)"
    using assms by (auto simp: checkLoginLockoutForType_def)
  have "n = recent_failures (lockout_key userType email) s \<and> tables s1 = tables s"
    using select_Inr [OF n [unfolded GetFailedLoginCount_def]] by (simp add: recent_failures_def)
  then show ?thesis using rest by (auto simp: throw_db_def return_db_def split: if_splits)
qed

lemma customer_found:
  assumes "table_find customers P s = (Inr c, t)"
  shows "c \<in> set (customers s) \<and> P c \<and> tables t = tables s"
  using table_find_found [OF assms] table_find_reads [of customers P s] assms by simp

lemma refuse_login_fails: "refuse_login key s \<noteq> (Inr x, t)"
  by (simp add: refuse_login_def bind_db_def log_error_def throw_db_def)

lemma credentials_verified:
  assumes "verifyLoginCredentials lib email password s = (Inr c, t)"
  shows "c \<in> set (customers s) \<and> c_Email c = email \<and>
    (\<exists>h. c_PasswordHash c = Some h \<and> compare_hash lib password h = Inr True) \<and> tables t = tables s"
proof -
  obtain c1 s1 where f: "customer_GetByEmail email s = (Inr c1, s1)"
    using assms by (auto simp: verifyLoginCredentials_def split: prod.splits sum.splits)
  note found = customer_found [OF f [unfolded customer_GetByEmail_def]]
  obtain h where h: "c_PasswordHash c1 = Some h"
    using assms f by (cases "c_PasswordHash c1") (auto simp: verifyLoginCredentials_def refuse_login_fails)
  then have "compare_hash lib password h = Inr True" "c = c1" "t = s1"
    using assms f
    by (auto simp: verifyLoginCredentials_def refuse_login_fails lift_db_def return_db_def verifyPassword_def split: if_splits elim!: bind_db_Inr)
  then show ?thesis using found h by simp
qed

lemma session_created:
  assumes "createLoginSession lib userID userType role ip ua d s = (Inr (tokens, refresh), t)"
  shows "\<not> at_Requires2FA tokens \<and>
    (\<exists>r\<in>set (sessions t). se_UserID r = userID \<and> se_UserType r = userType \<and> se_RefreshTokenHash r = HashSHA256 lib refresh)"
proof -
  obtain access i s1 row where ins: "table_insert sessions put_sessions session_violation
      (session_row (new_session lib i userID userType refresh ip ua (clock s1 + d))) s1 = (Inr row, t)"
    and tokens: "tokens = access_tokens access"
    using assms by (auto simp: createLoginSession_def CreateSession_def return_db_def)
  from ins have "row \<in> set (sessions t) \<and> row = session_row (new_session lib i userID userType refresh ip ua (clock s1 + d)) (clock s1)"
  proof (cases rule: st.insert_cases)
    case written
    then show ?thesis using st.same_tables(1) [OF written(1)] by auto
  qed simp
  then show ?thesis using tokens by (auto simp: access_tokens_def session_row_def new_session_def intro!: bexI [of _ row])
qed

lemma clear_keeps: "sessions (snd (log_error (ClearFailedLogins key) s)) = sessions s"
  unfolding log_error_def ClearFailedLogins_def
  by (simp, rule bind_keeps [where P = "\<lambda>t. sessions t = sessions s"], rule ft.delete_keeps)
    (simp_all add: env_free_def return_db_def put_failed_def tables_def)

lemma Login_cases:
  assumes "Login lib email password ip ua s = (Inr (tokens, refresh), t)"
  obtains c h where "c \<in> set (customers s)" "c_Email c = email" "c_Status c = CustomerStatusActive"
    "c_PasswordHash c = Some h" "compare_hash lib password h = Inr True"
    "recent_failures (lockout_key ''customer'' email) s < MaxFailedLoginAttempts"
    "if needs_2fa c then at_Requires2FA tokens \<and> refresh = '''' \<and> sessions t = sessions s
     else \<not> at_Requires2FA tokens \<and> (\<exists>r\<in>set (sessions t). se_UserID r = c_ID c \<and> se_UserType r = ''customer'' \<and>
       se_RefreshTokenHash r = HashSHA256 lib refresh)"
proof -
  from assms obtain s1 c s2 s3 where
    s1: "checkLoginLockoutForType email ''customer'' s = (Inr (), s1)" and
    s2: "verifyLoginCredentials lib email password s1 = (Inr c, s2)" and
    s3: "log_error (ClearFailedLogins (lockout_key ''customer'' email)) s2 = (Inr (), s3)" and
    rest: "(if c_Status c \<noteq> CustomerStatusActive then throw_db (ErrMsg (''account is '' @ c_Status c))
     else if needs_2fa c then
       bind_db (build2FAChallenge lib (c_ID c) ''customer'') (\<lambda>tokens. return_db (tokens, ''''))
     else bind_db (enforceCustomerSessionLimit (c_ID c)) (\<lambda>_.
       createLoginSession lib (c_ID c) ''customer'' '''' ip ua CustomerRefreshTokenDuration)) s3 = (Inr (tokens, refresh), t)"
    unfolding Login_def checkLoginLockout_def by auto
  note locked = lockout_passed [OF s1]
  note cred = credentials_verified [OF s2]
  have same: "tables s2 = tables s" using locked cred by simp
  have active: "c_Status c = CustomerStatusActive" using rest by (auto simp: throw_db_def split: if_splits)
  have "sessions s3 = sessions s"
    using clear_keeps [of "lockout_key ''customer'' email" s2] s3 auth_tables_eqD(2) [OF same] by simp
  then have "if needs_2fa c then at_Requires2FA tokens \<and> refresh = '''' \<and> sessions t = sessions s
     else \<not> at_Requires2FA tokens \<and> (\<exists>r\<in>set (sessions t). se_UserID r = c_ID c \<and> se_UserType r = ''customer'' \<and>
       se_RefreshTokenHash r = HashSHA256 lib refresh)"
  proof (cases "needs_2fa c")
    case True
    then obtain s4 where s4: "build2FAChallenge lib (c_ID c) ''customer'' s3 = (Inr tokens, s4)" "refresh = ''''" "t = s4"
      using rest active by (auto simp: return_db_def)
    then have "sessions s4 = sessions s3" using auth_tables_eqD(2) build2FAChallenge_reads by (metis sndI)
    moreover have "at_Requires2FA tokens"
      using s4(1) by (auto simp: build2FAChallenge_def return_db_def challenge_tokens_def)
    ultimately show ?thesis using True s4 \<open>sessions s3 = sessions s\<close> by simp
  next
    case False
    then show ?thesis using rest active by (auto elim!: bind_db_Inr dest: session_created)
  qed
  moreover have "c \<in> set (customers s)" using cred auth_tables_eqD(1) [of s1 s] locked by simp
  ultimately show ?thesis using that cred active locked by blast
qed

lemma spend_code_matches: "spend_code lib code hs = Some rest \<Longrightarrow> \<exists>h\<in>set hs. compare_hash lib code h = Inr True"
  by (induction hs arbitrary: rest) (auto simp: checkBackupCode_def split: if_splits)

definition valid_challenge :: "auth_lib \<Rightarrow> int \<Rightarrow> string \<Rightarrow> string \<Rightarrow> string \<Rightarrow> bool" where
  "valid_challenge lib now tempToken userType userID \<longleftrightarrow>
     (\<exists>claims e. jwt_verify (au_jwt lib) (JWTSecret (authConfig lib)) tempToken = Some claims \<and>
        cl_Purpose claims = tempTokenPurposeValue \<and> cl_ExpiresAt claims = Some e \<and> now < e \<and>
        cl_UserType claims = userType \<and> cl_UserID claims = userID)"

lemma ValidateTempToken_Inr:
  assumes "ValidateTempToken (au_jwt lib) (authConfig lib) now tempToken = Inr claims"
  shows "valid_challenge lib now tempToken (cl_UserType claims) (cl_UserID claims)"
  using assms unfolding ValidateTempToken_def parseAndValidateJWT_def valid_challenge_def
  by (auto split: sum.splits option.splits if_splits)

definition second_factor :: "auth_lib \<Rightarrow> nat \<Rightarrow> int \<Rightarrow> string \<Rightarrow> string list \<Rightarrow> string \<Rightarrow> bool" where
  "second_factor lib skew now secret codes code \<longleftrightarrow>
     (\<exists>key. decrypt lib secret = Inr key \<and> totp_validate lib skew code key now = Inr True) \<or>
     (\<exists>h\<in>set codes. compare_hash lib code h = Inr True)"

text \<open>The code is a current one or a backup code.\<close>

lemma code_accepted:
  assumes "validate_totp lib skew secret code s = (Inr valid, s1)"
    and "(if valid then return_db True else consumeBackupCode lib i code codes upd) s1 = (Inr True, s2)"
  shows "second_factor lib skew (clock s) secret codes code"
proof (cases valid)
  case True
  then show ?thesis using assms(1) by (auto simp: validate_totp_def second_factor_def split: sum.splits)
next
  case False
  then have "spend_code lib code codes \<noteq> None"
    using assms(2) by (auto simp: consumeBackupCode_def return_db_def split: option.splits)
  then show ?thesis using spend_code_matches unfolding second_factor_def by blast
qed

lemma Verify2FA_cases:
  assumes "Verify2FA lib tempToken code ip ua s = (Inr (tokens, refresh), t)"
  obtains c secret where "c \<in> set (customers s)" "valid_challenge lib (clock s) tempToken ''customer'' (c_ID c)"
    "c_TOTPEnabled c" "c_TOTPSecretEncrypted c = Some secret"
    "second_factor lib 1 (clock s) secret (c_TOTPBackupCodesHash c) code"
    "\<exists>r\<in>set (sessions t). se_UserID r = c_ID c \<and> se_UserType r = ''customer'' \<and>
       se_RefreshTokenHash r = HashSHA256 lib refresh"
proof -
  obtain claims where claims: "ValidateTempToken (au_jwt lib) (authConfig lib) (clock s) tempToken = Inr claims"
    using assms by (auto simp: Verify2FA_def split: sum.splits)
  have customer: "cl_UserType claims = ''customer''"
    using assms claims by (auto simp: Verify2FA_def throw_db_def split: if_splits)
  obtain c s1 where c: "customer_GetByID (cl_UserID claims) s = (Inr c, s1)"
    using assms claims customer by (auto simp: Verify2FA_def elim!: bind_db_Inr)
  obtain secret where secret: "c_TOTPSecretEncrypted c = Some secret" "c_TOTPEnabled c"
    using assms claims customer c
    by (auto simp: Verify2FA_def bind_db_def throw_db_def split: option.splits if_splits)
  from assms claims customer c secret obtain valid s2 s3 where
    v: "validate_totp lib 1 secret code s1 = (Inr valid, s2)" and
    b: "(if valid then return_db True
         else consumeBackupCode lib (c_ID c) code (c_TOTPBackupCodesHash c) UpdateBackupCodes) s2 = (Inr True, s3)" and
    rest: "bind_db (enforceCustomerSessionLimit (c_ID c)) (\<lambda>_.
        createLoginSession lib (c_ID c) ''customer'' '''' ip ua CustomerRefreshTokenDuration) s3 = (Inr (tokens, refresh), t)"
    unfolding Verify2FA_def validateTOTPCode_def
    by (simp add: bind_db_def [of "customer_GetByID (cl_UserID claims)"])
      (auto simp: throw_db_def split: if_splits elim!: bind_db_Inr)
  note found = customer_found [OF c [unfolded customer_GetByID_def]]
  have id: "c_ID c = cl_UserID claims" using found by (simp add: not_deleted_def)
  have "clock s1 = clock s" using found clock_tables by metis
  then have "second_factor lib 1 (clock s) secret (c_TOTPBackupCodesHash c) code" using code_accepted [OF v b] by simp
  moreover have "\<exists>r\<in>set (sessions t). se_UserID r = c_ID c \<and> se_UserType r = ''customer'' \<and>
      se_RefreshTokenHash r = HashSHA256 lib refresh"
    using rest by (auto elim!: bind_db_Inr dest: session_created)
  moreover have "valid_challenge lib (clock s) tempToken ''customer'' (c_ID c)"
    using ValidateTempToken_Inr [OF claims] customer id by simp
  ultimately show ?thesis using that found secret by blast
qed

text \<open>The insert of a reset leaves both owners NULL, which the check of migration 47 refuses.\<close>

lemma CreatePasswordReset_refused:
  "tables (snd (CreatePasswordReset reset s)) = tables s \<and> (\<exists>e. fst (CreatePasswordReset reset s) = Inl e)"
proof -
  obtain r t where rt: "CreatePasswordReset reset s = (r, t)" by (cases "CreatePasswordReset reset s")
  let ?i = "gen_uuid s (next_id s)" and ?s = "s\<lparr>next_id := Suc (next_id s)\<rparr>"
  obtain r1 t1 where ins: "table_insert resets put_resets reset_violation (reset_of reset ?i) ?s = (r1, t1)"
    by (cases "table_insert resets put_resets reset_violation (reset_of reset ?i) ?s")
  have "reset_violation ?s (resets ?s @ [reset_of reset ?i (clock ?s)]) \<noteq> None"
    by (auto simp: reset_violation_def reset_of_def)
  with ins have "\<exists>e. r1 = Inl e" "tables t1 = tables s"
    by (cases rule: rst.insert_cases; auto)+
  then show ?thesis using ins
    by (auto simp: CreatePasswordReset_def with_uuid_def bind_db_def)
qed

section \<open>What a session requires\<close>

text \<open>C38. Nobody is logged in without the credentials. A successful \<open>Login\<close> found fewer than the limit of
  recent failures for the address, an active customer with it and a password that matches that
  customer's hash; where the second factor is set up it created no session and returned only a
  challenge, otherwise it created a session of that customer with the returned refresh token. A
  successful \<open>Verify2FA\<close> was given an unexpired challenge signed for a customer with the second factor
  on and a current code or one of the stored backup codes, and created the session of that customer.\<close>

theorem session_requires_credentials:
  "(Login lib email password ip ua s = (Inr (tokens, refresh), t) \<longrightarrow>
     recent_failures (lockout_key ''customer'' email) s < MaxFailedLoginAttempts \<and>
     (\<exists>c\<in>set (customers s). \<exists>h. c_Email c = email \<and> c_Status c = CustomerStatusActive \<and>
        c_PasswordHash c = Some h \<and> compare_hash lib password h = Inr True \<and>
        (if needs_2fa c then at_Requires2FA tokens \<and> refresh = '''' \<and> sessions t = sessions s
         else \<not> at_Requires2FA tokens \<and> (\<exists>r\<in>set (sessions t). se_UserID r = c_ID c \<and>
           se_UserType r = ''customer'' \<and> se_RefreshTokenHash r = HashSHA256 lib refresh)))) \<and>
   (Verify2FA lib tempToken code ip ua s = (Inr (tokens, refresh), t) \<longrightarrow>
     (\<exists>c\<in>set (customers s). \<exists>secret. valid_challenge lib (clock s) tempToken ''customer'' (c_ID c) \<and>
        c_TOTPEnabled c \<and> c_TOTPSecretEncrypted c = Some secret \<and>
        second_factor lib 1 (clock s) secret (c_TOTPBackupCodesHash c) code \<and>
        (\<exists>r\<in>set (sessions t). se_UserID r = c_ID c \<and> se_UserType r = ''customer'' \<and>
           se_RefreshTokenHash r = HashSHA256 lib refresh)))"
  by (intro conjI impI; (erule Login_cases | erule Verify2FA_cases); blast)

text \<open>A concrete library and two customers, one with the second factor on; drawn tokens and identifiers
  are runs of a letter, so no two draws agree.\<close>

definition ex_challenge :: JWTClaims where
  "ex_challenge = \<lparr>cl_UserID = ''c2'', cl_UserType = ''customer'', cl_Role = '''', cl_Purpose = tempTokenPurposeValue,
     cl_Issuer = ''virtuestack'', cl_IssuedAt = 900, cl_NotBefore = None, cl_ExpiresAt = Some 1200, cl_ID = ''j1''\<rparr>"

definition ex_auth_lib :: auth_lib where
  "ex_auth_lib = \<lparr>compare_hash = (\<lambda>p h. Inr (h = ''#'' @ p)), create_hash = (\<lambda>_ p. Inr (''#'' @ p)),
     HashSHA256 = (\<lambda>x. ''#'' @ x), random_token = (\<lambda>k. Inr (replicate k CHR ''r'')),
     random_digits = (\<lambda>k. Inr (replicate k CHR ''7'')), encrypt = (\<lambda>_ x. Inr x), decrypt = Inr,
     totp_generate = (\<lambda>_ _. Inr (''key'', ''url'')), totp_validate = (\<lambda>_ code key _. Inr (code = key)),
     au_jwt = \<lparr>jwt_sign = (\<lambda>_ c. Inr (cl_ID c)),
       jwt_verify = (\<lambda>_ t. if t = ''challenge'' then Some ex_challenge else None)\<rparr>,
     authConfig = \<lparr>JWTSecret = ''secret'', cfg_Issuer = ''virtuestack''\<rparr>\<rparr>"

definition ex_customer :: Customer where
  "ex_customer = \<lparr>c_ID = ''c1'', c_Email = ''a@x.org'', c_PasswordHash = Some ''#pw1'', c_Name = ''A'', c_Phone = None,
     c_ExternalClientID = None, c_BillingProvider = Some ''unmanaged'', c_AuthProvider = ''local'', c_TOTPSecretEncrypted = None,
     c_TOTPEnabled = False, c_TOTPBackupCodesHash = [], c_TOTPBackupCodesShown = False,
     c_Status = CustomerStatusActive, c_CreatedAt = 1, c_UpdatedAt = 1\<rparr>"

definition ex_accounts :: auth_db where
  "ex_accounts = \<lparr>faults = [], next_id = 0, gen_uuid = (\<lambda>k. replicate k CHR ''u''), clock = 1000,
     customers = [ex_customer, ex_customer\<lparr>c_ID := ''c2'', c_Email := ''b@x.org'',
       c_TOTPSecretEncrypted := Some ''123456'', c_TOTPEnabled := True\<rparr>],
     admins = [], sessions = [\<lparr>se_ID = ''s1'', se_UserID = ''c1'', se_UserType = ''customer'',
       se_RefreshTokenHash = ''#tok'', se_IPAddress = None, se_UserAgent = None, se_ExpiresAt = 2000,
       se_LastReauthAt = None, se_CreatedAt = 1\<rparr>],
     failed_logins = [], resets = [], email_tokens = [], valid_inet = (\<lambda>_. True)\<rparr>"

lemma ex_parts [simp]:
  "compare_hash ex_auth_lib p h = Inr (h = ''#'' @ p)" "HashSHA256 ex_auth_lib x = ''#'' @ x"
  "random_token ex_auth_lib k = Inr (replicate k CHR ''r'')" "decrypt ex_auth_lib x = Inr x"
  "totp_validate ex_auth_lib n code key now = Inr (code = key)" "jwt_sign (au_jwt ex_auth_lib) x c = Inr (cl_ID c)"
  "jwt_verify (au_jwt ex_auth_lib) x ''challenge'' = Some ex_challenge" "cfg_Issuer (authConfig ex_auth_lib) = ''virtuestack''"
  "faults ex_accounts = []" "next_id ex_accounts = 0" "gen_uuid ex_accounts k = replicate k CHR ''u''" "clock ex_accounts = 1000"
  "failed_logins ex_accounts = []" "valid_inet ex_accounts = (\<lambda>_. True)"
  by (simp_all add: ex_auth_lib_def ex_accounts_def)

lemma bind_run: "m s = (Inr x, s1) \<Longrightarrow> bind_db m f s = f x s1"
  by (simp add: bind_db_def)

lemmas ex_steps = bind_run return_db_def lift_db_def log_error_def auto_stmt_no_faults table_find_run table_select_run
  table_insert_def table_delete_def table_write_def put_failed_def failed_violation_def put_sessions_def session_violation_def
  session_row_def new_uuid_def draw_def

lemma ex_session:
  "userID \<in> {''c1'', ''c2''} \<Longrightarrow> s \<in> {ex_accounts, ex_accounts\<lparr>failed_logins := []\<rparr>} \<Longrightarrow>
    \<not> isl (fst (bind_db (enforceCustomerSessionLimit userID) (\<lambda>_.
      createLoginSession ex_auth_lib userID ''customer'' '''' ''192.0.2.1'' ''ua'' CustomerRefreshTokenDuration) s))"
  by (auto simp: ex_steps enforceCustomerSessionLimit_def enforce_limit_def CountSessionsByUser_def MaxCustomerSessions_def
      createLoginSession_def GenerateAccessToken_def GenerateRefreshToken_def sign_claims_def new_session_def CreateSession_def
      ex_accounts_def [THEN arg_cong [where f = sessions], simplified])

lemma ex_logins:
  "\<not> isl (fst (Login ex_auth_lib ''a@x.org'' ''pw1'' ''192.0.2.1'' ''ua'' ex_accounts))"
  "\<not> isl (fst (Verify2FA ex_auth_lib ''challenge'' ''123456'' ''192.0.2.1'' ''ua'' ex_accounts))"
proof -
  have c: "customers ex_accounts = [ex_customer, ex_customer\<lparr>c_ID := ''c2'', c_Email := ''b@x.org'',
       c_TOTPSecretEncrypted := Some ''123456'', c_TOTPEnabled := True\<rparr>]" by (simp add: ex_accounts_def)
  show "\<not> isl (fst (Login ex_auth_lib ''a@x.org'' ''pw1'' ''192.0.2.1'' ''ua'' ex_accounts))"
    using ex_session [of "''c1''" "ex_accounts\<lparr>failed_logins := []\<rparr>"]
    by (simp add: Login_def checkLoginLockout_def checkLoginLockoutForType_def GetFailedLoginCount_def
        MaxFailedLoginAttempts_def verifyLoginCredentials_def customer_GetByEmail_def verifyPassword_def ClearFailedLogins_def
        needs_2fa_def c ex_customer_def CustomerStatusActive_def CustomerStatusDeleted_def ex_steps)
  show "\<not> isl (fst (Verify2FA ex_auth_lib ''challenge'' ''123456'' ''192.0.2.1'' ''ua'' ex_accounts))"
    using ex_session [of "''c2''" ex_accounts]
    by (simp add: Verify2FA_def ValidateTempToken_def parseAndValidateJWT_def tempTokenPurposeValue_def ex_challenge_def
        customer_GetByID_def not_deleted_def validateTOTPCode_def validate_totp_def c ex_customer_def
        CustomerStatusActive_def CustomerStatusDeleted_def ex_steps)
qed

lemma completed: "\<not> isl (fst p) \<Longrightarrow> \<exists>x y t. p = (Inr (x, y), t)"
  by (cases p; cases "fst p") auto

theorem session_requires_credentials_witness:
  "\<exists>refresh t refresh' t'.
     (\<exists>tokens. Login ex_auth_lib ''a@x.org'' ''pw1'' ''192.0.2.1'' ''ua'' ex_accounts = (Inr (tokens, refresh), t)) \<and>
     (\<exists>tokens. Verify2FA ex_auth_lib ''challenge'' ''123456'' ''192.0.2.1'' ''ua'' ex_accounts =
        (Inr (tokens, refresh'), t')) \<and>
     (\<exists>c\<in>set (customers ex_accounts). \<exists>h. c_Email c = ''a@x.org'' \<and> c_PasswordHash c = Some h \<and>
        compare_hash ex_auth_lib ''pw1'' h = Inr True) \<and>
     (\<exists>c\<in>set (customers ex_accounts). valid_challenge ex_auth_lib 1000 ''challenge'' ''customer'' (c_ID c) \<and>
        (\<exists>r\<in>set (sessions t'). se_UserID r = c_ID c \<and> se_RefreshTokenHash r = HashSHA256 ex_auth_lib refresh'))"
proof -
  obtain tokens refresh t tokens' refresh' t' where
    runs: "Login ex_auth_lib ''a@x.org'' ''pw1'' ''192.0.2.1'' ''ua'' ex_accounts = (Inr (tokens, refresh), t)"
      "Verify2FA ex_auth_lib ''challenge'' ''123456'' ''192.0.2.1'' ''ua'' ex_accounts = (Inr (tokens', refresh'), t')"
    using completed [OF ex_logins(1)] completed [OF ex_logins(2)] by blast
  have "clock ex_accounts = 1000" by (simp add: ex_accounts_def)
  then show ?thesis
    using runs session_requires_credentials [THEN conjunct1, rule_format, OF runs(1)]
      session_requires_credentials [THEN conjunct2, rule_format, OF runs(2)] by (metis (no_types))
qed

section \<open>Password resets\<close>

text \<open>C39. No password reset is ever stored. \<open>RequestPasswordReset\<close> leaves the tables as they are, and either
  fails or reports, with the empty token, that no customer has the address: the row \<open>CreatePasswordReset\<close>
  inserts names neither a customer nor an administrator in the columns that the constraint
  \<open>check_password_resets_one_owner\<close> requires exactly one of.\<close>

theorem reset_never_issued:
  "tables (snd (RequestPasswordReset lib email s)) = tables s \<and>
   ((\<exists>e. fst (RequestPasswordReset lib email s) = Inl e) \<or>
    fst (RequestPasswordReset lib email s) = Inr '''' \<and>
      filter (\<lambda>c. c_Email c = email \<and> c_Status c \<noteq> CustomerStatusDeleted) (customers s) = [])"
proof -
  obtain r s1 where get: "customer_GetByEmail email s = (r, s1)" by (cases "customer_GetByEmail email s")
  have same: "tables s1 = tables s" using get table_find_reads unfolding customer_GetByEmail_def by (metis snd_conv)
  show ?thesis
  proof (cases r)
    case (Inl e)
    have "filter (\<lambda>c. c_Email c = email \<and> c_Status c \<noteq> CustomerStatusDeleted) (customers s) = []" if "e = ErrNotFound"
      using get [unfolded Inl that customer_GetByEmail_def table_find_def]
      by (cases rule: auto_stmt_cases)
        (auto simp: find_None_iff filter_empty_conv dest!: auth_tables_eqD(1) split: option.splits)
    then show ?thesis using get Inl same by (auto simp: RequestPasswordReset_def)
  next
    case (Inr c)
    obtain x s2 where draw: "draw (random_token lib) s1 = (x, s2)" by (cases "draw (random_token lib) s1")
    have s2: "tables s2 = tables s" using draw same draw_reads [of "random_token lib" s1] by simp
    have "tables (snd (CreatePasswordReset reset s2)) = tables s" for reset using CreatePasswordReset_refused s2 by metis
    moreover have "\<exists>e. fst (CreatePasswordReset reset s2) = Inl e" for reset using CreatePasswordReset_refused by metis
    ultimately have "tables (snd (bind_db (CreatePasswordReset reset) f s2)) = tables s \<and>
        (\<exists>e. fst (bind_db (CreatePasswordReset reset) f s2) = Inl e)" for reset and f :: "unit \<Rightarrow> ('a auth_db_scheme, string) db_op"
      by (auto simp: bind_db_def split: prod.split sum.split) (metis fst_conv snd_conv sum.distinct(1))+
    then show ?thesis using get Inr draw s2
      by (cases x) (simp_all add: RequestPasswordReset_def bind_db_def [of "draw (random_token lib)"])
  qed
qed

end
