(* ===== verification/Auth_Sessions.thy ===== *)
theory Auth_Sessions
  imports Auth_Service
begin

text \<open>
  Histories of the authentication service and what survives them. The locale \<open>stable\<close> states which
  predicates of the state a database connection cannot break by itself (losing replies, rolling back,
  drawing identifiers) and derives, once, that they are kept by everything built from statements,
  transactions and draws that keep them; it is interpreted on the predicate of a retired refresh
  token.
\<close>

section \<open>Predicates the connection cannot break\<close>

locale stable =
  fixes I :: "'r db_env_scheme \<Rightarrow> bool"
  assumes stable_pop: "I s \<Longrightarrow> I (pop_fault s)"
    and stable_rollback: "I s0 \<Longrightarrow> I s1 \<Longrightarrow> I (rollback s0 s1)"
    and stable_next: "I s \<Longrightarrow> I (s\<lparr>next_id := Suc (next_id s)\<rparr>)"
begin

lemma keep_bind:
  assumes "I s" "\<And>s. I s \<Longrightarrow> I (snd (m s))" "\<And>x s. I s \<Longrightarrow> I (snd (f x s))"
  shows "I (snd (bind_db m f s))"
  by (rule bind_keeps [where P = I]) (use assms in blast)+

lemma keep_auto: "I s \<Longrightarrow> (\<And>s. I s \<Longrightarrow> I (snd (f s))) \<Longrightarrow> I (snd (auto_stmt f s))"
  using stable_pop by (simp add: auto_stmt_def Let_def split: fault.split)

lemma keep_tx: "I s \<Longrightarrow> (\<And>s. I s \<Longrightarrow> I (snd (f s))) \<Longrightarrow> I (snd (tx_stmt f s))"
  using stable_pop by (simp add: tx_stmt_def Let_def split: fault.split)

lemma keep_transaction:
  assumes "I s" "\<And>s. I s \<Longrightarrow> I (snd (body s))"
  shows "I (snd (transaction body s))"
proof -
  have s0: "I (pop_fault s)" using assms(1) by (rule stable_pop)
  obtain r s1 where b: "body (pop_fault s) = (r, s1)" by (cases "body (pop_fault s)")
  have s1: "I s1" using assms(2) [OF s0] b by simp
  show ?thesis using b s0 s1 stable_pop [OF s1] stable_rollback [OF s0 s1] stable_rollback [OF s0 stable_pop [OF s1]]
    by (auto simp: transaction_def Let_def split: fault.split sum.split tx_end.split)
qed

lemma keep_write: "I s \<Longrightarrow> I (put rows s) \<Longrightarrow> I (snd (table_write put bad rows x s))"
  by (simp add: table_write_def split: option.split)

lemma keep_update:
  "I s \<Longrightarrow> (\<And>s. I s \<Longrightarrow> I (put (updated_rows P f (clock s) (get s)) s)) \<Longrightarrow> I (snd (table_update get put bad P f s))"
  unfolding table_update_def by (rule keep_auto) (auto intro: keep_write)

lemma keep_delete:
  "I s \<Longrightarrow> (\<And>s. I s \<Longrightarrow> I (put (filter (\<lambda>r. \<not> P r) (get s)) s)) \<Longrightarrow> I (snd (table_delete get put bad P s))"
  unfolding table_delete_def by (rule keep_auto) (auto intro: keep_write)

lemma keep_insert:
  "I s \<Longrightarrow> (\<And>s. I s \<Longrightarrow> I (put (get s @ [mk (clock s)]) s)) \<Longrightarrow> I (snd (table_insert get put bad mk s))"
  unfolding table_insert_def by (rule keep_auto) (auto intro: keep_write)

lemma keep_find: "I s \<Longrightarrow> I (snd (table_find get P s))"
  unfolding table_find_def by (rule keep_auto) (auto split: option.split)

lemma keep_select: "I s \<Longrightarrow> I (snd (table_select get q s))"
  unfolding table_select_def by (rule keep_auto) auto

lemma keep_draw: "I s \<Longrightarrow> I (snd (draw src s))"
  using stable_next by (simp add: draw_def)

lemma keep_new_uuid: "I s \<Longrightarrow> I (snd (new_uuid s))"
  unfolding new_uuid_def by (rule keep_draw)

lemma keep_with_uuid: "I s \<Longrightarrow> (\<And>i s. I s \<Longrightarrow> I (snd (op i s))) \<Longrightarrow> I (snd (with_uuid op s))"
  using stable_next by (simp add: with_uuid_def)

lemma keep_affected: "I (snd (m s)) \<Longrightarrow> I (snd (require_affected e m s))"
  by (rule require_affected_keeps)

lemma keep_log: "I (snd (m s)) \<Longrightarrow> I (snd (log_error m s))"
  by (simp add: log_error_def)

lemma keep_pure: "I s \<Longrightarrow> I (snd (return_db x s))" "I s \<Longrightarrow> I (snd (throw_db e s))" "I s \<Longrightarrow> I (snd (lift_db r s))"
  by (simp_all add: return_db_def throw_db_def lift_db_def)

lemma keep_tokens:
  "I s \<Longrightarrow> I (snd (sign_claims jwt config mk s))"
  "I s \<Longrightarrow> I (snd (GenerateAccessToken jwt config u ty role d s))"
  "I s \<Longrightarrow> I (snd (GenerateTempToken jwt config u ty s))"
  "I s \<Longrightarrow> I (snd (GenerateRefreshToken lib s))"
  "I s \<Longrightarrow> I (snd (hashPassword lib pw s))"
proof -
  show sign: "I (snd (sign_claims jwt config mk s))" if "I s" for jwt config mk s
    unfolding sign_claims_def by (rule keep_bind [OF that keep_new_uuid]) simp_all
  show "I s \<Longrightarrow> I (snd (GenerateAccessToken jwt config u ty role d s))"
    "I s \<Longrightarrow> I (snd (GenerateTempToken jwt config u ty s))"
    unfolding GenerateAccessToken_def GenerateTempToken_def by (erule sign)+
  show "I s \<Longrightarrow> I (snd (GenerateRefreshToken lib s))" "I s \<Longrightarrow> I (snd (hashPassword lib pw s))"
    unfolding GenerateRefreshToken_def hashPassword_def by (erule keep_draw)+
qed

lemma keep_draw_codes: "I s \<Longrightarrow> I (snd (draw_codes lib n s))"
proof (induction n arbitrary: s)
  case (Suc n)
  show ?case unfolding draw_codes.simps
    by (intro keep_bind keep_draw Suc.IH Suc.prems) (simp_all add: keep_draw Suc.IH keep_pure)
qed (simp add: keep_pure)

lemmas keep_steps = keep_find keep_select keep_draw keep_new_uuid keep_log keep_pure keep_tokens keep_draw_codes

end

section \<open>Commands\<close>

datatype auth_cmd =
    ALogin string string string string
  | AVerify2FA string string string string
  | AAdminLogin string string
  | AAdminVerify2FA string string string string
  | ASSO string string string
  | ARefresh string string string
  | AFinishRefresh Session string string
  | ALogout string
  | ALogoutAll string string
  | AChangePassword string string string string
  | ARequestReset string
  | AResetPassword string string
  | AInitiate2FA string string
  | AEnable2FA string string
  | ADisable2FA string string
  | ARegenerate string
  | APermissions string "string list"
  | ACreateCustomer Customer
  | ACustomerStatus string string
  | ADeleteCustomer string
  | AUpdateProfile string ProfileUpdateParams
  | APurgeSessions
  | AReauth string int
  | AWait nat
  | AConnection "fault list"

text \<open>\<open>AFinishRefresh\<close> is the second half of a refresh whose session was read at any earlier time,
  \<open>AConnection\<close> gives the connection the faults to come.\<close>

fun exec_auth :: "auth_lib \<Rightarrow> auth_cmd \<Rightarrow> 'r auth_db_scheme \<Rightarrow> 'r auth_db_scheme" where
  "exec_auth lib (ALogin email pw ip ua) s = snd (Login lib email pw ip ua s)"
| "exec_auth lib (AVerify2FA tok code ip ua) s = snd (Verify2FA lib tok code ip ua s)"
| "exec_auth lib (AAdminLogin email pw) s = snd (AdminLogin lib email pw s)"
| "exec_auth lib (AAdminVerify2FA tok code ip ua) s = snd (AdminVerify2FA lib tok code ip ua s)"
| "exec_auth lib (ASSO c ip ua) s = snd (CreateCustomerSSOSession lib c ip ua s)"
| "exec_auth lib (ARefresh tok ip ua) s = snd (RefreshToken lib tok ip ua s)"
| "exec_auth lib (AFinishRefresh session ip ua) s = snd (finish_refresh lib session ip ua s)"
| "exec_auth lib (ALogout i) s = snd (Logout i s)"
| "exec_auth lib (ALogoutAll u ty) s = snd (LogoutAll u ty s)"
| "exec_auth lib (AChangePassword u old new ty) s = snd (ChangePassword lib u old new ty s)"
| "exec_auth lib (ARequestReset email) s = snd (RequestPasswordReset lib email s)"
| "exec_auth lib (AResetPassword tok pw) s = snd (ResetPassword lib tok pw s)"
| "exec_auth lib (AInitiate2FA c email) s = snd (Initiate2FA lib c email s)"
| "exec_auth lib (AEnable2FA c code) s = snd (Enable2FA lib c code s)"
| "exec_auth lib (ADisable2FA c pw) s = snd (Disable2FA lib c pw s)"
| "exec_auth lib (ARegenerate c) s = snd (RegenerateBackupCodes lib c s)"
| "exec_auth lib (APermissions a ps) s = snd (UpdateAdminPermissions a ps s)"
| "exec_auth lib (ACreateCustomer c) s = snd (customer_Create c s)"
| "exec_auth lib (ACustomerStatus c st) s = snd (customer_UpdateStatus c st s)"
| "exec_auth lib (ADeleteCustomer c) s = snd (customer_SoftDelete c s)"
| "exec_auth lib (AUpdateProfile c ps) s = snd (UpdateProfile c ps s)"
| "exec_auth lib APurgeSessions s = snd (DeleteExpiredSessions s)"
| "exec_auth lib (AReauth i at) s = snd (UpdateSessionLastReauthAt i at s)"
| "exec_auth lib (AWait n) s = s\<lparr>clock := clock s + int n\<rparr>"
| "exec_auth lib (AConnection fs) s = s\<lparr>faults := fs\<rparr>"

definition run_auth :: "auth_lib \<Rightarrow> auth_cmd list \<Rightarrow> 'r auth_db_scheme \<Rightarrow> 'r auth_db_scheme" where
  "run_auth lib cmds s = fold (exec_auth lib) cmds s"

section \<open>A retired refresh token\<close>

text \<open>No session has the hash or the identifier, and the identifiers are drawn from position \<open>n\<close> on.\<close>

definition retired :: "string \<Rightarrow> string \<Rightarrow> nat \<Rightarrow> (nat \<Rightarrow> string) \<Rightarrow> 'r auth_db_scheme \<Rightarrow> bool" where
  "retired h sid n ids s \<longleftrightarrow>
     list_all (\<lambda>r. se_RefreshTokenHash r \<noteq> h \<and> se_ID r \<noteq> sid) (sessions s) \<and> n \<le> next_id s \<and> gen_uuid s = ids"

interpretation rt: stable "retired h sid n ids :: 'r auth_db_scheme \<Rightarrow> bool" for h sid n ids
  by unfold_locales (simp_all add: retired_def pop_fault_def rollback_def)

lemma retired_put [simp]:
  "retired h sid n ids (put_customers cs s) = retired h sid n ids s"
  "retired h sid n ids (put_admins as s) = retired h sid n ids s"
  "retired h sid n ids (put_failed fs s) = retired h sid n ids s"
  "retired h sid n ids (put_resets rs s) = retired h sid n ids s"
  by (simp_all add: retired_def put_customers_def put_admins_def put_failed_def put_resets_def)

lemma retired_sessions:
  "retired h sid n ids (put_sessions rows s) \<longleftrightarrow>
     list_all (\<lambda>r. se_RefreshTokenHash r \<noteq> h \<and> se_ID r \<noteq> sid) rows \<and> n \<le> next_id s \<and> gen_uuid s = ids"
  by (simp add: retired_def put_sessions_def)

lemma retired_filter: "retired h sid n ids s \<Longrightarrow> retired h sid n ids (put_sessions (filter P (sessions s)) s)"
  unfolding retired_sessions by (auto simp: retired_def list_all_iff)

text \<open>The random source yields neither the hash nor the identifier again.\<close>

definition fresh_from :: "auth_lib \<Rightarrow> string \<Rightarrow> string \<Rightarrow> nat \<Rightarrow> (nat \<Rightarrow> string) \<Rightarrow> bool" where
  "fresh_from lib h sid n ids \<longleftrightarrow>
     (\<forall>k\<ge>n. ids k \<noteq> sid \<and> (\<forall>tok. random_token lib k = Inr tok \<longrightarrow> HashSHA256 lib tok \<noteq> h))"

lemma fresh_token:
  assumes "GenerateRefreshToken lib s = (Inr tok, t)" "retired h sid n ids s" "fresh_from lib h sid n ids"
  shows "HashSHA256 lib tok \<noteq> h"
  using assms by (auto simp: GenerateRefreshToken_def draw_def retired_def fresh_from_def)

lemma fresh_uuid:
  assumes "new_uuid s = (Inr i, t)" "retired h sid n ids s" "fresh_from lib h sid n ids"
  shows "i \<noteq> sid"
  using assms by (auto simp: new_uuid_def draw_def retired_def fresh_from_def)

text \<open>Every operation leaves a retired token retired.\<close>

lemma repo_retired:
  assumes "retired h sid n ids s"
  shows "retired h sid n ids (snd (customer_GetByID i s))" "retired h sid n ids (snd (customer_GetByEmail e s))"
    "retired h sid n ids (snd (admin_GetByID i s))" "retired h sid n ids (snd (admin_GetByEmail e s))"
    "retired h sid n ids (snd (RecordFailedLogin e s))" "retired h sid n ids (snd (ClearFailedLogins e s))"
    "retired h sid n ids (snd (GetFailedLoginCount e w s))" "retired h sid n ids (snd (CountSessionsByUser u ty s))"
    "retired h sid n ids (snd (customer_UpdateStatus i st s))" "retired h sid n ids (snd (customer_SoftDelete i s))"
    "retired h sid n ids (snd (customer_Create c s))" "retired h sid n ids (snd (UpdateCustomerPasswordHash i pw s))"
    "retired h sid n ids (snd (UpdateBackupCodes i codes s))" "retired h sid n ids (snd (UpdateTOTPEnabled i b sec codes s))"
    "retired h sid n ids (snd (UpdateBackupCodesWithShown i codes s))" "retired h sid n ids (snd (UpdatePasswordHash i pw s))"
    "retired h sid n ids (snd (admin_UpdateBackupCodes i codes s))" "retired h sid n ids (snd (UpdatePermissions i ps s))"
    "retired h sid n ids (snd (CreatePasswordReset pr s))" "retired h sid n ids (snd (GetPasswordResetByTokenHash e s))"
    "retired h sid n ids (snd (MarkPasswordResetUsed i s))" "retired h sid n ids (snd (GetSessionByRefreshToken e s))"
  unfolding customer_GetByID_def customer_GetByEmail_def admin_GetByID_def admin_GetByEmail_def RecordFailedLogin_def
    ClearFailedLogins_def GetFailedLoginCount_def CountSessionsByUser_def customer_UpdateStatus_def customer_SoftDelete_def
    customer_Create_def UpdateCustomerPasswordHash_def UpdateBackupCodes_def UpdateTOTPEnabled_def
    UpdateBackupCodesWithShown_def UpdatePasswordHash_def admin_UpdateBackupCodes_def UpdatePermissions_def set_admin_def
    CreatePasswordReset_def GetPasswordResetByTokenHash_def MarkPasswordResetUsed_def GetSessionByRefreshToken_def
  by (intro rt.keep_affected rt.keep_bind rt.keep_update rt.keep_delete rt.keep_insert rt.keep_find rt.keep_select
      rt.keep_with_uuid rt.keep_pure assms; simp)+

lemma session_ops_retired:
  assumes "retired h sid n ids s"
  shows "retired h sid n ids (snd (DeleteSession i s))" "retired h sid n ids (snd (DeleteSessionsByUser u ty s))"
    "retired h sid n ids (snd (DeleteExpiredSessions s))" "retired h sid n ids (snd (DeleteOldestSession u ty s))"
    "retired h sid n ids (snd (UpdateSessionLastReauthAt i at s))"
proof -
  show "retired h sid n ids (snd (DeleteSession i s))" "retired h sid n ids (snd (DeleteSessionsByUser u ty s))"
    "retired h sid n ids (snd (DeleteExpiredSessions s))"
    unfolding DeleteSession_def DeleteSessionsByUser_def DeleteExpiredSessions_def
    by (intro rt.keep_affected rt.keep_bind rt.keep_delete rt.keep_pure assms retired_filter; assumption)+
  show "retired h sid n ids (snd (DeleteOldestSession u ty s))" unfolding DeleteOldestSession_def
  proof (intro rt.keep_auto rt.keep_write assms)
    fix t :: "'a auth_db_scheme" assume t: "retired h sid n ids t"
    then show "retired h sid n ids (put_sessions (case oldest_session u ty (sessions t) of None \<Rightarrow> sessions t
        | Some old \<Rightarrow> filter (\<lambda>r. se_ID r \<noteq> se_ID old) (sessions t)) t)"
      using retired_filter [OF t, of "\<lambda>_. True"] retired_filter [OF t] by (auto split: option.split)
  qed
  show "retired h sid n ids (snd (UpdateSessionLastReauthAt i at s))" unfolding UpdateSessionLastReauthAt_def
  proof (intro rt.keep_affected rt.keep_update assms)
    fix t :: "'a auth_db_scheme" assume "retired h sid n ids t"
    then show "retired h sid n ids (put_sessions (updated_rows (\<lambda>r. se_ID r = i)
        (\<lambda>_ r. r\<lparr>se_LastReauthAt := Some at\<rparr>) (clock t) (sessions t)) t)"
      unfolding retired_sessions by (auto simp: retired_def list_all_iff updated_rows_def)
  qed
qed

lemma CreateSession_retired:
  assumes "retired h sid n ids s" "se_RefreshTokenHash session \<noteq> h" "se_ID session \<noteq> sid"
  shows "retired h sid n ids (snd (CreateSession session s))"
  unfolding CreateSession_def
proof (intro rt.keep_bind rt.keep_insert rt.keep_pure assms(1))
  fix t :: "'a auth_db_scheme" assume "retired h sid n ids t"
  then show "retired h sid n ids (put_sessions (sessions t @ [session_row session (clock t)]) t)"
    unfolding retired_sessions using assms(2,3) by (simp add: retired_def session_row_def)
qed

lemma RotateSession_retired:
  assumes "retired h sid n ids s" "se_RefreshTokenHash session \<noteq> h" "se_ID session \<noteq> sid"
  shows "retired h sid n ids (snd (RotateSession old session s))"
  unfolding RotateSession_def
proof (intro rt.keep_transaction rt.keep_bind rt.keep_tx rt.keep_write assms(1))
  fix t :: "'a auth_db_scheme" assume t: "retired h sid n ids t"
  show "retired h sid n ids (put_sessions (filter (\<lambda>r. se_ID r \<noteq> old) (sessions t)) t)" using t by (rule retired_filter)
  have "retired h sid n ids (put_sessions (sessions u @ [session_row session (clock u)]) u)" if "retired h sid n ids u"
    for u :: "'a auth_db_scheme"
    using that assms(2,3) unfolding retired_sessions by (simp add: retired_def session_row_def)
  then show "retired h sid n ids (snd ((if k \<noteq> 1 then throw_db ErrNoRowsAffected
      else bind_db (tx_stmt (\<lambda>s. table_write put_sessions session_violation
             (sessions s @ [session_row session (clock s)]) () s)) (\<lambda>_. return_db (Commit ()))) t))" for k
    using t by (auto intro: rt.keep_bind rt.keep_tx rt.keep_write rt.keep_pure)
qed

lemma createLoginSession_retired:
  assumes "retired h sid n ids s" "fresh_from lib h sid n ids"
  shows "retired h sid n ids (snd (createLoginSession lib u ty role ip ua d s))"
proof -
  have step: "retired h sid n ids (snd (bind_db (GenerateRefreshToken lib) (\<lambda>tok. bind_db new_uuid (\<lambda>i s.
      bind_db (CreateSession (new_session lib i u ty tok ip ua (clock s + d))) (\<lambda>_. return_db (f tok)) s)) t))"
    if t: "retired h sid n ids t" for t :: "'a auth_db_scheme" and f :: "string \<Rightarrow> AuthTokens \<times> string"
  proof (cases "GenerateRefreshToken lib t")
    case (Pair r t1)
    have t1: "retired h sid n ids t1" using rt.keep_tokens(4) [OF t, of lib] Pair by simp
    show ?thesis
    proof (cases r)
      case (Inr tok)
      have tok: "HashSHA256 lib tok \<noteq> h" using fresh_token [OF Pair [unfolded Inr] t assms(2)] .
      obtain i t2 where i: "new_uuid t1 = (Inr i, t2)" by (simp add: new_uuid_def draw_def)
      have "retired h sid n ids t2" using rt.keep_new_uuid [OF t1] i by simp
      moreover have "i \<noteq> sid" using fresh_uuid [OF i t1 assms(2)] .
      ultimately show ?thesis using Pair Inr i tok
        by (auto simp: bind_db_def [of "GenerateRefreshToken lib"] bind_db_def [of new_uuid] new_session_def
            intro!: rt.keep_bind CreateSession_retired rt.keep_pure)
    qed (use Pair t1 in \<open>simp add: bind_db_def\<close>)
  qed
  show ?thesis unfolding createLoginSession_def by (rule rt.keep_bind [OF assms(1) rt.keep_tokens(2) step])
qed

lemma finish_refresh_retired:
  assumes "retired h sid n ids s" "fresh_from lib h sid n ids"
  shows "retired h sid n ids (snd (finish_refresh lib session ip ua s))"
proof -
  have step: "retired h sid n ids (snd (bind_db (GenerateRefreshToken lib) (\<lambda>tok. bind_db new_uuid (\<lambda>i s.
      case RotateSession (se_ID session) (new_session lib i u ty tok ip ua (clock s + d)) s of
        (Inl e, s1) \<Rightarrow> (Inl (g e), s1) | (Inr _, s1) \<Rightarrow> (Inr (f tok), s1))) t))"
    if t: "retired h sid n ids t" for t :: "'a auth_db_scheme" and f :: "string \<Rightarrow> AuthTokens \<times> string" and g u ty d
  proof (cases "GenerateRefreshToken lib t")
    case (Pair r t1)
    have t1: "retired h sid n ids t1" using rt.keep_tokens(4) [OF t, of lib] Pair by simp
    show ?thesis
    proof (cases r)
      case (Inr tok)
      have tok: "HashSHA256 lib tok \<noteq> h" using fresh_token [OF Pair [unfolded Inr] t assms(2)] .
      obtain i t2 where i: "new_uuid t1 = (Inr i, t2)" by (simp add: new_uuid_def draw_def)
      have "retired h sid n ids t2" using rt.keep_new_uuid [OF t1] i by simp
      moreover have "i \<noteq> sid" using fresh_uuid [OF i t1 assms(2)] .
      ultimately have "retired h sid n ids (snd (RotateSession (se_ID session)
          (new_session lib i u ty tok ip ua (clock t2 + d)) t2))"
        using tok by (intro RotateSession_retired) (simp_all add: new_session_def)
      then show ?thesis using Pair Inr i
        by (auto simp: bind_db_def split: prod.split sum.split)
    qed (use Pair t1 in \<open>simp add: bind_db_def\<close>)
  qed
  show ?thesis unfolding finish_refresh_def
    by (intro rt.keep_bind [OF assms(1)])
      (auto intro!: rt.keep_bind rt.keep_pure rt.keep_tokens step repo_retired split: prod.split)
qed

lemma refuse_retired: "retired h sid n ids s \<Longrightarrow> retired h sid n ids (snd (refuse_login key s))"
  unfolding refuse_login_def by (intro rt.keep_bind rt.keep_log rt.keep_pure repo_retired)

lemma login_steps_retired:
  assumes "retired h sid n ids s"
  shows "retired h sid n ids (snd (checkLoginLockoutForType email ty s))"
    "retired h sid n ids (snd (refuse_login key s))"
    "retired h sid n ids (snd (build2FAChallenge lib u ty s))"
    "retired h sid n ids (snd (enforce_limit k u ty s))"
    "retired h sid n ids (snd (validate_totp lib skew sec code s))"
    "retired h sid n ids (snd (verifyLoginCredentials lib email pw s))"
    "retired h sid n ids (snd (verifyAdminCredentials lib email pw s))"
    "retired h sid n ids (snd (set_password u ty pw s))"
    "retired h sid n ids (snd (current_hash u ty s))"
proof -
  show "retired h sid n ids (snd (refuse_login key s))" by (rule refuse_retired [OF assms])
  show "retired h sid n ids (snd (checkLoginLockoutForType email ty s))"
    unfolding checkLoginLockoutForType_def using assms
    by (intro rt.keep_bind repo_retired) (auto intro: rt.keep_pure)
  show "retired h sid n ids (snd (build2FAChallenge lib u ty s))"
    unfolding build2FAChallenge_def using assms by (intro rt.keep_bind rt.keep_tokens rt.keep_pure)
  show "retired h sid n ids (snd (enforce_limit k u ty s))"
    unfolding enforce_limit_def using assms
    by (intro rt.keep_log rt.keep_bind repo_retired) (auto intro: rt.keep_pure session_ops_retired)
  show "retired h sid n ids (snd (validate_totp lib skew sec code s))"
    using assms by (simp add: validate_totp_def)
  have match: "retired h sid n ids (snd (bind_db (lift_db v) (\<lambda>m. if \<not> m then refuse_login key else return_db x) t))"
    if "retired h sid n ids t" for v key x and t :: "'a auth_db_scheme"
    using that by (intro rt.keep_bind rt.keep_pure) (auto intro: refuse_retired rt.keep_pure)
  show "retired h sid n ids (snd (verifyLoginCredentials lib email pw s))"
    using repo_retired(2) [OF assms, of email]
    by (auto simp: verifyLoginCredentials_def refuse_retired match split: prod.split sum.split option.split)
  show "retired h sid n ids (snd (verifyAdminCredentials lib email pw s))"
    using repo_retired(4) [OF assms, of email]
    by (auto simp: verifyAdminCredentials_def refuse_retired match split: prod.split sum.split)
  show "retired h sid n ids (snd (set_password u ty pw s))"
    unfolding set_password_def using assms by (auto intro: repo_retired rt.keep_pure)
  show "retired h sid n ids (snd (current_hash u ty s))"
    unfolding current_hash_def using assms
    by (auto intro!: rt.keep_bind repo_retired rt.keep_pure split: option.split)
qed

lemma code_retired:
  assumes "retired h sid n ids s" "\<And>i codes s. retired h sid n ids s \<Longrightarrow> retired h sid n ids (snd (upd i codes s))"
  shows "retired h sid n ids (snd (consumeBackupCode lib i code codes upd s))"
  unfolding consumeBackupCode_def using assms
  by (auto intro!: rt.keep_bind rt.keep_log rt.keep_pure split: option.split)

lemma Login_retired:
  assumes "retired h sid n ids s" "fresh_from lib h sid n ids"
  shows "retired h sid n ids (snd (Login lib email pw ip ua s))"
  unfolding Login_def checkLoginLockout_def enforceCustomerSessionLimit_def using assms
  by (intro rt.keep_bind rt.keep_log login_steps_retired repo_retired)
    (auto intro!: rt.keep_bind rt.keep_pure login_steps_retired createLoginSession_retired)

lemma Verify2FA_retired:
  assumes "retired h sid n ids s" "fresh_from lib h sid n ids"
  shows "retired h sid n ids (snd (Verify2FA lib tok code ip ua s))"
    "retired h sid n ids (snd (AdminVerify2FA lib tok code ip ua s))"
  unfolding Verify2FA_def AdminVerify2FA_def enforceCustomerSessionLimit_def enforceAdminSessionLimit_def
    validateTOTPCode_def validateTOTPCodeStrict_def using assms
  by (auto intro!: rt.keep_bind rt.keep_pure login_steps_retired createLoginSession_retired repo_retired code_retired
      split: sum.split option.split)

lemma RefreshToken_retired:
  assumes "retired h sid n ids s" "fresh_from lib h sid n ids"
  shows "retired h sid n ids (snd (RefreshToken lib tok ip ua s))"
proof -
  obtain r s1 where get: "GetSessionByRefreshToken (HashSHA256 lib tok) s = (r, s1)"
    by (cases "GetSessionByRefreshToken (HashSHA256 lib tok) s")
  have s1: "retired h sid n ids s1" using repo_retired(22) [OF assms(1), of "HashSHA256 lib tok"] get by simp
  show ?thesis using get s1 assms(2) finish_refresh_retired [OF s1 assms(2)]
    by (auto simp: RefreshToken_def split: sum.split
        intro!: rt.keep_bind rt.keep_log rt.keep_pure session_ops_retired)
qed

lemma passwords_retired:
  assumes "retired h sid n ids s"
  shows "retired h sid n ids (snd (ChangePassword lib u old new ty s))"
    "retired h sid n ids (snd (RequestPasswordReset lib email s))"
    "retired h sid n ids (snd (ResetPassword lib tok new s))"
    "retired h sid n ids (snd (Logout i s))"
proof -
  show "retired h sid n ids (snd (ChangePassword lib u old new ty s))"
    unfolding ChangePassword_def LogoutAll_def using assms
    by (auto intro!: rt.keep_bind rt.keep_log rt.keep_pure rt.keep_tokens login_steps_retired session_ops_retired)
  show "retired h sid n ids (snd (RequestPasswordReset lib email s))"
    using repo_retired(2) [OF assms, of email]
    by (auto simp: RequestPasswordReset_def split: prod.split sum.split
        intro!: rt.keep_bind rt.keep_draw rt.keep_pure repo_retired)
  show "retired h sid n ids (snd (ResetPassword lib tok new s))"
    using repo_retired(20) [OF assms, of "HashSHA256 lib tok"]
    by (auto simp: ResetPassword_def LogoutAll_def split: prod.split sum.split
        intro!: rt.keep_bind rt.keep_log rt.keep_pure rt.keep_tokens login_steps_retired repo_retired session_ops_retired)
  show "retired h sid n ids (snd (Logout i s))"
    using session_ops_retired(1) [OF assms, of i] by (auto simp: Logout_def split: prod.split sum.split)
qed

lemma factors_retired:
  assumes "retired h sid n ids s"
  shows "retired h sid n ids (snd (Initiate2FA lib c email s))" "retired h sid n ids (snd (Enable2FA lib c code s))"
    "retired h sid n ids (snd (Disable2FA lib c pw s))" "retired h sid n ids (snd (RegenerateBackupCodes lib c s))"
    "retired h sid n ids (snd (UpdateAdminPermissions a ps s))"
  unfolding Initiate2FA_def Enable2FA_def Disable2FA_def RegenerateBackupCodes_def UpdateAdminPermissions_def
    validateTOTPCode_def LogoutAll_def using assms
  by (auto intro!: rt.keep_bind rt.keep_log rt.keep_pure rt.keep_draw rt.keep_draw_codes login_steps_retired repo_retired
      session_ops_retired split: option.split prod.split)

lemma profile_retired:
  assumes "retired h sid n ids s"
  shows "retired h sid n ids (snd (UpdateProfile c ps s))"
proof -
  have "retired h sid n ids (snd (customer_Update cu t))" if "retired h sid n ids t" for cu and t :: "'a auth_db_scheme"
    unfolding customer_Update_def using that
    by (auto intro!: rt.keep_pure rt.keep_tx rt.keep_write split: option.split)
  then show ?thesis unfolding UpdateProfile_def using assms
    by (auto intro!: rt.keep_transaction rt.keep_bind rt.keep_tx rt.keep_pure split: option.split)
qed

lemma exec_retired:
  assumes "retired h sid n ids s" "fresh_from lib h sid n ids"
  shows "retired h sid n ids (exec_auth lib cmd s)"
proof (cases cmd)
  case (AAdminLogin email pw)
  have "retired h sid n ids (snd (AdminLogin lib email pw s))" unfolding AdminLogin_def using assms(1)
    by (intro rt.keep_bind rt.keep_log login_steps_retired repo_retired) (auto intro!: rt.keep_pure login_steps_retired)
  then show ?thesis using AAdminLogin by simp
next
  case (ASSO c ip ua)
  have "retired h sid n ids (snd (CreateCustomerSSOSession lib c ip ua s))"
    unfolding CreateCustomerSSOSession_def enforceCustomerSessionLimit_def using assms
    by (auto intro!: rt.keep_bind rt.keep_pure repo_retired login_steps_retired createLoginSession_retired)
  then show ?thesis using ASSO by simp
qed (use assms in \<open>simp_all add: Login_retired Verify2FA_retired RefreshToken_retired finish_refresh_retired passwords_retired
  factors_retired profile_retired repo_retired session_ops_retired LogoutAll_def, simp_all add: retired_def\<close>)

lemma run_retired:
  "retired h sid n ids s \<Longrightarrow> fresh_from lib h sid n ids \<Longrightarrow> retired h sid n ids (run_auth lib cmds s)"
  by (induction cmds arbitrary: s) (simp_all add: run_auth_def exec_retired)

section \<open>A refresh token is used once\<close>

definition drawn_from :: "nat \<Rightarrow> (nat \<Rightarrow> string) \<Rightarrow> 'r auth_db_scheme \<Rightarrow> bool" where
  "drawn_from n ids s \<longleftrightarrow> n \<le> next_id s \<and> gen_uuid s = ids"

interpretation dr: stable "drawn_from n ids :: 'r auth_db_scheme \<Rightarrow> bool" for n ids
  by unfold_locales (simp_all add: drawn_from_def pop_fault_def rollback_def)

lemma retired_iff:
  "retired h sid n ids s \<longleftrightarrow>
    list_all (\<lambda>r. se_RefreshTokenHash r \<noteq> h \<and> se_ID r \<noteq> sid) (sessions s) \<and> drawn_from n ids s"
  by (auto simp: retired_def drawn_from_def)

lemma RotateSession_drawn:
  assumes "drawn_from n ids s"
  shows "drawn_from n ids (snd (RotateSession old new s))"
  unfolding RotateSession_def using assms
  by (auto intro!: dr.keep_transaction dr.keep_bind dr.keep_tx dr.keep_write dr.keep_pure)
    (auto simp: drawn_from_def put_sessions_def)

lemma session_tables: "tables s = tables t \<Longrightarrow> sessions s = sessions t \<and> clock s = clock t"
  using clock_tables auth_tables_eqD(2) by metis

lemma RotateSession_Inr:
  assumes "RotateSession old new s = (Inr x, t)"
  shows "sessions t = filter (\<lambda>r. se_ID r \<noteq> old) (sessions s) @ [session_row new (clock s)] \<and>
    (\<exists>r\<in>set (sessions s). se_ID r = old)"
  using assms unfolding RotateSession_def
proof (cases rule: transaction_cases)
  case (committed x s0 s1)
  then obtain s2 where del: "tx_stmt (\<lambda>s. table_write put_sessions session_violation
        (filter (\<lambda>r. se_ID r \<noteq> old) (sessions s)) (length (filter (\<lambda>r. se_ID r = old) (sessions s))) s) s0 = (Inr 1, s2)"
    and ins: "tx_stmt (\<lambda>s. table_write put_sessions session_violation
        (sessions s @ [session_row new (clock s)]) () s) s2 = (Inr (), s1)"
    by (auto simp: return_db_def throw_db_def split: if_splits)
  have s2: "sessions s2 = filter (\<lambda>r. se_ID r \<noteq> old) (sessions s) \<and> clock s2 = clock s \<and>
    length (filter (\<lambda>r. se_ID r = old) (sessions s)) = 1"
    using del session_tables [OF committed(1)]
    by (cases rule: tx_stmt_cases)
      (auto simp: table_write_def put_sessions_def dest!: session_tables split: option.splits)
  have "sessions s1 = sessions s2 @ [session_row new (clock s2)]"
    using ins by (cases rule: tx_stmt_cases)
      (auto simp: table_write_def put_sessions_def dest!: session_tables split: option.splits)
  moreover have "sessions t = sessions s1" using committed(3) by (rule auth_tables_eqD(2))
  ultimately show ?thesis using s2
    by (metis (mono_tags, lifting) filter_empty_conv list.size(3) zero_neq_one)
qed (auto simp: return_db_def throw_db_def split: if_splits)

lemma finish_refresh_Inr:
  assumes run: "finish_refresh lib session ip ua s = (Inr x, t)" and from_n: "drawn_from n ids s"
  obtains u tok i d k where "RotateSession (se_ID session) (new_session lib i (se_UserID session) (se_UserType session)
      tok ip ua (clock u + d)) u = (Inr (), t)" "drawn_from n ids u" "tables u = tables s"
    "n \<le> k" "random_token lib k = Inr tok" "i = ids (Suc k)"
proof -
  define duration :: "'a auth_db_scheme \<Rightarrow> (error + int \<times> string) \<times> 'a auth_db_scheme" where "duration = (if se_UserType session = ''admin''
    then bind_db (admin_GetByID (se_UserID session)) (\<lambda>admin. return_db (AdminRefreshTokenDuration, a_Role admin))
    else return_db (CustomerRefreshTokenDuration, ''''))"
  from run [unfolded finish_refresh_def, folded duration_def]
  obtain d role access tok i s1 s2 s3 s4 where s1: "duration s = (Inr (d, role), s1)"
    and s2: "GenerateAccessToken (au_jwt lib) (authConfig lib) (se_UserID session) (se_UserType session) role
      AccessTokenDuration s1 = (Inr access, s2)"
    and s3: "GenerateRefreshToken lib s2 = (Inr tok, s3)" and s4: "new_uuid s3 = (Inr i, s4)"
    and rot: "RotateSession (se_ID session) (new_session lib i (se_UserID session) (se_UserType session) tok ip ua
      (clock s4 + d)) s4 = (Inr (), t)"
    by (auto split: prod.splits sum.splits)
  have "drawn_from n ids (snd (duration s))" unfolding duration_def admin_GetByID_def using from_n
    by (auto intro!: dr.keep_bind dr.keep_pure dr.keep_find)
  moreover have "tables (snd (duration s)) = tables s" unfolding duration_def admin_GetByID_def
    by (auto intro!: bind_reads simp: return_db_def)
  ultimately have t1: "drawn_from n ids s1 \<and> tables s1 = tables s" using s1 by simp
  have t2: "drawn_from n ids s2 \<and> tables s2 = tables s"
    using dr.keep_tokens(2) token_reads(1) s2 t1 by (metis snd_conv)
  have draws: "random_token lib (next_id s2) = Inr tok" "i = ids (Suc (next_id s2))" "n \<le> next_id s2"
    "drawn_from n ids s4" "tables s4 = tables s"
    using s3 s4 t2 by (auto simp: GenerateRefreshToken_def new_uuid_def draw_def drawn_from_def)
  show thesis by (rule that [OF rot draws(4,5,3,1,2)])
qed

text \<open>A completed rotation retires the session it was given, and neither half of a refresh succeeds on a
  retired token.\<close>

lemma finish_refresh_retires:
  assumes run: "finish_refresh lib session ip ua s = (Inr x, t)"
    and fresh: "fresh_from lib h (se_ID session) n ids" and from_n: "drawn_from n ids s"
    and only: "\<And>r. r \<in> set (sessions s) \<Longrightarrow> se_RefreshTokenHash r = h \<Longrightarrow> se_ID r = se_ID session"
  shows "retired h (se_ID session) n ids t"
proof -
  obtain u tok i d k where rot: "RotateSession (se_ID session) (new_session lib i (se_UserID session)
      (se_UserType session) tok ip ua (clock u + d)) u = (Inr (), t)"
    and u: "drawn_from n ids u" "tables u = tables s"
    and k: "n \<le> k" "random_token lib k = Inr tok" "i = ids (Suc k)"
    using run from_n by (rule finish_refresh_Inr)
  have new: "HashSHA256 lib tok \<noteq> h" "i \<noteq> se_ID session"
    using fresh k by (auto simp: fresh_from_def)
  have "drawn_from n ids t" using RotateSession_drawn u(1) rot by (metis snd_conv)
  then show ?thesis using RotateSession_Inr [OF rot] new only auth_tables_eqD(2) [OF u(2)]
    by (auto simp: retired_iff list_all_iff session_row_def new_session_def)
qed

lemma retired_refused:
  assumes "retired h sid n ids s"
  shows "HashSHA256 lib tok = h \<Longrightarrow> \<exists>e. fst (RefreshToken lib tok ip ua s) = Inl e"
    and "se_ID session = sid \<Longrightarrow> \<exists>e. fst (finish_refresh lib session ip ua s) = Inl e"
proof -
  assume h: "HashSHA256 lib tok = h"
  obtain r s1 where get: "GetSessionByRefreshToken h s = (r, s1)" by (cases "GetSessionByRefreshToken h s")
  have "\<exists>e. r = Inl e" using get [unfolded GetSessionByRefreshToken_def table_find_def]
  proof (cases rule: auto_stmt_cases)
    case (2 s2)
    then have "find (\<lambda>r. se_RefreshTokenHash r = h) (sessions s2) = None"
      using assms auth_tables_eqD(2) [OF 2(1)] by (auto simp: retired_def list_all_iff find_None_iff)
    then show ?thesis using 2(2) by auto
  qed simp_all
  then show "\<exists>e. fst (RefreshToken lib tok ip ua s) = Inl e" using get h by (auto simp: RefreshToken_def)
next
  assume sid: "se_ID session = sid"
  obtain r t where run: "finish_refresh lib session ip ua s = (r, t)" by (cases "finish_refresh lib session ip ua s")
  have "\<exists>e. r = Inl e"
  proof (cases r)
    case (Inr x)
    have "drawn_from n ids s" using assms by (simp add: retired_iff)
    with run [unfolded Inr] obtain u new where "RotateSession sid new u = (Inr (), t)" "tables u = tables s"
      using sid by (blast elim: finish_refresh_Inr)
    then have "\<exists>r\<in>set (sessions s). se_ID r = sid" using RotateSession_Inr auth_tables_eqD(2) by metis
    then show ?thesis using assms by (auto simp: retired_def list_all_iff)
  qed simp
  then show "\<exists>e. fst (finish_refresh lib session ip ua s) = Inl e" using run by simp
qed

text \<open>C37. A refresh token works once. After a refresh with it has succeeded, no sequence of operations of
  the service, with any connection faults in between, makes a second one succeed: neither a new
  \<open>RefreshToken\<close> with the same token nor the second half of one that had read the session before it
  was rotated, as two requests racing with the same token do. The rows with the token's hash are one
  session, and the random source does not draw that session's identifier or a token of the same hash
  again.\<close>

theorem refresh_single_use:
  assumes "RefreshToken lib tok ip ua s = (Inr issued, t)"
    and "list_all (\<lambda>r. se_RefreshTokenHash r = HashSHA256 lib tok \<longrightarrow> se_ID r = sid) (sessions s)"
    and "fresh_from lib (HashSHA256 lib tok) sid (next_id s) (gen_uuid s)"
  shows "(\<exists>e. fst (RefreshToken lib tok ip' ua' (run_auth lib cmds t)) = Inl e) \<and>
    (se_ID session = sid \<longrightarrow> (\<exists>e. fst (finish_refresh lib session ip' ua' (run_auth lib cmds t)) = Inl e))"
proof -
  obtain row s1 where get: "GetSessionByRefreshToken (HashSHA256 lib tok) s = (Inr row, s1)"
    and rest: "finish_refresh lib row ip ua s1 = (Inr issued, t)"
    using assms(1) by (auto simp: RefreshToken_def throw_db_def split: prod.splits sum.splits if_splits elim!: bind_db_Inr)
  have row: "row \<in> set (sessions s) \<and> se_RefreshTokenHash row = HashSHA256 lib tok \<and> sessions s1 = sessions s"
    using get [unfolded GetSessionByRefreshToken_def table_find_def]
    by (cases rule: auto_stmt_cases)
      (auto dest!: auth_tables_eqD(2) simp: find_Some_iff split: option.splits)
  have sid: "se_ID row = sid" using row assms(2) by (auto simp: list_all_iff)
  have "drawn_from (next_id s) (gen_uuid s) (snd (GetSessionByRefreshToken (HashSHA256 lib tok) s))"
    unfolding GetSessionByRefreshToken_def by (rule dr.keep_find) (simp add: drawn_from_def)
  then have "retired (HashSHA256 lib tok) sid (next_id s) (gen_uuid s) t"
    using finish_refresh_retires [OF rest] get sid row assms(2,3) by (auto simp: list_all_iff)
  from run_retired [OF this assms(3)] show ?thesis by (auto intro: retired_refused)
qed

text \<open>The token of the example's session, refreshed once, then raced and retried.\<close>

lemma ex_refresh: "\<not> isl (fst (RefreshToken ex_auth_lib ''tok'' ''192.0.2.1'' ''ua'' ex_accounts))"
proof -
  have "sessions ex_accounts = [\<lparr>se_ID = ''s1'', se_UserID = ''c1'', se_UserType = ''customer'',
       se_RefreshTokenHash = ''#tok'', se_IPAddress = None, se_UserAgent = None, se_ExpiresAt = 2000,
       se_LastReauthAt = None, se_CreatedAt = 1\<rparr>]" by (simp add: ex_accounts_def)
  then show ?thesis
    by (simp add: RefreshToken_def finish_refresh_def GetSessionByRefreshToken_def GenerateAccessToken_def
        GenerateRefreshToken_def sign_claims_def new_session_def RotateSession_def transaction_def tx_stmt_def next_fault_def
        pop_fault_def ex_steps)
qed

theorem refresh_single_use_witness:
  "\<exists>issued t. RefreshToken ex_auth_lib ''tok'' ''192.0.2.1'' ''ua'' ex_accounts = (Inr issued, t) \<and>
     (\<exists>e. fst (RefreshToken ex_auth_lib ''tok'' ''192.0.2.2'' ''ua''
        (run_auth ex_auth_lib [ARefresh ''tok'' ''192.0.2.3'' ''ua'', AConnection [NoFault, ReplyLost], AWait 5] t)) = Inl e)"
proof -
  obtain x y t where t: "RefreshToken ex_auth_lib ''tok'' ''192.0.2.1'' ''ua'' ex_accounts = (Inr (x, y), t)"
    using completed [OF ex_refresh] by blast
  have one: "list_all (\<lambda>r. se_RefreshTokenHash r = HashSHA256 ex_auth_lib ''tok'' \<longrightarrow> se_ID r = ''s1'') (sessions ex_accounts)"
    by (simp add: ex_accounts_def)
  have "replicate k CHR ''r'' \<noteq> ''tok''" "replicate k CHR ''u'' \<noteq> ''s1''" for k
    by (cases k; simp)+
  then have "fresh_from ex_auth_lib (HashSHA256 ex_auth_lib ''tok'') ''s1'' (next_id ex_accounts) (gen_uuid ex_accounts)"
    by (simp add: fresh_from_def)
  with t one show ?thesis by (blast dest: refresh_single_use)
qed

end
