(* ===== verification/Rate_Limit.thy ===== *)
theory Rate_Limit
  imports Auth_Tokens
begin

text \<open>
  Rate limiting: \<^verbatim>\<open>api/middleware/ratelimit.go\<close>. The in-memory limiter keeps, per key, the instants (in
  nanoseconds) of the requests it let through. A call reads the clock before it takes the mutex, so
  calls take effect in an order that can differ from that of their instants; a run is the sequence of
  calls in the order of the mutex, and \<open>skewed d\<close> says that no call is overtaken by more than \<open>d\<close>. The
  Redis limiter is the Lua script run on sorted sets; what the server does between scripts is to drop
  expired keys.
\<close>

section \<open>The limiter in memory\<close>

record RateLimitConfig =
  Requests :: int
  Window :: int

definition pruneOlderThan :: "int list \<Rightarrow> int \<Rightarrow> int list" where
  "pruneOlderThan ts cutoff = dropWhile (\<lambda>t. t < cutoff) ts"

type_synonym windows = "string \<rightharpoonup> int list"

definition timestamps :: "windows \<Rightarrow> string \<Rightarrow> int list" where
  "timestamps st key = (case st key of None \<Rightarrow> [] | Some ts \<Rightarrow> ts)"

definition allow :: "RateLimitConfig \<Rightarrow> int \<Rightarrow> string \<Rightarrow> windows \<Rightarrow> (bool \<times> int \<times> int) \<times> windows" where
  "allow config now key st =
     (let cutoff = now - Window config;
          ts = pruneOlderThan (timestamps st key) cutoff;
          count = int (length ts);
          resetAt = (if count > 0 then hd ts + Window config else now + Window config) in
      if count \<ge> Requests config then ((False, 0, resetAt), st(key \<mapsto> ts))
      else ((True, Requests config - int (length (ts @ [now])), resetAt), st(key \<mapsto> ts @ [now])))"

definition removeExpired :: "RateLimitConfig \<Rightarrow> int \<Rightarrow> windows \<Rightarrow> windows" where
  "removeExpired config now st =
     (let cutoff = now - Window config in
      (\<lambda>key. case st key of
         None \<Rightarrow> None
       | Some ts \<Rightarrow> if ts = [] \<or> last ts < cutoff then None else Some ts))"

section \<open>The decision\<close>

text \<open>\<open>Retry-After\<close>: the seconds until the reset, cut off, and one more. The clock is read again.\<close>

definition nanos :: int where "nanos = 1000000000"

definition retryAfter :: "int \<Rightarrow> int \<Rightarrow> int" where
  "retryAfter now resetAt = (let d = resetAt - now in (if d \<ge> 0 then d div nanos else - ((- d) div nanos)) + 1)"

datatype limited = Pass | TooMany int

definition applyRateLimitDecision :: "int \<Rightarrow> bool \<times> int \<times> int \<Rightarrow> limited" where
  "applyRateLimitDecision now decision =
     (case decision of (allowed, remaining, resetAt) \<Rightarrow> if allowed then Pass else TooMany (retryAfter now resetAt))"

definition RateLimit :: "RateLimitConfig \<Rightarrow> int \<Rightarrow> int \<Rightarrow> string \<Rightarrow> windows \<Rightarrow> limited \<times> windows" where
  "RateLimit config now now' key st =
     (case allow config now key st of (decision, st') \<Rightarrow> (applyRateLimitDecision now' decision, st'))"

section \<open>Keys and configurations\<close>

definition keyByIP :: "http_request \<Rightarrow> string" where
  "keyByIP req = ''ip:'' @ hr_ClientIP req"

definition keyByUserID :: "gin_context \<Rightarrow> http_request \<Rightarrow> string" where
  "keyByUserID c req = (if GetUserID c \<noteq> '''' then ''user:'' @ GetUserID c else ''ip:'' @ hr_ClientIP req)"

definition keyByAPIKeyID :: "gin_context \<Rightarrow> http_request \<Rightarrow> string" where
  "keyByAPIKeyID c req =
     (if ctx_api_key_id c \<noteq> '''' then ''apikey:'' @ ctx_api_key_id c else ''ip:'' @ hr_ClientIP req)"

definition minute :: int where "minute = 60 * nanos"
definition hour :: int where "hour = 60 * minute"

definition LoginRateLimit :: RateLimitConfig where "LoginRateLimit = \<lparr>Requests = 5, Window = 15 * minute\<rparr>"
definition RefreshRateLimit :: RateLimitConfig where "RefreshRateLimit = \<lparr>Requests = 20, Window = minute\<rparr>"
definition PasswordChangeRateLimit :: RateLimitConfig where
  "PasswordChangeRateLimit = \<lparr>Requests = 5, Window = 15 * minute\<rparr>"
definition ProvisioningRateLimit :: RateLimitConfig where "ProvisioningRateLimit = \<lparr>Requests = 100, Window = minute\<rparr>"
definition CustomerReadRateLimit :: RateLimitConfig where "CustomerReadRateLimit = \<lparr>Requests = 100, Window = minute\<rparr>"
definition CustomerNotificationReadRateLimit :: RateLimitConfig where
  "CustomerNotificationReadRateLimit = \<lparr>Requests = 300, Window = minute\<rparr>"
definition CustomerWriteRateLimit :: RateLimitConfig where "CustomerWriteRateLimit = \<lparr>Requests = 30, Window = minute\<rparr>"
definition AdminRateLimit :: RateLimitConfig where "AdminRateLimit = \<lparr>Requests = 500, Window = minute\<rparr>"
definition RDNSUpdateRateLimit :: RateLimitConfig where "RDNSUpdateRateLimit = \<lparr>Requests = 10, Window = hour\<rparr>"
definition RegistrationRateLimit :: RateLimitConfig where "RegistrationRateLimit = \<lparr>Requests = 3, Window = hour\<rparr>"

definition GetIsAdmin :: "gin_context \<Rightarrow> bool" where
  "GetIsAdmin c \<longleftrightarrow> GetRole c = ''admin'' \<or> GetRole c = ''super_admin''"

definition GetRateLimitForUser :: "gin_context \<Rightarrow> RateLimitConfig \<Rightarrow> RateLimitConfig \<Rightarrow> RateLimitConfig" where
  "GetRateLimitForUser c customerConfig adminConfig = (if GetIsAdmin c then adminConfig else customerConfig)"

definition ValidateDistributedRateLimitConfiguration :: "bool \<Rightarrow> bool \<Rightarrow> error option" where
  "ValidateDistributedRateLimitConfiguration isProduction redisConfigured =
     (if isProduction \<and> \<not> redisConfigured then Some (ErrMsg ''distributed rate limiting requires REDIS_URL in production'')
      else None)"

text \<open>Reads, notification reads and writes of a customer count separately; other methods are not limited.\<close>

definition isCustomerNotificationReadPath :: "string \<Rightarrow> bool" where
  "isCustomerNotificationReadPath path \<longleftrightarrow>
     Contains path ''/customer/notifications'' \<and> \<not> HasSuffix path ''/stream''"

record customer_limits =
  cl_read :: windows
  cl_notifications :: windows
  cl_write :: windows

definition CustomerRateLimits ::
  "string \<Rightarrow> string \<Rightarrow> int \<Rightarrow> int \<Rightarrow> string \<Rightarrow> customer_limits \<Rightarrow> limited \<times> customer_limits" where
  "CustomerRateLimits meth path now now' key l =
     (if meth \<in> {''GET'', ''HEAD''} then
        if isCustomerNotificationReadPath path then
          (case RateLimit CustomerNotificationReadRateLimit now now' key (cl_notifications l) of
             (r, w) \<Rightarrow> (r, l\<lparr>cl_notifications := w\<rparr>))
        else (case RateLimit CustomerReadRateLimit now now' key (cl_read l) of (r, w) \<Rightarrow> (r, l\<lparr>cl_read := w\<rparr>))
      else if meth \<in> {''POST'', ''PUT'', ''PATCH'', ''DELETE''} then
        (case RateLimit CustomerWriteRateLimit now now' key (cl_write l) of (r, w) \<Rightarrow> (r, l\<lparr>cl_write := w\<rparr>))
      else (Pass, l))"

text \<open>The body of the request decodes to an address, or not.\<close>

definition passwordResetEmailKey :: "string option \<Rightarrow> string" where
  "passwordResetEmailKey decoded =
     (case decoded of
        None \<Rightarrow> ''email:unknown''
      | Some e \<Rightarrow> (let email = ToLower (TrimSpace e) in if email = '''' then ''email:unknown'' else ''email:'' @ email))"

definition reset_ip_config :: RateLimitConfig where "reset_ip_config = \<lparr>Requests = 10, Window = hour\<rparr>"
definition reset_email_config :: RateLimitConfig where "reset_email_config = \<lparr>Requests = 3, Window = hour\<rparr>"

definition PasswordResetRateLimit ::
  "string \<Rightarrow> string option \<Rightarrow> int \<Rightarrow> int \<Rightarrow> http_request \<Rightarrow> windows \<times> windows \<Rightarrow> limited \<times> windows \<times> windows" where
  "PasswordResetRateLimit path decoded now now' req w =
     (case RateLimit reset_ip_config now now' (keyByIP req) (fst w) of
        (TooMany n, ips) \<Rightarrow> (TooMany n, ips, snd w)
      | (Pass, ips) \<Rightarrow>
          if Contains path ''/forgot-password'' then
            (case RateLimit reset_email_config now now' (passwordResetEmailKey decoded) (snd w) of
               (r, emails) \<Rightarrow> (r, ips, emails))
          else (Pass, ips, snd w))"

section \<open>The limiter in Redis\<close>

text \<open>A sorted set with the score in milliseconds of each member, and the server's instant (in seconds)
  at which the key expires. \<open>ZADD\<close> of a member that is there replaces its score.\<close>

type_synonym zstore = "string \<rightharpoonup> (string \<times> int) list \<times> int"

definition live_key :: "int \<Rightarrow> zstore \<Rightarrow> string \<Rightarrow> (string \<times> int) list" where
  "live_key server_now z key =
     (case z key of None \<Rightarrow> [] | Some (members, expires) \<Rightarrow> if expires \<le> server_now then [] else members)"

definition zremrangebyscore :: "int \<Rightarrow> (string \<times> int) list \<Rightarrow> (string \<times> int) list" where
  "zremrangebyscore cutoff m = filter (\<lambda>(_, score). score > cutoff) m"

definition zadd :: "int \<Rightarrow> string \<Rightarrow> (string \<times> int) list \<Rightarrow> (string \<times> int) list" where
  "zadd score member m = (member, score) # filter (\<lambda>(k, _). k \<noteq> member) m"

definition slidingWindowScript ::
  "int \<Rightarrow> string \<Rightarrow> int \<Rightarrow> int \<Rightarrow> int \<Rightarrow> string \<Rightarrow> zstore \<Rightarrow> int \<times> zstore" where
  "slidingWindowScript server_now key now window limit member z =
     (let m = zremrangebyscore (now - window) (live_key server_now z key);
          count = int (length m) in
      if count < limit then
        (limit - count - 1, z(key \<mapsto> (zadd now member m, server_now + - ((- window) div 1000))))
      else (-1, case z key of None \<Rightarrow> z | Some (_, expires) \<Rightarrow> z(key \<mapsto> (m, expires))))"

text \<open>The member names the nanosecond twice. \<open>eval\<close> is what the client answers for the script: an
  error, or a reply that is a number or is not.\<close>

definition redis_member :: "int \<Rightarrow> string" where
  "redis_member now = print_int now @ '':'' @ print_int (now mod nanos)"

definition redis_Allow :: "RateLimitConfig \<Rightarrow> int \<Rightarrow> (error + int option) \<Rightarrow> bool \<times> int \<times> int" where
  "redis_Allow config now reply =
     (let resetAt = now + Window config in
      case reply of
        Inl _ \<Rightarrow> (False, 0, resetAt)
      | Inr None \<Rightarrow> (False, 0, resetAt)
      | Inr (Some remaining) \<Rightarrow> if remaining < 0 then (False, 0, resetAt) else (True, remaining, resetAt))"

definition redis_script :: "RateLimitConfig \<Rightarrow> string \<Rightarrow> int \<Rightarrow> int \<Rightarrow> string \<Rightarrow> zstore \<Rightarrow> int \<times> zstore" where
  "redis_script config pre server_now now key =
     slidingWindowScript server_now (pre @ key) (now div 1000000) (Window config div 1000000) (Requests config)
       (redis_member now)"

section \<open>Runs of the limiter in memory\<close>

datatype limiter_call = Allow string int | Cleanup int

fun call_time :: "limiter_call \<Rightarrow> int" where
  "call_time (Allow _ now) = now"
| "call_time (Cleanup now) = now"

text \<open>The requests let through, in the order of the mutex, and the state they leave.\<close>

fun limiter_step :: "RateLimitConfig \<Rightarrow> limiter_call \<Rightarrow> (string \<times> int) list \<times> windows \<Rightarrow> (string \<times> int) list \<times> windows" where
  "limiter_step config (Allow key now) (log, st) =
     (case allow config now key st of ((allowed, _), st') \<Rightarrow> (if allowed then log @ [(key, now)] else log, st'))"
| "limiter_step config (Cleanup now) (log, st) = (log, removeExpired config now st)"

definition run_limiter :: "RateLimitConfig \<Rightarrow> limiter_call list \<Rightarrow> (string \<times> int) list \<times> windows" where
  "run_limiter config calls = fold (limiter_step config) calls ([], Map.empty)"

definition skewed :: "int \<Rightarrow> limiter_call list \<Rightarrow> bool" where
  "skewed d calls \<longleftrightarrow> sorted_wrt (\<lambda>a b. call_time a \<le> call_time b + d) calls"

definition passed :: "string \<Rightarrow> (string \<times> int) list \<Rightarrow> int list" where
  "passed key log = map snd (filter (\<lambda>r. fst r = key) log)"

text \<open>What is stored of a key is the end of its accepted requests; what was dropped is too old for any
  window that a later request, overtaken by at most \<open>d\<close>, can lie in.\<close>

definition key_inv :: "RateLimitConfig \<Rightarrow> int \<Rightarrow> limiter_call list \<Rightarrow> int list \<Rightarrow> int list \<Rightarrow> bool" where
  "key_inv config d calls us ts \<longleftrightarrow>
     sorted_wrt (\<lambda>u v. u \<le> v + d) us \<and> set us \<subseteq> call_time ` set calls \<and>
     int (length ts) \<le> max 0 (Requests config) \<and>
     (\<exists>dropped. us = dropped @ ts \<and> (\<forall>u\<in>set dropped. \<exists>c\<in>set calls. u < call_time c - Window config + d))"

definition limiter_inv :: "RateLimitConfig \<Rightarrow> int \<Rightarrow> limiter_call list \<Rightarrow> (string \<times> int) list \<times> windows \<Rightarrow> bool" where
  "limiter_inv config d calls ls \<longleftrightarrow>
     (\<forall>key. key_inv config d calls (passed key (fst ls)) (timestamps (snd ls) key))"

lemma passed_append [simp]: "passed key (log @ [(k, u)]) = passed key log @ (if k = key then [u] else [])"
  by (simp add: passed_def)

lemma prune_parts:
  obtains old where "ts = old @ pruneOlderThan ts cutoff" "\<forall>u\<in>set old. u < cutoff"
proof
  show "ts = takeWhile (\<lambda>t. t < cutoff) ts @ pruneOlderThan ts cutoff" by (simp add: pruneOlderThan_def)
  show "\<forall>u\<in>set (takeWhile (\<lambda>t. t < cutoff) ts). u < cutoff" by (auto dest: set_takeWhileD)
qed

lemma timestamps_upd [simp]: "timestamps (st(key \<mapsto> ts)) k = (if k = key then ts else timestamps st k)"
  by (simp add: timestamps_def)

lemma timestamps_expired:
  "timestamps (removeExpired config now st) k =
     (if timestamps st k \<noteq> [] \<and> last (timestamps st k) < now - Window config then [] else timestamps st k)"
  by (simp add: timestamps_def removeExpired_def split: option.split)

lemma Allow_cases:
  obtains ts where "ts = pruneOlderThan (timestamps st key) (now - Window config)"
    "if int (length ts) < Requests config
     then limiter_step config (Allow key now) (log, st) = (log @ [(key, now)], st(key \<mapsto> ts @ [now]))
     else limiter_step config (Allow key now) (log, st) = (log, st(key \<mapsto> ts))"
  by (simp add: allow_def Let_def)

lemma limiter_inv_start: "limiter_inv config d [] ([], Map.empty)"
  by (simp add: limiter_inv_def key_inv_def passed_def timestamps_def)

lemma key_inv_drop:
  assumes "key_inv config d calls us (old @ ts)" and "\<forall>u\<in>set old. u < call_time c - Window config + d"
  shows "key_inv config d (calls @ [c]) us ts"
proof -
  from assms(1) obtain dropped where us: "us = dropped @ old @ ts"
    "\<forall>u\<in>set dropped. \<exists>c\<in>set calls. u < call_time c - Window config + d"
    unfolding key_inv_def by blast
  have "\<forall>u\<in>set (dropped @ old). \<exists>c'\<in>set (calls @ [c]). u < call_time c' - Window config + d"
    using us(2) assms(2) by auto
  moreover have "us = (dropped @ old) @ ts" using us(1) by simp
  ultimately have "\<exists>dropped. us = dropped @ ts \<and>
      (\<forall>u\<in>set dropped. \<exists>c'\<in>set (calls @ [c]). u < call_time c' - Window config + d)" by blast
  then show ?thesis using assms(1) unfolding key_inv_def by auto
qed

lemma key_inv_accept:
  assumes inv: "key_inv config d (calls @ [c]) us ts" and room: "int (length ts) < Requests config"
    and order: "\<And>c'. c' \<in> set calls \<Longrightarrow> call_time c' \<le> call_time c + d" and d: "0 \<le> d"
  shows "key_inv config d (calls @ [c]) (us @ [call_time c]) (ts @ [call_time c])"
proof -
  have "\<forall>u\<in>set us. u \<le> call_time c + d" using inv order d by (auto simp: key_inv_def)
  then show ?thesis using inv room by (auto simp: key_inv_def sorted_wrt_append)
qed

lemma limiter_inv_allow:
  assumes inv: "limiter_inv config d calls (log, st)" and d: "0 \<le> d"
    and order: "\<And>c. c \<in> set calls \<Longrightarrow> call_time c \<le> now + d"
  shows "limiter_inv config d (calls @ [Allow key now]) (limiter_step config (Allow key now) (log, st))"
proof -
  obtain ts where ts: "ts = pruneOlderThan (timestamps st key) (now - Window config)"
    and run: "if int (length ts) < Requests config
      then limiter_step config (Allow key now) (log, st) = (log @ [(key, now)], st(key \<mapsto> ts @ [now]))
      else limiter_step config (Allow key now) (log, st) = (log, st(key \<mapsto> ts))"
    by (rule Allow_cases)
  obtain old where old: "timestamps st key = old @ ts" "\<forall>u\<in>set old. u < now - Window config"
    using prune_parts ts by metis
  have stay: "key_inv config d (calls @ [Allow key now]) (passed k log) (if k = key then ts else timestamps st k)" for k
  proof (rule key_inv_drop)
    show "key_inv config d calls (passed k log) ((if k = key then old else []) @ (if k = key then ts else timestamps st k))"
      using inv old(1) [symmetric] by (auto simp: limiter_inv_def)
    show "\<forall>u\<in>set (if k = key then old else []). u < call_time (Allow key now) - Window config + d"
      using old(2) d by fastforce
  qed
  have "key_inv config d (calls @ [Allow key now]) (passed key log @ [now]) (ts @ [now])"
    if "int (length ts) < Requests config"
    using key_inv_accept [OF stay [of key, simplified] that _ d] order by simp
  moreover have "key_inv config d (calls @ [Allow key now]) (passed k log) (timestamps st k)" if "k \<noteq> key" for k
    using stay [of k] that by simp
  ultimately show ?thesis using run stay [of key] by (auto simp: limiter_inv_def split: if_splits)
qed

lemma skewed_last:
  assumes "sorted_wrt (\<lambda>u v. u \<le> v + d) ts" "u \<in> set ts" "0 \<le> (d :: int)"
  shows "u \<le> last ts + d"
  using assms by (cases ts rule: rev_cases) (auto simp: sorted_wrt_append)

lemma limiter_inv_cleanup:
  assumes inv: "limiter_inv config d calls (log, st)" and d: "0 \<le> d"
  shows "limiter_inv config d (calls @ [Cleanup now]) (limiter_step config (Cleanup now) (log, st))"
proof -
  have "key_inv config d (calls @ [Cleanup now]) (passed k log) (timestamps (removeExpired config now st) k)" for k
  proof -
    let ?ts = "timestamps st k" and ?kept = "timestamps (removeExpired config now st) k"
    have inv_k: "key_inv config d calls (passed k log) ?ts" using inv by (simp add: limiter_inv_def)
    then have "sorted_wrt (\<lambda>u v. u \<le> v + d) ?ts" by (auto simp: key_inv_def sorted_wrt_append)
    then have "\<forall>u\<in>set (if ?kept = [] then ?ts else []). u < call_time (Cleanup now) - Window config + d"
      using skewed_last [of d ?ts] d by (fastforce simp: timestamps_expired split: if_splits)
    moreover have "?ts = (if ?kept = [] then ?ts else []) @ ?kept" by (simp add: timestamps_expired)
    ultimately show ?thesis using key_inv_drop inv_k by metis
  qed
  then show ?thesis by (simp add: limiter_inv_def)
qed

lemma limiter_step_inv:
  assumes "limiter_inv config d calls ls" "0 \<le> d" "\<And>c'. c' \<in> set calls \<Longrightarrow> call_time c' \<le> call_time c + d"
  shows "limiter_inv config d (calls @ [c]) (limiter_step config c ls)"
  using assms by (cases c; cases ls) (auto simp del: limiter_step.simps intro!: limiter_inv_allow limiter_inv_cleanup)

lemma run_snoc: "run_limiter config (calls @ [c]) = limiter_step config c (run_limiter config calls)"
  by (simp add: run_limiter_def)

lemma skewed_snoc: "skewed d (calls @ [c]) \<longleftrightarrow> skewed d calls \<and> (\<forall>c'\<in>set calls. call_time c' \<le> call_time c + d)"
  by (simp add: skewed_def sorted_wrt_append)

lemma run_limiter_inv: "skewed d calls \<Longrightarrow> 0 \<le> d \<Longrightarrow> limiter_inv config d calls (run_limiter config calls)"
proof (induction calls rule: rev_induct)
  case Nil
  then show ?case using limiter_inv_start by (simp add: run_limiter_def)
next
  case (snoc c calls)
  then show ?case unfolding run_snoc skewed_snoc by (blast intro: limiter_step_inv)
qed

section \<open>The limit\<close>

definition within :: "string \<Rightarrow> int \<Rightarrow> int \<Rightarrow> (string \<times> int) list \<Rightarrow> nat" where
  "within key a b log = length (filter (\<lambda>u. a \<le> u \<and> u \<le> b) (passed key log))"

lemma key_inv_window:
  assumes inv: "key_inv config d calls us ts" and late: "\<And>c. c \<in> set calls \<Longrightarrow> call_time c - Window config + d \<le> a"
  shows "int (length (filter (\<lambda>u. a \<le> u \<and> u \<le> b) us)) \<le> max 0 (Requests config)"
proof -
  from inv obtain dropped where us: "us = dropped @ ts" "int (length ts) \<le> max 0 (Requests config)"
    "\<forall>u\<in>set dropped. \<exists>c\<in>set calls. u < call_time c - Window config + d"
    unfolding key_inv_def by blast
  have "filter (\<lambda>u. a \<le> u \<and> u \<le> b) dropped = []" using us(3) late by (fastforce simp: filter_empty_conv)
  then have "length (filter (\<lambda>u. a \<le> u \<and> u \<le> b) us) \<le> length ts" using us(1) by simp
  then show ?thesis using us(2) by linarith
qed

lemma window_bound:
  assumes "skewed d calls" "0 \<le> d" "b \<le> a + Window config - 2 * d"
  shows "int (within key a b (fst (run_limiter config calls))) \<le> max 0 (Requests config)"
  using assms(1)
proof (induction calls rule: rev_induct)
  case Nil
  show ?case by (simp add: run_limiter_def within_def passed_def)
next
  case (snoc c calls)
  let ?new = "passed key (fst (run_limiter config (calls @ [c])))"
  have prev: "int (within key a b (fst (run_limiter config calls))) \<le> max 0 (Requests config)"
    using snoc by (simp add: skewed_snoc)
  have steps: "?new = passed key (fst (run_limiter config calls)) \<or>
      ?new = passed key (fst (run_limiter config calls)) @ [call_time c]"
    unfolding run_snoc by (cases c; cases "run_limiter config calls") (auto simp: allow_def Let_def)
  show ?case
  proof (cases "a \<le> call_time c \<and> call_time c \<le> b")
    case True
    have "call_time c' - Window config + d \<le> a" if "c' \<in> set (calls @ [c])" for c'
      using True that snoc.prems assms(2,3) by (force simp: skewed_snoc)
    moreover have "key_inv config d (calls @ [c]) ?new (timestamps (snd (run_limiter config (calls @ [c]))) key)"
      using run_limiter_inv [OF snoc.prems assms(2), of config] by (simp add: limiter_inv_def)
    ultimately show ?thesis unfolding within_def by (intro key_inv_window)
  next
    case False
    then show ?thesis using prev steps by (auto simp: within_def)
  qed
qed

text \<open>A refusal is never unfounded: the requests that fill the limit are in the window.\<close>

lemma prune_recent:
  assumes "sorted_wrt (\<lambda>u v. u \<le> v + d) ts" "0 \<le> d" "u \<in> set (pruneOlderThan ts cutoff)"
  shows "cutoff - d \<le> u"
proof -
  obtain v vs where v: "pruneOlderThan ts cutoff = v # vs" using assms(3) by (cases "pruneOlderThan ts cutoff") auto
  have "\<not> v < cutoff" using v unfolding pruneOlderThan_def by (metis dropWhile_eq_Cons_conv)
  moreover have "sorted_wrt (\<lambda>u v. u \<le> v + d) (v # vs)"
    using assms(1) v prune_parts [of ts cutoff] by (metis sorted_wrt_append)
  ultimately show ?thesis using assms(2,3) v by auto
qed

lemma refusal_founded:
  assumes skew: "skewed d (calls @ [Allow key now])" "0 \<le> d"
    and refused: "fst (run_limiter config (calls @ [Allow key now])) = fst (run_limiter config calls)"
  shows "Requests config \<le> int (within key (now - Window config - d) (now + d) (fst (run_limiter config calls)))"
proof -
  obtain log st where run: "run_limiter config calls = (log, st)" by (cases "run_limiter config calls")
  let ?ts = "pruneOlderThan (timestamps st key) (now - Window config)"
  have "key_inv config d calls (passed key log) (timestamps st key)"
    using run_limiter_inv [of d calls config] skew run by (simp add: skewed_snoc limiter_inv_def)
  then obtain dropped where us: "passed key log = dropped @ timestamps st key"
    and sorted: "sorted_wrt (\<lambda>u v. u \<le> v + d) (passed key log)" and times: "set (passed key log) \<subseteq> call_time ` set calls"
    unfolding key_inv_def by blast
  obtain old where old: "timestamps st key = old @ ?ts" using prune_parts by metis
  have "now - Window config - d \<le> u \<and> u \<le> now + d" if "u \<in> set ?ts" for u
  proof
    show "now - Window config - d \<le> u" using prune_recent [OF _ skew(2) that] sorted us by (simp add: sorted_wrt_append)
    have "u \<in> set (timestamps st key)" by (subst old) (simp add: that)
    then have "u \<in> set (passed key log)" by (simp add: us)
    then show "u \<le> now + d" using times skew(1) by (auto simp: skewed_snoc)
  qed
  then have "filter (\<lambda>u. now - Window config - d \<le> u \<and> u \<le> now + d) ?ts = ?ts" by (intro filter_True) blast
  then have "length ?ts \<le> within key (now - Window config - d) (now + d) log"
    unfolding within_def us by (subst old) simp
  moreover have "\<not> int (length ?ts) < Requests config"
    using refused unfolding run_snoc run by (auto simp: allow_def Let_def)
  ultimately show ?thesis using run by simp
qed

text \<open>C40. The limiter lets at most \<open>Requests\<close> requests of a key through in any window, whatever keys, cleanups
  and refusals are interleaved, and refuses a request only when that many were let through in the
  window before it. Where calls overtake one another between reading the clock and taking the mutex
  by at most \<open>d\<close>, the first holds for windows shorter by \<open>2 d\<close> and the second for a window longer by
  \<open>d\<close> at both ends.\<close>

theorem rate_limit_enforced:
  assumes "skewed d (calls @ [Allow key now])" and "0 \<le> d"
  shows "int (within key a (a + Window config - 2 * d) (fst (run_limiter config calls))) \<le> max 0 (Requests config) \<and>
    (fst (run_limiter config (calls @ [Allow key now])) = fst (run_limiter config calls) \<longrightarrow>
      Requests config \<le> int (within key (now - Window config - d) (now + d) (fst (run_limiter config calls))))"
  using window_bound [of d calls] refusal_founded [OF assms] assms by (simp add: skewed_snoc)

text \<open>Three requests of one address against a limit of two, the last at the end of the window, with a
  request of another address and a cleanup in between.\<close>

theorem rate_limit_enforced_witness:
  "let calls = [Allow ''ip:a'' 100, Allow ''ip:b'' 105, Allow ''ip:a'' 110, Cleanup 120] in
   fst (run_limiter \<lparr>Requests = 2, Window = 50\<rparr> calls) = [(''ip:a'', 100), (''ip:b'', 105), (''ip:a'', 110)] \<and>
   fst (run_limiter \<lparr>Requests = 2, Window = 50\<rparr> (calls @ [Allow ''ip:a'' 150])) = fst (run_limiter \<lparr>Requests = 2, Window = 50\<rparr> calls) \<and>
   int (within ''ip:a'' 100 150 (fst (run_limiter \<lparr>Requests = 2, Window = 50\<rparr> calls))) = 2"
proof -
  define calls where "calls = [Allow ''ip:a'' 100, Allow ''ip:b'' 105, Allow ''ip:a'' 110, Cleanup 120]"
  have run: "run_limiter \<lparr>Requests = 2, Window = 50\<rparr> calls =
      ([(''ip:a'', 100), (''ip:b'', 105), (''ip:a'', 110)], snd (run_limiter \<lparr>Requests = 2, Window = 50\<rparr> calls))"
    by (simp add: calls_def run_limiter_def allow_def timestamps_def pruneOlderThan_def Let_def)
  have refused: "fst (run_limiter \<lparr>Requests = 2, Window = 50\<rparr> (calls @ [Allow ''ip:a'' 150])) =
      fst (run_limiter \<lparr>Requests = 2, Window = 50\<rparr> calls)"
    by (simp add: calls_def run_limiter_def allow_def timestamps_def removeExpired_def pruneOlderThan_def Let_def)
  have "skewed 0 (calls @ [Allow ''ip:a'' 150])" by (simp add: skewed_def calls_def)
  from rate_limit_enforced [OF this, where a = 100 and config = "\<lparr>Requests = 2, Window = 50\<rparr>"] refused
  have "int (within ''ip:a'' 100 150 (fst (run_limiter \<lparr>Requests = 2, Window = 50\<rparr> calls))) \<le> 2"
    "2 \<le> int (within ''ip:a'' 100 150 (fst (run_limiter \<lparr>Requests = 2, Window = 50\<rparr> calls)))"
    by simp_all
  then show ?thesis unfolding calls_def [symmetric] Let_def using run refused by (metis fst_conv order_antisym)
qed

section \<open>Retrying\<close>

text \<open>A refused client that waits for the number of seconds in \<open>Retry-After\<close> and meets no other request of
  its key is let through.\<close>

lemma retryAfter_past: "resetAt < now + retryAfter now resetAt * nanos"
proof (cases "0 \<le> resetAt - now")
  case True
  have "resetAt - now < ((resetAt - now) div nanos + 1) * nanos"
    using div_mult_mod_eq [of "resetAt - now" nanos] pos_mod_bound [of nanos "resetAt - now"]
    by (simp add: nanos_def algebra_simps)
  then show ?thesis using True by (simp add: retryAfter_def Let_def)
next
  case False
  then show ?thesis
    using div_mult_mod_eq [of "now - resetAt" nanos] pos_mod_sign [of nanos "now - resetAt"]
    by (simp add: retryAfter_def Let_def nanos_def algebra_simps)
qed

lemma retry_succeeds:
  assumes refused: "RateLimit config now now' key st = (TooMany n, st')"
    and full: "int (length (timestamps st key)) \<le> Requests config" and "0 < Requests config"
    and later: "now' + n * nanos \<le> again"
  shows "fst (RateLimit config again now'' key st') = Pass"
proof -
  let ?ts = "pruneOlderThan (timestamps st key) (now - Window config)"
  have stop: "Requests config \<le> int (length ?ts)" and st': "timestamps st' key = ?ts"
    and n: "n = retryAfter now' (hd ?ts + Window config)"
    using refused assms(3)
    by (auto simp: RateLimit_def allow_def applyRateLimitDecision_def Let_def split: if_splits)
  obtain u us where ts: "?ts = u # us" using stop assms(3) by (cases ?ts) auto
  have "u < again - Window config" using retryAfter_past [of "u + Window config" now'] later n ts by simp
  then have "length (pruneOlderThan ?ts (again - Window config)) \<le> length us"
    unfolding ts by (simp add: pruneOlderThan_def length_dropWhile_le)
  moreover have "length ?ts \<le> length (timestamps st key)" by (simp add: pruneOlderThan_def length_dropWhile_le)
  ultimately have "int (length (pruneOlderThan ?ts (again - Window config))) < Requests config" using ts full by simp
  then show ?thesis using st' by (simp add: RateLimit_def allow_def applyRateLimitDecision_def Let_def)
qed

section \<open>The script\<close>

text \<open>The limiter in Redis fails closed, and otherwise lets a request through exactly when fewer than the
  limit are live in the set.\<close>

lemma redis_fails_closed:
  "fst (redis_Allow config now (Inl e)) = False" "fst (redis_Allow config now (Inr None)) = False"
  by (simp_all add: redis_Allow_def Let_def)

lemma redis_decision:
  assumes "redis_script config pre server_now now key z = (reply, z')"
  shows "fst (redis_Allow config now (Inr (Some reply))) \<longleftrightarrow>
    int (length (filter (\<lambda>(_, score). score > now div 1000000 - Window config div 1000000)
      (live_key server_now z (pre @ key)))) < Requests config"
  using assms
  by (auto simp: redis_script_def slidingWindowScript_def redis_Allow_def zremrangebyscore_def Let_def split: if_splits)

text \<open>The member names nothing but the instant, so requests that two controllers handle in the same
  nanosecond are one member: the second one does not count.\<close>

lemma script_stores:
  assumes "slidingWindowScript sn key now window limit member z = (r, z')" "0 \<le> r" "0 < window"
  shows "live_key sn z' key = zadd now member (zremrangebyscore (now - window) (live_key sn z key))"
proof -
  have "sn < sn + - ((- window) div 1000)" using assms(3) by simp
  then show ?thesis using assms(1,2) by (auto simp: slidingWindowScript_def live_key_def Let_def split: if_splits)
qed

lemma redis_same_instant:
  assumes "redis_script config pre sn now key z = (r, z')" "0 \<le> r"
    and "redis_script config pre sn now key z' = (r', z'')" "0 \<le> r'" and "0 < Window config div 1000000"
  shows "live_key sn z'' (pre @ key) = live_key sn z' (pre @ key)"
proof -
  let ?now = "now div 1000000" and ?w = "Window config div 1000000" and ?m = "redis_member now"
  let ?l = "live_key sn z (pre @ key)"
  have one: "live_key sn z' (pre @ key) = zadd ?now ?m (zremrangebyscore (?now - ?w) ?l)"
    using script_stores assms(1,2,5) unfolding redis_script_def by blast
  have "live_key sn z'' (pre @ key) = zadd ?now ?m (zremrangebyscore (?now - ?w) (live_key sn z' (pre @ key)))"
    using script_stores assms(3-5) unfolding redis_script_def by blast
  also have "\<dots> = zadd ?now ?m (zremrangebyscore (?now - ?w) ?l)"
    unfolding one zadd_def zremrangebyscore_def using assms(5) by (auto simp: split_beta intro!: filter_cong)
  finally show ?thesis using one by simp
qed

end
