(* ===== verification/Middleware.thy ===== *)
theory Middleware
  imports Rate_Limit
begin

text \<open>
  The rest of the request filters: \<^verbatim>\<open>api/middleware/csrf.go\<close>, \<^verbatim>\<open>api/middleware/ip_allowlist.go\<close>,
  \<^verbatim>\<open>api/middleware/permissions.go\<close> and the permissions of \<^verbatim>\<open>models/permission.go\<close>. A filter maps a
  request and its context to the context for the next handler or to an abort; the CSRF filter also
  returns the cookies and headers it sets. SHA-256, the random source and the parsing of addresses are
  arguments. A permission is its string.
\<close>

section \<open>Permissions\<close>

definition allPermissions :: "string list" where
  "allPermissions =
     [''plans:read'', ''plans:write'', ''plans:delete'',
      ''nodes:read'', ''nodes:write'', ''nodes:delete'',
      ''customers:read'', ''customers:write'', ''customers:delete'',
      ''vms:read'', ''vms:write'', ''vms:delete'',
      ''settings:read'', ''settings:write'',
      ''backups:read'', ''backups:write'',
      ''ipsets:read'', ''ipsets:write'', ''ipsets:delete'',
      ''templates:read'', ''templates:write'',
      ''rdns:read'', ''rdns:write'',
      ''audit_logs:read'',
      ''storage_backends:read'', ''storage_backends:write'', ''storage_backends:delete'',
      ''billing:read'', ''billing:write'']"

definition RoleSuperAdmin :: string where "RoleSuperAdmin = ''super_admin''"
definition RoleAdmin :: string where "RoleAdmin = ''admin''"
definition RoleViewer :: string where "RoleViewer = ''viewer''"

definition defaultPermissions :: "string \<rightharpoonup> string list" where
  "defaultPermissions =
     [RoleSuperAdmin \<mapsto> allPermissions,
      RoleAdmin \<mapsto>
        [''plans:read'', ''plans:write'',
         ''nodes:read'', ''nodes:write'',
         ''customers:read'', ''customers:write'',
         ''vms:read'', ''vms:write'', ''vms:delete'',
         ''settings:read'',
         ''backups:read'', ''backups:write'',
         ''ipsets:read'', ''ipsets:write'',
         ''templates:read'', ''templates:write'',
         ''rdns:read'', ''rdns:write'',
         ''audit_logs:read'',
         ''storage_backends:read'', ''storage_backends:write'',
         ''billing:read'', ''billing:write''],
      RoleViewer \<mapsto>
        [''plans:read'', ''nodes:read'', ''customers:read'', ''vms:read'', ''settings:read'', ''backups:read'',
         ''ipsets:read'', ''templates:read'', ''rdns:read'', ''audit_logs:read'', ''storage_backends:read'',
         ''billing:read'']]"

definition GetDefaultPermissions :: "string \<Rightarrow> string list" where
  "GetDefaultPermissions role = (case defaultPermissions role of None \<Rightarrow> [] | Some perms \<Rightarrow> perms)"

fun models_HasPermission :: "string list \<Rightarrow> string \<Rightarrow> bool" where
  "models_HasPermission [] required = False"
| "models_HasPermission (p # ps) required = (if p = required then True else models_HasPermission ps required)"

fun HasAnyPermission :: "string list \<Rightarrow> string list \<Rightarrow> bool" where
  "HasAnyPermission userPermissions [] = False"
| "HasAnyPermission userPermissions (r # rs) =
     (if models_HasPermission userPermissions r then True else HasAnyPermission userPermissions rs)"

fun HasAllPermissions :: "string list \<Rightarrow> string list \<Rightarrow> bool" where
  "HasAllPermissions userPermissions [] = True"
| "HasAllPermissions userPermissions (r # rs) =
     (if \<not> models_HasPermission userPermissions r then False else HasAllPermissions userPermissions rs)"

definition GetEffectivePermissions :: "Admin \<Rightarrow> string list" where
  "GetEffectivePermissions a = (if a_Permissions a \<noteq> [] then a_Permissions a else GetDefaultPermissions (a_Role a))"

text \<open>The context with the loaded administrator.\<close>

record admin_context = gin_context +
  ctx_admin :: "Admin option"

datatype admin_handled = ANext admin_context | AAbort nat string

definition AdminLoader :: "(string \<Rightarrow> error + Admin) \<Rightarrow> admin_context \<Rightarrow> admin_handled" where
  "AdminLoader fetcher c =
     (let adminID = GetUserID (gin_context.truncate c) in
      if adminID = '''' then AAbort 401 ''UNAUTHORIZED''
      else case fetcher adminID of
        Inl _ \<Rightarrow> AAbort 500 ''INTERNAL_ERROR''
      | Inr admin \<Rightarrow> ANext (c\<lparr>ctx_admin := Some admin\<rparr>))"

definition require_admin :: "(string list \<Rightarrow> bool) \<Rightarrow> admin_context \<Rightarrow> admin_handled" where
  "require_admin ok c =
     (case ctx_admin c of
        None \<Rightarrow> AAbort 403 ''FORBIDDEN''
      | Some admin \<Rightarrow> if \<not> ok (GetEffectivePermissions admin) then AAbort 403 ''FORBIDDEN'' else ANext c)"

definition RequireAdminPermission :: "string \<Rightarrow> admin_context \<Rightarrow> admin_handled" where
  "RequireAdminPermission required = require_admin (\<lambda>permissions. models_HasPermission permissions required)"

definition RequireAnyAdminPermission :: "string list \<Rightarrow> admin_context \<Rightarrow> admin_handled" where
  "RequireAnyAdminPermission required = require_admin (\<lambda>permissions. HasAnyPermission permissions required)"

definition RequireAllAdminPermissions :: "string list \<Rightarrow> admin_context \<Rightarrow> admin_handled" where
  "RequireAllAdminPermissions required = require_admin (\<lambda>permissions. HasAllPermissions permissions required)"

lemma models_HasPermission_iff [simp]: "models_HasPermission ps required \<longleftrightarrow> required \<in> set ps"
  by (induction ps) auto

lemma HasAnyPermission_iff [simp]: "HasAnyPermission ps rs \<longleftrightarrow> (\<exists>r\<in>set rs. r \<in> set ps)"
  by (induction rs) auto

lemma HasAllPermissions_iff [simp]: "HasAllPermissions ps rs \<longleftrightarrow> set rs \<subseteq> set ps"
  by (induction rs) auto

text \<open>The roles are ordered, and a viewer changes nothing.\<close>

lemma roles_ordered:
  "set (GetDefaultPermissions RoleViewer) \<subseteq> set (GetDefaultPermissions RoleAdmin)"
  "set (GetDefaultPermissions RoleAdmin) \<subseteq> set (GetDefaultPermissions RoleSuperAdmin)"
  "set (GetDefaultPermissions role) \<subseteq> set allPermissions"
  by (auto simp: GetDefaultPermissions_def defaultPermissions_def RoleViewer_def RoleAdmin_def RoleSuperAdmin_def
      allPermissions_def)

lemma viewer_reads: "list_all (\<lambda>p. HasSuffix p '':read'') (GetDefaultPermissions RoleViewer)"
  by (simp add: GetDefaultPermissions_def defaultPermissions_def RoleViewer_def RoleAdmin_def RoleSuperAdmin_def HasSuffix_def)

text \<open>Behind the loader, a request goes on exactly when the administrator the token names exists and has
  the permission, by the list stored for the account or, if that is empty, by the role.\<close>

lemma admin_permission_checked:
  "(\<exists>c1 c2. AdminLoader fetcher c = ANext c1 \<and> RequireAdminPermission required c1 = ANext c2) \<longleftrightarrow>
   GetUserID (gin_context.truncate c) \<noteq> '''' \<and>
   (\<exists>admin. fetcher (GetUserID (gin_context.truncate c)) = Inr admin \<and> required \<in> set (GetEffectivePermissions admin))"
  by (auto simp: AdminLoader_def RequireAdminPermission_def require_admin_def Let_def split: sum.splits)

text \<open>Taking away the last permission of an account gives it those of its role.\<close>

lemma revoking_all_restores_role: "GetEffectivePermissions (a\<lparr>a_Permissions := []\<rparr>) = GetDefaultPermissions (a_Role a)"
  by (simp add: GetEffectivePermissions_def)

section \<open>Allowed addresses\<close>

record IPAllowlistConfig =
  al_AllowedIPs :: "string list"
  al_Enabled :: bool

fun ValidateIPAllowlistConfig :: "net_lib \<Rightarrow> string list \<Rightarrow> error option" where
  "ValidateIPAllowlistConfig net [] = None"
| "ValidateIPAllowlistConfig net (e # es) =
     (let entry = TrimSpace e in
      if entry = '''' then ValidateIPAllowlistConfig net es
      else if CHR ''/'' \<in> set entry then
        (case ParseCIDR net entry of
           None \<Rightarrow> Some (ErrMsg ''ip_allowlist: invalid CIDR entry'')
         | Some _ \<Rightarrow> ValidateIPAllowlistConfig net es)
      else
        (case ParseIP net entry of
           None \<Rightarrow> Some (ErrMsg ''ip_allowlist: invalid IP entry'')
         | Some _ \<Rightarrow> ValidateIPAllowlistConfig net es))"

fun parse_allowlist :: "net_lib \<Rightarrow> string list \<Rightarrow> (nat list \<Rightarrow> bool) list \<times> nat list list" where
  "parse_allowlist net [] = ([], [])"
| "parse_allowlist net (e # es) =
     (let entry = TrimSpace e; (nets, ips) = parse_allowlist net es in
      if entry = '''' then (nets, ips)
      else if CHR ''/'' \<in> set entry then
        (case ParseCIDR net entry of None \<Rightarrow> (nets, ips) | Some n \<Rightarrow> (n # nets, ips))
      else (case ParseIP net entry of None \<Rightarrow> (nets, ips) | Some ip \<Rightarrow> (nets, ip # ips)))"

definition IPAllowlist :: "net_lib \<Rightarrow> IPAllowlistConfig \<Rightarrow> http_request \<Rightarrow> gin_context \<Rightarrow> handled" where
  "IPAllowlist net config req c =
     (if \<not> al_Enabled config then Next c
      else
        let (allowedNets, allowedIPs) = parse_allowlist net (al_AllowedIPs config) in
        case ParseIP net (hr_ClientIP req) of
          None \<Rightarrow> Abort 403 ''IP_NOT_ALLOWED''
        | Some clientIP \<Rightarrow>
            if clientIP \<in> set allowedIPs then Next c
            else if list_ex (\<lambda>n. n clientIP) allowedNets then Next c
            else Abort 403 ''IP_NOT_ALLOWED'')"

text \<open>What one entry admits.\<close>

definition entry_admits :: "net_lib \<Rightarrow> string \<Rightarrow> nat list \<Rightarrow> bool" where
  "entry_admits net e ip \<longleftrightarrow>
     (let entry = TrimSpace e in
      entry \<noteq> '''' \<and>
      (if CHR ''/'' \<in> set entry then \<exists>n. ParseCIDR net entry = Some n \<and> n ip else ParseIP net entry = Some ip))"

lemma parse_allowlist_admits:
  "(ip \<in> set (snd (parse_allowlist net es)) \<or> list_ex (\<lambda>n. n ip) (fst (parse_allowlist net es))) \<longleftrightarrow>
   (\<exists>e\<in>set es. entry_admits net e ip)"
  by (induction es) (auto simp: entry_admits_def Let_def split: prod.splits option.splits)

text \<open>With the list on, a request passes exactly when an entry of it admits the client's address; an
  entry that does not parse admits nothing, and a list that validates has none of those.\<close>

lemma allowlist_exact:
  assumes "al_Enabled config"
  shows "IPAllowlist net config req c = Next c \<longleftrightarrow>
    (\<exists>ip. ParseIP net (hr_ClientIP req) = Some ip \<and> (\<exists>e\<in>set (al_AllowedIPs config). entry_admits net e ip))"
proof (cases "ParseIP net (hr_ClientIP req)")
  case (Some ip)
  obtain nets ips where "parse_allowlist net (al_AllowedIPs config) = (nets, ips)"
    by (cases "parse_allowlist net (al_AllowedIPs config)")
  then show ?thesis using assms Some parse_allowlist_admits [of ip net "al_AllowedIPs config"]
    by (simp add: IPAllowlist_def) blast
qed (simp add: IPAllowlist_def assms split: prod.split)

lemma validated_entries:
  "ValidateIPAllowlistConfig net es = None \<longleftrightarrow>
   (\<forall>e\<in>set es. TrimSpace e = '''' \<or>
      (if CHR ''/'' \<in> set (TrimSpace e) then ParseCIDR net (TrimSpace e) \<noteq> None else ParseIP net (TrimSpace e) \<noteq> None))"
  by (induction es) (auto simp: Let_def split: option.splits)

section \<open>Cross-site requests\<close>

record CSRFConfig =
  CookieName :: string
  HeaderName :: string
  Secure :: bool
  MaxAge :: int
  CookiePath :: string
  CookieDomain :: string

definition DefaultCSRFConfig :: CSRFConfig where
  "DefaultCSRFConfig = \<lparr>CookieName = ''csrf_token'', HeaderName = ''X-CSRF-Token'', Secure = True, MaxAge = 86400,
     CookiePath = ''/'', CookieDomain = ''''\<rparr>"

definition csrf_defaults :: "CSRFConfig \<Rightarrow> CSRFConfig" where
  "csrf_defaults config = config\<lparr>
     CookieName := (if CookieName config = '''' then ''csrf_token'' else CookieName config),
     HeaderName := (if HeaderName config = '''' then ''X-CSRF-Token'' else HeaderName config),
     MaxAge := (if MaxAge config = 0 then 86400 else MaxAge config),
     CookiePath := (if CookiePath config = '''' then ''/'' else CookiePath config)\<rparr>"

record csrf_request =
  cr_Method :: string
  cr_Cookie :: "string \<Rightarrow> string option"
  cr_Header :: "string \<Rightarrow> string"

record http_cookie =
  hc_Name :: string
  hc_Value :: string
  hc_Path :: string
  hc_Domain :: string
  hc_MaxAge :: int
  hc_Secure :: bool
  hc_HttpOnly :: bool

datatype csrf_result = CNext "http_cookie list" "(string \<times> string) list" | CAbort nat string

definition csrf_cookie :: "CSRFConfig \<Rightarrow> string \<Rightarrow> http_cookie" where
  "csrf_cookie config token =
     \<lparr>hc_Name = CookieName config, hc_Value = token, hc_Path = CookiePath config, hc_Domain = CookieDomain config,
      hc_MaxAge = MaxAge config, hc_Secure = Secure config, hc_HttpOnly = False\<rparr>"

definition CSRF :: "(string \<Rightarrow> string) \<Rightarrow> error + string \<Rightarrow> CSRFConfig \<Rightarrow> csrf_request \<Rightarrow> csrf_result" where
  "CSRF sha256 generateToken cfg req =
     (let config = csrf_defaults cfg in
      if cr_Method req \<in> {''GET'', ''HEAD'', ''OPTIONS''} then
        (if cr_Cookie req (CookieName config) \<in> {None, Some ''''} then
           (case generateToken of
              Inl _ \<Rightarrow> CAbort 500 ''CSRF_TOKEN_ERROR''
            | Inr token \<Rightarrow> CNext [csrf_cookie config token] [(HeaderName config, token)])
         else CNext [] [(HeaderName config, the (cr_Cookie req (CookieName config)))])
      else
        (case cr_Cookie req (CookieName config) of
           None \<Rightarrow> CAbort 403 ''CSRF_COOKIE_MISSING''
         | Some cookieToken \<Rightarrow>
             let headerToken = cr_Header req (HeaderName config) in
             if headerToken = '''' then CAbort 403 ''CSRF_HEADER_MISSING''
             else if sha256 cookieToken \<noteq> sha256 headerToken then CAbort 403 ''CSRF_TOKEN_MISMATCH''
             else case generateToken of
               Inl _ \<Rightarrow> CAbort 500 ''CSRF_TOKEN_ERROR''
             | Inr token \<Rightarrow> CNext [csrf_cookie config token] [(HeaderName config, token)]))"

definition SkipCSRFForAPIKey ::
  "(string \<Rightarrow> string) \<Rightarrow> error + string \<Rightarrow> CSRFConfig \<Rightarrow> gin_context \<Rightarrow> csrf_request \<Rightarrow> csrf_result" where
  "SkipCSRFForAPIKey sha256 generateToken cfg c req =
     (if ctx_actor_type c = ''customer_api_key'' then CNext [] []
      else if ctx_api_key_id c \<noteq> '''' then CNext [] []
      else CSRF sha256 generateToken cfg req)"

text \<open>A request that changes state passes only with the cookie's token in the header, up to collisions of
  the digest.\<close>

lemma csrf_requires_token:
  assumes "CSRF sha256 tok cfg req = CNext cookies headers" "cr_Method req \<notin> {''GET'', ''HEAD'', ''OPTIONS''}"
  obtains cookie where "cr_Cookie req (CookieName (csrf_defaults cfg)) = Some cookie"
    "cr_Header req (HeaderName (csrf_defaults cfg)) \<noteq> ''''"
    "sha256 cookie = sha256 (cr_Header req (HeaderName (csrf_defaults cfg)))"
  using assms by (auto simp: CSRF_def Let_def split: option.splits if_splits)

text \<open>The token a page read sets is the one the next request needs.\<close>

lemma csrf_sets_token:
  assumes "CSRF sha256 (Inr token) cfg req = CNext (cookie # cookies) headers"
  shows "cookie = csrf_cookie (csrf_defaults cfg) token \<and> headers = [(HeaderName (csrf_defaults cfg), token)]"
  using assms by (auto simp: CSRF_def Let_def split: option.splits if_splits)

lemma csrf_roundtrip:
  assumes first: "CSRF sha256 (Inr token) cfg req = CNext (cookie # cookies) [(header, value)]"
    and "cr_Cookie req' (hc_Name cookie) = Some (hc_Value cookie)" "cr_Header req' header = value" "token \<noteq> ''''"
  shows "\<exists>cookies headers. CSRF sha256 (Inr token') cfg req' = CNext cookies headers"
proof -
  have "cr_Cookie req' (CookieName (csrf_defaults cfg)) = Some token" "cr_Header req' (HeaderName (csrf_defaults cfg)) = token"
    using csrf_sets_token [OF first] assms(2,3) by (simp_all add: csrf_cookie_def)
  then show ?thesis using assms(4) by (simp add: CSRF_def Let_def)
qed

end
