(* ===== verification/Spec2Isabelle.thy ===== *)
theory Spec2Isabelle
  imports Ledger_Concurrency Gateways Billing_Scheduler Circuit_Breaker VM_Deletion Auth_Sessions Middleware
begin

text \<open>
  A verification development for VirtueStack, a control panel for virtual machines. The program is a
  controller (\<^verbatim>\<open>src/internal/controller\<close>: HTTP API, services, repositories over PostgreSQL, a task
  worker, schedulers, billing and payments) that drives node agents (\<^verbatim>\<open>src/internal/nodeagent\<close>:
  libvirt, storage, network) over gRPC. The development models the parts of the controller that decide
  about money, machines, addresses and access; paths below are relative to
  \<^verbatim>\<open>src/internal/controller\<close>.

  \<^bold>\<open>Conventions.\<close> An operation of a repository or service is a function from the state to a result
  (\<open>Inl\<close> an error, \<open>Inr\<close> a value) and the state it leaves; early returns are branches, \<open>fmt.Errorf\<close>
  with \<open>%w\<close> is the sentinel it wraps, log lines are left out. The state is a record that grows along
  the components: \<open>db_env\<close> (Prelude), \<open>ledger_db\<close>, \<open>payments_db\<close>, \<open>vm_db\<close>, \<open>plan_db\<close>, \<open>sched_db\<close>, \<open>task_db\<close>,
  \<open>ip_db\<close>, \<open>del_db\<close> and \<open>auth_db\<close>. PostgreSQL is not part of the program: a table is the list of its
  rows, the constraints of the migrations (\<^verbatim>\<open>src/migrations\<close>) are checked by each statement that
  writes, and the list \<open>faults\<close> of the state says, statement by statement, whether the connection
  works, fails before the effect, or loses the reply after it. Every theorem without a hypothesis on
  \<open>faults\<close> holds for all of them. Times are instants of the state or arguments, 64-bit integers are
  words, other integers \<open>int\<close> or \<open>nat\<close> where no overflow can occur. Remote parties and libraries are
  arguments: hash and signature functions, JSON decoding, gateway answers, the JWT and TOTP libraries,
  the order of INET values, identifiers and random tokens. What the proofs need of them is a named
  hypothesis, and an example instance discharges it in the witness of the theorem.

  \<^bold>\<open>Library.\<close>

  \<^item> Prelude: errors, the database model (\<open>auto_stmt\<close>, \<open>tx_stmt\<close>, \<open>transaction\<close>, \<open>bind_db\<close>)
    and the case rules every component proof uses.
  \<^item> Pagination: \<^verbatim>\<open>models/base.go\<close> and \<^verbatim>\<open>repository/cursor/pagination.go\<close>; following the cursors
    visits each row once.
  \<^item> Go_Stdlib: the functions of \<^verbatim>\<open>strings\<close>, \<^verbatim>\<open>strconv\<close> and \<^verbatim>\<open>fmt\<close> the code calls, with
    parse/print laws, and \<open>ILIKE\<close>. Calendar: UTC dates and their layouts.
  \<^item> Table: the statements of a table as generic operations, and the locale \<open>table\<close> with what each of
    them does to the rows, interpreted once per table.

  \<^bold>\<open>Money.\<close>

  \<^item> Ledger: \<^verbatim>\<open>repository/billing_transaction_repo.go\<close>,
    \<^verbatim>\<open>services/billing_ledger_service.go\<close>, \<^verbatim>\<open>billing/native/adapter.go\<close>. Balances are the sums of the
    journal after any history, an idempotency key books once, a reused key conflicts. The locale
    \<open>ledger_repo\<close> is the contract the payment and billing theories use.
  \<^item> Ledger_Concurrency: the same transactions statement by statement, any number of sessions
    interleaved under row locks, refine the atomic postings.
  \<^item> Payments, Payment_Service, Gateways: the table \<open>billing_payments\<close>, the settlement transactions,
    \<^verbatim>\<open>services/payment_service.go\<close> over the interface it declares (locale \<open>payment_repo\<close>), and what the
    gateways of \<^verbatim>\<open>payments\<close> make of amounts, signatures and webhook events. A payment is credited
    once whatever gateways, customers and faults do; a settlement that the database lets through
    credits the account; amounts survive printing; a webhook is accepted only with a full signature.
  \<^item> Billing_Scheduler: the hourly cycle, its checkpoints and the advisory lock, alone and with several
    controllers interleaved (locale \<open>hourly_billing\<close>): one debit per machine and hour.

  \<^bold>\<open>Machines and addresses.\<close>

  \<^item> VM_Repo, Plans: \<^verbatim>\<open>models/vm.go\<close>, \<^verbatim>\<open>repository/vm_repo.go\<close>,
    \<^verbatim>\<open>repository/plan_repo.go\<close>, \<^verbatim>\<open>services/plan_service.go\<close>; the state machine, exclusive transitions,
    constraints kept by every statement, complete listings.
  \<^item> Tasks: \<^verbatim>\<open>repository/task_repo.go\<close>, \<^verbatim>\<open>tasks/worker.go\<close> and the publisher; redelivery ends, a
    key publishes once, and what the deployed columns make of it.
  \<^item> IPAM: \<^verbatim>\<open>repository/ip_repo.go\<close>, \<^verbatim>\<open>services/ipam_service.go\<close>; no address is allocated twice,
    IPv6 subnets are disjoint and laid out as the index says.
  \<^item> VM_Deletion: \<open>DeleteVM\<close> of \<^verbatim>\<open>services/vm_service.go\<close> and \<^verbatim>\<open>tasks/handlers_vm_delete.go\<close>, composed
    from VM_Repo, Tasks and IPAM and a node agent that may lose replies; success means everything is
    released, and after any failed attempts one undisturbed retry completes the deletion.
  \<^item> Circuit_Breaker: \<^verbatim>\<open>services/circuit_breaker.go\<close>, every method at an instant; locale
    \<open>recovering_breaker\<close> for configurations that reopen.

  \<^bold>\<open>Access.\<close>

  \<^item> Auth_Repo: \<^verbatim>\<open>repository/customer_repo.go\<close> with its six tables.
  \<^item> Auth_Tokens: \<^verbatim>\<open>api/middleware/auth.go\<close>, tokens and the middleware as functions of a request to the
    next handler's context or an abort.
  \<^item> Auth_Service: \<^verbatim>\<open>services/auth_service*.go\<close>; a session requires the credentials.
  \<^item> Auth_Sessions: histories of all operations of the service; the locale \<open>stable\<close> lifts what statements
    keep to what operations keep, and a refresh token works once.
  \<^item> Rate_Limit: \<^verbatim>\<open>api/middleware/ratelimit.go\<close>; no window holds more requests of a key than the limit,
    no refusal is unfounded, and waiting for \<open>Retry-After\<close> suffices.
  \<^item> Middleware: \<^verbatim>\<open>api/middleware/csrf.go\<close>, \<^verbatim>\<open>ip_allowlist.go\<close>, \<^verbatim>\<open>permissions.go\<close> and
    \<^verbatim>\<open>models/permission.go\<close>; what each filter lets through.

  \<^bold>\<open>Loops and bounds.\<close> Every function is total by structural recursion or a measure; there is no fuel.
  The redelivery of a task is bounded by \<open>MaxDeliver\<close>, as in the code; a billing cycle and the recovery
  of stuck tasks recurse over the rows they listed. Histories are lists of commands of any length,
  interleavings inductive relations or lists of choices.

  \<^bold>\<open>Not modelled.\<close> The node agent and the image, network and storage code call libvirt, qemu, Ceph, LVM
  and the shell: what they compute is in those programs. HTTP handlers bind JSON, call one service
  operation and write a response. \<^verbatim>\<open>src/docs\<close> and \<^verbatim>\<open>src/internal/shared/proto\<close> are generated.
  Notifications, OAuth, PDF invoices, reverse DNS and metrics are calls to other services with text
  formatting. The creation, migration, backup and failover of machines are sequences of node agent
  calls around the repositories modelled here; of them only deletion is modelled. Real time, goroutine
  scheduling inside one request, timing side channels and the contents of log lines have no
  counterpart.
\<close>

end
